theory Spec2Isabelle
  imports
    Main
    "HOL-Library.Word"
    "HOL-Library.Char_ord"
    "HOL-Library.List_Lexorder"
    "HOL-Library.Log_Nat"
    "HOL-Library.Multiset"
begin

unbundle bit_operations_syntax

section \<open>Go values\<close>

text \<open>
  A Go \<open>string\<close> and a \<open>[]byte\<close> are byte sequences: both are \<^typ>\<open>string\<close> here (a
  \<^typ>\<open>char\<close> is one byte, \<^term>\<open>of_char\<close> reads its value). \<open>uint16\<close> and \<open>uint32\<close> are
  words of that width; \<open>int\<close> is the 64-bit signed integer of the platforms the server
  is built for, a \<^typ>\<open>64 word\<close> read with \<^term>\<open>sint\<close>.
\<close>

type_synonym path = string
type_synonym go_int = "64 word"

text \<open>
  An \<open>error\<close> is modelled by the text of \<open>err.Error()\<close>; the one classification the
  program asks for, \<open>os.IsNotExist\<close>, is the second constructor.
\<close>

datatype error = Error string | ErrNotExist string

fun error_text :: "error \<Rightarrow> string" where
  "error_text (Error m) = m"
| "error_text (ErrNotExist m) = m"

text \<open>\<open>fmt.Errorf(prefix + "%w", err)\<close>: the wrapped error prints as prefix and cause.\<close>

definition wrap :: "string \<Rightarrow> error \<Rightarrow> error" where
  "wrap prefix e = Error (prefix @ error_text e)"

definition io_EOF :: error where
  "io_EOF = Error ''EOF''"

definition io_ErrUnexpectedEOF :: error where
  "io_ErrUnexpectedEOF = Error ''unexpected EOF''"

subsection \<open>float64\<close>

text \<open>
  A binary64 value is a finite rational, an infinity or NaN. Zero has one sign here:
  no operand of the program is negative, so \<open>-0\<close> never arises. \<open>f64_round\<close> is
  round-to-nearest, ties-to-even, with 53 significant bits, gradual underflow below
  \<open>2^-1022\<close> and overflow to infinity from \<open>2^1024\<close>.
\<close>

datatype float64 = Fin rat | PInf | NInf | NaN

definition round_half_even :: "rat \<Rightarrow> int" where
  "round_half_even q =
     (let f = \<lfloor>q\<rfloor>; r = q - of_int f
      in if r < 1 / 2 then f
         else if 1 / 2 < r then f + 1
         else if even f then f else f + 1)"

text \<open>\<open>binade x\<close> is \<open>\<lfloor>log\<^sub>2 x\<rfloor>\<close> for a positive rational \<open>x = p / q\<close>.\<close>

definition binade :: "rat \<Rightarrow> int" where
  "binade x =
     (let (p, q) = quotient_of x; d = bitlen p - bitlen q
      in if 2 powi d \<le> x then d else d - 1)"

definition f64_round :: "rat \<Rightarrow> float64" where
  "f64_round x =
     (if x = 0 then Fin 0
      else let e = max (binade \<bar>x\<bar>) (- 1022);
               ulp = 2 powi (e - 52);
               y = of_int (round_half_even (x / ulp)) * ulp
           in if 2 powi 1024 \<le> \<bar>y\<bar> then (if 0 < x then PInf else NInf) else Fin y)"

fun f64_div :: "float64 \<Rightarrow> float64 \<Rightarrow> float64" where
  "f64_div NaN _ = NaN"
| "f64_div _ NaN = NaN"
| "f64_div (Fin a) (Fin b) =
     (if b = 0 then (if a = 0 then NaN else if 0 < a then PInf else NInf)
      else f64_round (a / b))"
| "f64_div (Fin a) _ = Fin 0"
| "f64_div PInf (Fin b) = (if 0 \<le> b then PInf else NInf)"
| "f64_div NInf (Fin b) = (if 0 \<le> b then NInf else PInf)"
| "f64_div _ _ = NaN"

text \<open>
  \<open>float64(x)\<close> of an unsigned 16- or 32-bit integer is exact (53 bits hold it); of an
  \<open>int\<close> it rounds.
\<close>

definition f64_of_u16 :: "16 word \<Rightarrow> float64" where
  "f64_of_u16 x = Fin (of_nat (unat x))"

definition f64_of_u32 :: "32 word \<Rightarrow> float64" where
  "f64_of_u32 x = Fin (of_nat (unat x))"

definition f64_of_int :: "go_int \<Rightarrow> float64" where
  "f64_of_int x = f64_round (of_int (sint x))"

fun math_IsNaN :: "float64 \<Rightarrow> bool" where
  "math_IsNaN NaN = True"
| "math_IsNaN _ = False"

text \<open>\<open>math.IsInf(f, 0)\<close>: either infinity.\<close>

fun math_IsInf :: "float64 \<Rightarrow> bool" where
  "math_IsInf PInf = True"
| "math_IsInf NInf = True"
| "math_IsInf _ = False"

section \<open>The WAV duration inspector (processor.go, wavDuration)\<close>

text \<open>
  \<open>io.ReadFull(file, buf)\<close> with the cursor at \<open>pos\<close> and \<open>len(buf) = n\<close>: the \<open>n\<close>
  bytes, or \<open>io.EOF\<close> when none is left, or \<open>io.ErrUnexpectedEOF\<close> when fewer are.
  A read of no bytes succeeds. On success the cursor is at \<open>pos + n\<close>.
\<close>

definition read_full :: "string \<Rightarrow> nat \<Rightarrow> nat \<Rightarrow> error + string" where
  "read_full file pos n =
     (if n = 0 then Inr []
      else if length file \<le> pos then Inl io_EOF
      else if length file < pos + n then Inl io_ErrUnexpectedEOF
      else Inr (take n (drop pos file)))"

definition le_uint16 :: "string \<Rightarrow> 16 word" where
  "le_uint16 b = of_char (b ! 0) OR push_bit 8 (of_char (b ! 1))"

definition le_uint32 :: "string \<Rightarrow> 32 word" where
  "le_uint32 b =
     of_char (b ! 0) OR push_bit 8 (of_char (b ! 1)) OR
     push_bit 16 (of_char (b ! 2)) OR push_bit 24 (of_char (b ! 3))"

text \<open>The three variables the \<open>fmt\<close> chunk fills; they start at zero.\<close>

record wav_format =
  channels :: "16 word"
  sampleRate :: "32 word"
  bitsPerSample :: "16 word"

definition no_format :: wav_format where
  "no_format = \<lparr>channels = 0, sampleRate = 0, bitsPerSample = 0\<rparr>"

text \<open>\<open>buf[i:j]\<close>\<close>

definition slice :: "string \<Rightarrow> nat \<Rightarrow> nat \<Rightarrow> string" where
  "slice b i j = take (j - i) (drop i b)"

text \<open>
  The \<open>for\<close> loop over the RIFF sub-chunks, with the file cursor \<open>pos\<close> and the format
  read so far. It returns the format and the declared size of the \<open>data\<close> chunk.
  \<open>file.Seek(skip, io.SeekCurrent)\<close> on a regular file moves the cursor, also past
  the end, and does not fail for a non-negative offset.
\<close>

function scan_chunks :: "string \<Rightarrow> nat \<Rightarrow> wav_format \<Rightarrow> error + (wav_format \<times> 32 word)" where
  "scan_chunks file pos fmt =
     (case read_full file pos 8 of
        Inl e \<Rightarrow> Inl e
      | Inr chunkHeader \<Rightarrow>
          let chunkID = slice chunkHeader 0 4;
              chunkSize = le_uint32 (slice chunkHeader 4 8)
          in if chunkID = ''fmt '' then
               (case read_full file (pos + 8) (unat chunkSize) of
                  Inl e \<Rightarrow> Inl e
                | Inr buf \<Rightarrow>
                    if length buf < 16 then Inl (Error ''invalid fmt chunk'')
                    else scan_chunks file (pos + 8 + unat chunkSize)
                           \<lparr>channels = le_uint16 (slice buf 2 4),
                            sampleRate = le_uint32 (slice buf 4 8),
                            bitsPerSample = le_uint16 (slice buf 14 16)\<rparr>)
             else if chunkID = ''data'' then Inr (fmt, chunkSize)
             else let skip = unat chunkSize;
                      skip = (if skip mod 2 = 1 then skip + 1 else skip)
                  in scan_chunks file (pos + 8 + skip) fmt)"
  by pat_completeness auto
termination
  by (relation "measure (\<lambda>(file, pos, fmt). length file - pos)")
     (auto simp: read_full_def split: if_splits)

declare scan_chunks.simps [simp del]

text \<open>The body of \<open>wavDuration\<close> once the file is open.\<close>

definition wavDuration_file :: "string \<Rightarrow> error + float64" where
  "wavDuration_file file =
     (case read_full file 0 12 of
        Inl e \<Rightarrow> Inl e
      | Inr header \<Rightarrow>
          if slice header 0 4 \<noteq> ''RIFF'' \<or> slice header 8 12 \<noteq> ''WAVE''
          then Inl (Error ''not a WAV file'')
          else
            (case scan_chunks file 12 no_format of
               Inl e \<Rightarrow> Inl e
             | Inr (fmt, dataSize) \<Rightarrow>
                 if sampleRate fmt = 0 \<or> channels fmt = 0 \<or> bitsPerSample fmt = 0
                 then Inl (Error ''missing audio format information'')
                 else
                   let bytesPerSample = (bitsPerSample fmt div 8) * channels fmt
                   in if bytesPerSample = 0 then Inl (Error ''invalid bytes per sample'')
                      else
                        let duration =
                              f64_div (f64_div (f64_of_u32 dataSize) (f64_of_u16 bytesPerSample))
                                (f64_of_u32 (sampleRate fmt))
                        in if math_IsNaN duration \<or> math_IsInf duration
                           then Inl (Error ''invalid duration computed'')
                           else Inr duration))"

subsection \<open>Sample headers\<close>

text \<open>
  The canonical 44-byte header the transcoder writes: one \<open>fmt\<close> chunk of 16 bytes
  (PCM, \<open>ch\<close> channels, 16000 Hz, \<open>bits\<close> bits per sample) and a \<open>data\<close> chunk that
  declares 32000 bytes. The payload is left out: the inspector never reads it.
\<close>

definition riff_magic :: string where
  "riff_magic = ''RIFF'' @ [CHR 0x24, CHR 0x7D, CHR 0x00, CHR 0x00] @ ''WAVE''"

definition fmt_chunk :: "char \<Rightarrow> char \<Rightarrow> string" where
  "fmt_chunk ch bits =
     ''fmt '' @ [CHR 0x10, CHR 0x00, CHR 0x00, CHR 0x00,
                 CHR 0x01, CHR 0x00, ch, CHR 0x00,
                 CHR 0x80, CHR 0x3E, CHR 0x00, CHR 0x00,
                 CHR 0x00, CHR 0x7D, CHR 0x00, CHR 0x00,
                 CHR 0x02, CHR 0x00, bits, CHR 0x00]"

definition data_header :: string where
  "data_header = ''data'' @ [CHR 0x00, CHR 0x7D, CHR 0x00, CHR 0x00]"

definition wav_mono16 :: string where
  "wav_mono16 = riff_magic @ fmt_chunk (CHR 0x01) (CHR 0x10) @ data_header"

definition wav_mono4 :: string where
  "wav_mono4 = riff_magic @ fmt_chunk (CHR 0x01) (CHR 0x04) @ data_header"

text \<open>A \<open>LIST\<close> chunk of odd size 3 (and its pad byte) before the \<open>data\<close> chunk.\<close>

definition wav_list :: string where
  "wav_list = riff_magic @ ''LIST'' @ [CHR 0x03, CHR 0x00, CHR 0x00, CHR 0x00] @ ''abc'' @
     [CHR 0x00] @ data_header"

text \<open>
  What the specification calls a header that parses: the RIFF/WAVE magic, a scan that
  reaches a \<open>data\<close> chunk, and a format whose three fields are nonzero.
\<close>

definition header_parses :: "string \<Rightarrow> wav_format \<Rightarrow> 32 word \<Rightarrow> bool" where
  "header_parses file fmt dataSize \<longleftrightarrow>
     (case read_full file 0 12 of
        Inl e \<Rightarrow> False
      | Inr header \<Rightarrow> slice header 0 4 = ''RIFF'' \<and> slice header 8 12 = ''WAVE'') \<and>
     scan_chunks file 12 no_format = Inr (fmt, dataSize) \<and>
     channels fmt \<noteq> 0 \<and> sampleRate fmt \<noteq> 0 \<and> bitsPerSample fmt \<noteq> 0"

section \<open>The job record (internal/model/job.go)\<close>

text \<open>
  A \<open>time.Time\<close> is modelled by the instant it denotes, in nanoseconds since the Unix
  epoch: that is what \<open>Time.After\<close> and \<open>Time.Equal\<close> compare. The zero \<open>Time\<close> is
  January 1 of year 1.
\<close>

type_synonym go_time = int

definition zero_time :: go_time where
  "zero_time = - 62135596800 * 1000000000"

type_synonym JobStatus = string

definition JobStatusPending :: JobStatus where
  "JobStatusPending = ''pending''"

definition JobStatusProcessing :: JobStatus where
  "JobStatusProcessing = ''processing''"

definition JobStatusCompleted :: JobStatus where
  "JobStatusCompleted = ''completed''"

definition JobStatusFailed :: JobStatus where
  "JobStatusFailed = ''failed''"

record Chunk =
  Index :: go_int
  StartSeconds :: float64
  DurationSeconds :: float64
  AudioFile :: string
  Base64File :: string
  TranscriptFile :: string
  TranscriptPreview :: string

text \<open>
  \<open>Chunks\<close> is a slice: \<open>None\<close> is the nil slice (JSON \<open>null\<close>), \<open>Some []\<close> the empty
  one (JSON \<open>[]\<close>). \<open>CompletedAt\<close> is a pointer.
\<close>

record Job =
  ID :: string
  OriginalFileName :: string
  OriginalVideoPath :: string
  CreatedAt :: go_time
  CompletedAt :: "go_time option"
  ChunkDurationSeconds :: go_int
  TranscriptionRequested :: bool
  Status :: JobStatus
  ErrorMessage :: string
  Chunks :: "Chunk list option"
  ProcessingLog :: string

definition IsDone :: "Job \<Rightarrow> bool" where
  "IsDone j \<longleftrightarrow> Status j = JobStatusCompleted \<or> Status j = JobStatusFailed"

text \<open>The zero values of the two structs.\<close>

definition zero_Chunk :: Chunk where
  "zero_Chunk = \<lparr>Index = 0, StartSeconds = Fin 0, DurationSeconds = Fin 0, AudioFile = [],
     Base64File = [], TranscriptFile = [], TranscriptPreview = []\<rparr>"

definition zero_Job :: Job where
  "zero_Job = \<lparr>ID = [], OriginalFileName = [], OriginalVideoPath = [], CreatedAt = zero_time,
     CompletedAt = None, ChunkDurationSeconds = 0, TranscriptionRequested = False,
     Status = [], ErrorMessage = [], Chunks = None, ProcessingLog = []\<rparr>"

text \<open>The chunk sequence of a job, whichever slice holds it.\<close>

definition chunk_seq :: "Job \<Rightarrow> Chunk list" where
  "chunk_seq j = (case Chunks j of None \<Rightarrow> [] | Some cs \<Rightarrow> cs)"

section \<open>The operating system and the libraries\<close>

text \<open>
  The file system as the program reads it: opening and reading the file at a path
  gives its bytes or an error (\<open>ErrNotExist\<close> for a missing file).
\<close>

type_synonym filesystem = "path \<Rightarrow> error + string"

definition no_such_file :: "path \<Rightarrow> error" where
  "no_such_file p = ErrNotExist (''open '' @ p @ '': no such file or directory'')"

text \<open>
  A JSON document, after parsing. A number is the value of its literal; a string is
  its decoded text.
\<close>

datatype json =
  JNull | JBool bool | JNum rat | JStr string | JArr "json list" | JObj "(string \<times> json) list"

text \<open>
  What the program takes from its environment, and does not define itself: the
  outcome of system calls, the behaviour of the external binaries and the functions
  of the Go library it calls. They are parameters of the model.
  \<^item> \<open>lookPath\<close>, \<open>mkdirAll\<close>, \<open>create_fault\<close>, \<open>rename_fault\<close>: the error of
    \<open>exec.LookPath\<close>, \<open>os.MkdirAll\<close>, opening a file for writing, \<open>os.Rename\<close>, if any;
  \<^item> \<open>write_fault p data\<close>: if writing \<open>data\<close> to \<open>p\<close> (or closing it) fails, the error
    and the bytes left in the file;
  \<^item> \<open>execute name args fs\<close>: running an external command to its end: its combined
    output, the error of \<open>cmd.Run\<close> if any, and the files it leaves;
  \<^item> \<open>glob\<close>, \<open>readDir\<close>, \<open>removeAll\<close>: \<open>filepath.Glob\<close>, \<open>os.ReadDir\<close> (names with
    their \<open>IsDir\<close>), \<open>os.RemoveAll\<close>;
  \<^item> \<open>clock\<close>, \<open>rand_Intn\<close>: the successive results of \<open>time.Now\<close> and \<open>rand.Intn\<close>;
  \<^item> the rest are pure library functions, named after them. \<open>json_text\<close> and
    \<open>json_parse\<close> are the text layer of \<open>encoding/json\<close>; \<open>toValidUTF8\<close> is the
    coercion its encoder applies to strings; \<open>equalFold\<close> its case-insensitive key
    match.
\<close>

record platform =
  lookPath :: "string \<Rightarrow> error option"
  mkdirAll :: "path \<Rightarrow> error option"
  create_fault :: "path \<Rightarrow> error option"
  write_fault :: "path \<Rightarrow> string \<Rightarrow> (error \<times> string) option"
  rename_fault :: "path \<Rightarrow> path \<Rightarrow> error option"
  execute :: "string \<Rightarrow> string list \<Rightarrow> filesystem \<Rightarrow> string \<times> error option \<times> filesystem"
  glob :: "string \<Rightarrow> filesystem \<Rightarrow> error + path list"
  readDir :: "path \<Rightarrow> filesystem \<Rightarrow> error + (string \<times> bool) list"
  removeAll :: "path \<Rightarrow> filesystem \<Rightarrow> error option \<times> filesystem"
  clock :: "nat \<Rightarrow> go_time"
  rand_Intn :: "nat \<Rightarrow> nat \<Rightarrow> nat"
  filepath_Join :: "string list \<Rightarrow> path"
  filepath_Base :: "path \<Rightarrow> string"
  filepath_Ext :: "path \<Rightarrow> string"
  filepath_ToSlash :: "path \<Rightarrow> string"
  base64_EncodeToString :: "string \<Rightarrow> string"
  time_Format :: "go_time \<Rightarrow> string \<Rightarrow> string"
  time_MarshalJSON :: "go_time \<Rightarrow> error + string"
  time_UnmarshalJSON :: "string \<Rightarrow> error + go_time"
  toValidUTF8 :: "string \<Rightarrow> string"
  equalFold :: "string \<Rightarrow> string \<Rightarrow> bool"
  json_text :: "json \<Rightarrow> string"
  json_parse :: "string \<Rightarrow> error + json"
  strconv_Atoi :: "string \<Rightarrow> error + go_int"
  strings_TrimSpace :: "string \<Rightarrow> string"

text \<open>
  The state the program acts on: the files, the external commands run so far (name,
  arguments, captured output), and how many times the clock and the random source
  were read.
\<close>

datatype event = Exec string "string list" string

fun exec_output :: "event \<Rightarrow> string" where
  "exec_output (Exec name args out) = out"

record world =
  files :: filesystem
  history :: "event list"
  ticks :: nat

definition time_Now :: "platform \<Rightarrow> world \<Rightarrow> go_time \<times> world" where
  "time_Now P w = (clock P (ticks w), w\<lparr>ticks := Suc (ticks w)\<rparr>)"

text \<open>\<open>os.WriteFile\<close>, and any create-write-close sequence on one file.\<close>

definition os_WriteFile :: "platform \<Rightarrow> world \<Rightarrow> path \<Rightarrow> string \<Rightarrow> error option \<times> world" where
  "os_WriteFile P w p data =
     (case create_fault P p of
        Some e \<Rightarrow> (Some e, w)
      | None \<Rightarrow>
          (case write_fault P p data of
             Some (e, left) \<Rightarrow> (Some e, w\<lparr>files := (files w)(p := Inr left)\<rparr>)
           | None \<Rightarrow> (None, w\<lparr>files := (files w)(p := Inr data)\<rparr>)))"

text \<open>\<open>os.Rename\<close> of a regular file.\<close>

definition os_Rename :: "platform \<Rightarrow> world \<Rightarrow> path \<Rightarrow> path \<Rightarrow> error option \<times> world" where
  "os_Rename P w old new =
     (case rename_fault P old new of
        Some e \<Rightarrow> (Some e, w)
      | None \<Rightarrow>
          (case files w old of
             Inl e \<Rightarrow> (Some e, w)
           | Inr data \<Rightarrow>
               (None, w\<lparr>files := (files w)(old := Inl (no_such_file old), new := Inr data)\<rparr>)))"

text \<open>Sequencing of fallible steps: the first error ends the computation.\<close>

definition and_then :: "error + 'a \<Rightarrow> ('a \<Rightarrow> error + 'b) \<Rightarrow> error + 'b" where
  "and_then r f = (case r of Inl e \<Rightarrow> Inl e | Inr x \<Rightarrow> f x)"

fun fold_err :: "('a \<Rightarrow> 'b \<Rightarrow> error + 'a) \<Rightarrow> 'b list \<Rightarrow> 'a \<Rightarrow> error + 'a" where
  "fold_err f [] a = Inr a"
| "fold_err f (x # xs) a = and_then (f a x) (fold_err f xs)"

text \<open>\<open>strings.Join\<close>, \<open>strings.TrimSuffix\<close>, \<open>strconv.Itoa\<close>.\<close>

fun strings_Join :: "string list \<Rightarrow> string \<Rightarrow> string" where
  "strings_Join [] sep = []"
| "strings_Join [x] sep = x"
| "strings_Join (x # y # ys) sep = x @ sep @ strings_Join (y # ys) sep"

definition strings_TrimSuffix :: "string \<Rightarrow> string \<Rightarrow> string" where
  "strings_TrimSuffix s suf =
     (if length suf \<le> length s \<and> drop (length s - length suf) s = suf
      then take (length s - length suf) s else s)"

definition digit :: "nat \<Rightarrow> char" where
  "digit n = ''0123456789'' ! n"

fun decimal :: "nat \<Rightarrow> string" where
  "decimal n = (if n < 10 then [digit n] else decimal (n div 10) @ [digit (n mod 10)])"

declare decimal.simps [simp del]

definition strconv_Itoa :: "go_int \<Rightarrow> string" where
  "strconv_Itoa x = (if sint x < 0 then ''-'' @ decimal (nat (- sint x)) else decimal (nat (sint x)))"

section \<open>Persistence (internal/storage/storage.go)\<close>

subsection \<open>\<open>encoding/json\<close> on the two structs\<close>

text \<open>
  The encoder writes a float with \<open>strconv.AppendFloat(b, f, fmt, -1, 64)\<close>: the fewest
  significant digits that read back as the same binary64 value, and of the decimals
  with that many digits the one nearest to the value (the even one on a tie). The number
  in the document is the value of that literal, not the binary value: \<open>0.1\<close> for the
  binary64 next to one tenth.

  \<open>decimal_digits n\<close> is the number of decimal digits of a positive integer, and
  \<open>decade x\<close> is \<open>\<lfloor>log\<^sub>1\<^sub>0 x\<rfloor>\<close> for a positive rational. \<open>shortest_at x n\<close> looks at
  the two decimals of \<open>n\<close> significant digits next to \<open>x\<close>, the one towards zero and
  the one away from it, and keeps what reads back as \<open>x\<close>. The search goes up to
  seventeen digits, which are enough for every binary64 value (lemma
  \<open>seventeen_digits\<close>); the last case of \<open>shortest_search\<close> only makes it total.
\<close>

function decimal_digits :: "int \<Rightarrow> int" where
  "decimal_digits n = (if n \<le> 0 then 0 else 1 + decimal_digits (n div 10))"
  by pat_completeness auto
termination
  by (relation "measure nat") auto

declare decimal_digits.simps [simp del]

definition decade :: "rat \<Rightarrow> int" where
  "decade x =
     (if 1 \<le> x then decimal_digits \<lfloor>x\<rfloor> - 1 else - decimal_digits (\<lceil>1 / x\<rceil> - 1))"

definition shortest_at :: "rat \<Rightarrow> nat \<Rightarrow> rat option" where
  "shortest_at x n =
     (let unit = 10 powi (decade \<bar>x\<bar> + 1 - int n);
          down = of_int \<lfloor>x / unit\<rfloor> * unit;
          up = of_int \<lceil>x / unit\<rceil> * unit;
          okdown = (f64_round down = Fin x);
          okup = (f64_round up = Fin x)
      in if okdown \<and> okup then
           Some (if x - down < up - x then down
                 else if up - x < x - down then up
                 else if even \<lfloor>x / unit\<rfloor> then down else up)
         else if okdown then Some down
         else if okup then Some up
         else None)"

fun shortest_search :: "rat \<Rightarrow> nat list \<Rightarrow> rat" where
  "shortest_search x [] = x"
| "shortest_search x (n # ns) =
     (case shortest_at x n of Some c \<Rightarrow> c | None \<Rightarrow> shortest_search x ns)"

definition shortest_decimal :: "rat \<Rightarrow> rat" where
  "shortest_decimal x = (if x = 0 then 0 else shortest_search x [1..<18])"

text \<open>
  \<open>json.Marshal\<close> of a \<open>Job\<close>, up to the text layer: one member per field, under the
  name of its tag, in declaration order; a field tagged \<open>omitempty\<close> is left out when
  it is empty (the empty string, the nil pointer). A float that is not finite is an
  error; a string is coerced to valid UTF-8; a time is a string in RFC 3339 form.
\<close>

definition marshal_float :: "float64 \<Rightarrow> error + json" where
  "marshal_float f =
     (case f of
        Fin x \<Rightarrow> Inr (JNum (shortest_decimal x))
      | PInf \<Rightarrow> Inl (Error ''json: unsupported value: +Inf'')
      | NInf \<Rightarrow> Inl (Error ''json: unsupported value: -Inf'')
      | NaN \<Rightarrow> Inl (Error ''json: unsupported value: NaN''))"

definition marshal_int :: "go_int \<Rightarrow> json" where
  "marshal_int x = JNum (of_int (sint x))"

definition marshal_string :: "platform \<Rightarrow> string \<Rightarrow> json" where
  "marshal_string P s = JStr (toValidUTF8 P s)"

definition marshal_time :: "platform \<Rightarrow> go_time \<Rightarrow> error + json" where
  "marshal_time P t =
     (case time_MarshalJSON P t of
        Inl e \<Rightarrow> Inl (wrap ''json: error calling MarshalJSON for type time.Time: '' e)
      | Inr s \<Rightarrow> Inr (JStr s))"

definition omitempty :: "platform \<Rightarrow> string \<Rightarrow> string \<Rightarrow> (string \<times> json) list" where
  "omitempty P name s = (if s = [] then [] else [(name, marshal_string P s)])"

definition marshal_Chunk :: "platform \<Rightarrow> Chunk \<Rightarrow> error + json" where
  "marshal_Chunk P c =
     and_then (marshal_float (StartSeconds c)) (\<lambda>start.
     and_then (marshal_float (DurationSeconds c)) (\<lambda>duration.
       Inr (JObj ([(''index'', marshal_int (Index c)),
                   (''startSeconds'', start),
                   (''durationSeconds'', duration),
                   (''audioFile'', marshal_string P (AudioFile c))]
                  @ omitempty P ''base64File'' (Base64File c)
                  @ omitempty P ''transcriptFile'' (TranscriptFile c)
                  @ omitempty P ''transcriptPreview'' (TranscriptPreview c)))))"

fun marshal_list :: "('a \<Rightarrow> error + json) \<Rightarrow> 'a list \<Rightarrow> error + json list" where
  "marshal_list f [] = Inr []"
| "marshal_list f (x # xs) =
     and_then (f x) (\<lambda>v. and_then (marshal_list f xs) (\<lambda>vs. Inr (v # vs)))"

definition marshal_Chunks :: "platform \<Rightarrow> Chunk list option \<Rightarrow> error + json" where
  "marshal_Chunks P cs =
     (case cs of
        None \<Rightarrow> Inr JNull
      | Some xs \<Rightarrow> and_then (marshal_list (marshal_Chunk P) xs) (\<lambda>vs. Inr (JArr vs)))"

definition marshal_Job :: "platform \<Rightarrow> Job \<Rightarrow> error + json" where
  "marshal_Job P j =
     and_then (marshal_time P (CreatedAt j)) (\<lambda>created.
     and_then (case CompletedAt j of
                 None \<Rightarrow> Inr []
               | Some t \<Rightarrow> and_then (marshal_time P t) (\<lambda>v. Inr [(''completedAt'', v)]))
       (\<lambda>completed.
     and_then (marshal_Chunks P (Chunks j)) (\<lambda>chunks.
       Inr (JObj ([(''id'', marshal_string P (ID j)),
                   (''originalFileName'', marshal_string P (OriginalFileName j)),
                   (''originalVideoPath'', marshal_string P (OriginalVideoPath j)),
                   (''createdAt'', created)]
                  @ completed
                  @ [(''chunkDurationSeconds'', marshal_int (ChunkDurationSeconds j)),
                     (''transcriptionRequested'', JBool (TranscriptionRequested j)),
                     (''status'', marshal_string P (Status j))]
                  @ omitempty P ''errorMessage'' (ErrorMessage j)
                  @ [(''chunks'', chunks)]
                  @ omitempty P ''processingLog'' (ProcessingLog j))))))"

text \<open>
  \<open>json.Unmarshal\<close> into a struct, up to the text layer. Each decoder takes the value
  and what the destination holds: \<open>null\<close> leaves a non-pointer destination as it is
  and sets a pointer or a slice to nil; a value of the wrong kind is an error. A
  member is stored in the field whose tag is its key, or else in the first field whose
  tag matches the key without regard to case; other members are skipped; of two
  members for one field the later wins.
\<close>

definition type_error :: "string \<Rightarrow> error" where
  "type_error t = Error (''json: cannot unmarshal value into Go value of type '' @ t)"

fun unmarshal_string :: "json \<Rightarrow> string \<Rightarrow> error + string" where
  "unmarshal_string JNull cur = Inr cur"
| "unmarshal_string (JStr s) cur = Inr s"
| "unmarshal_string _ cur = Inl (type_error ''string'')"

fun unmarshal_bool :: "json \<Rightarrow> bool \<Rightarrow> error + bool" where
  "unmarshal_bool JNull cur = Inr cur"
| "unmarshal_bool (JBool b) cur = Inr b"
| "unmarshal_bool _ cur = Inl (type_error ''bool'')"

fun unmarshal_int :: "json \<Rightarrow> go_int \<Rightarrow> error + go_int" where
  "unmarshal_int JNull cur = Inr cur"
| "unmarshal_int (JNum q) cur =
     (if q = of_int \<lfloor>q\<rfloor> \<and> - (2 ^ 63) \<le> \<lfloor>q\<rfloor> \<and> \<lfloor>q\<rfloor> < 2 ^ 63
      then Inr (word_of_int \<lfloor>q\<rfloor>) else Inl (type_error ''int''))"
| "unmarshal_int _ cur = Inl (type_error ''int'')"

fun unmarshal_float :: "json \<Rightarrow> float64 \<Rightarrow> error + float64" where
  "unmarshal_float JNull cur = Inr cur"
| "unmarshal_float (JNum q) cur =
     (case f64_round q of Fin y \<Rightarrow> Inr (Fin y) | _ \<Rightarrow> Inl (type_error ''float64''))"
| "unmarshal_float _ cur = Inl (type_error ''float64'')"

fun unmarshal_time :: "platform \<Rightarrow> json \<Rightarrow> go_time \<Rightarrow> error + go_time" where
  "unmarshal_time P JNull cur = Inr cur"
| "unmarshal_time P (JStr s) cur = time_UnmarshalJSON P s"
| "unmarshal_time P _ cur = Inl (Error ''Time.UnmarshalJSON: input is not a JSON string'')"

fun unmarshal_time_ptr :: "platform \<Rightarrow> json \<Rightarrow> go_time option \<Rightarrow> error + go_time option" where
  "unmarshal_time_ptr P JNull cur = Inr None"
| "unmarshal_time_ptr P v cur =
     and_then (unmarshal_time P v (case cur of None \<Rightarrow> zero_time | Some t \<Rightarrow> t))
       (\<lambda>t. Inr (Some t))"

definition find_field :: "platform \<Rightarrow> string list \<Rightarrow> string \<Rightarrow> string option" where
  "find_field P names key =
     (if key \<in> set names then Some key else find (\<lambda>n. equalFold P n key) names)"

definition Chunk_tags :: "string list" where
  "Chunk_tags = [''index'', ''startSeconds'', ''durationSeconds'', ''audioFile'', ''base64File'',
     ''transcriptFile'', ''transcriptPreview'']"

definition set_Chunk_field :: "platform \<Rightarrow> Chunk \<Rightarrow> string \<times> json \<Rightarrow> error + Chunk" where
  "set_Chunk_field P c kv =
     (case find_field P Chunk_tags (fst kv) of
        None \<Rightarrow> Inr c
      | Some f \<Rightarrow>
          if f = ''index'' then
            and_then (unmarshal_int (snd kv) (Index c)) (\<lambda>v. Inr (c\<lparr>Index := v\<rparr>))
          else if f = ''startSeconds'' then
            and_then (unmarshal_float (snd kv) (StartSeconds c)) (\<lambda>v. Inr (c\<lparr>StartSeconds := v\<rparr>))
          else if f = ''durationSeconds'' then
            and_then (unmarshal_float (snd kv) (DurationSeconds c))
              (\<lambda>v. Inr (c\<lparr>DurationSeconds := v\<rparr>))
          else if f = ''audioFile'' then
            and_then (unmarshal_string (snd kv) (AudioFile c)) (\<lambda>v. Inr (c\<lparr>AudioFile := v\<rparr>))
          else if f = ''base64File'' then
            and_then (unmarshal_string (snd kv) (Base64File c)) (\<lambda>v. Inr (c\<lparr>Base64File := v\<rparr>))
          else if f = ''transcriptFile'' then
            and_then (unmarshal_string (snd kv) (TranscriptFile c))
              (\<lambda>v. Inr (c\<lparr>TranscriptFile := v\<rparr>))
          else
            and_then (unmarshal_string (snd kv) (TranscriptPreview c))
              (\<lambda>v. Inr (c\<lparr>TranscriptPreview := v\<rparr>)))"

fun unmarshal_Chunk :: "platform \<Rightarrow> json \<Rightarrow> Chunk \<Rightarrow> error + Chunk" where
  "unmarshal_Chunk P JNull cur = Inr cur"
| "unmarshal_Chunk P (JObj members) cur = fold_err (set_Chunk_field P) members cur"
| "unmarshal_Chunk P _ cur = Inl (type_error ''model.Chunk'')"

text \<open>
  An array into a slice: element \<open>i\<close> is decoded into what the slice already holds at
  \<open>i\<close>, or into a zero \<open>Chunk\<close> beyond its length.
\<close>

fun unmarshal_elements :: "platform \<Rightarrow> json list \<Rightarrow> Chunk list \<Rightarrow> error + Chunk list" where
  "unmarshal_elements P [] cur = Inr []"
| "unmarshal_elements P (v # vs) cur =
     and_then (unmarshal_Chunk P v (case cur of [] \<Rightarrow> zero_Chunk | c # _ \<Rightarrow> c)) (\<lambda>c.
     and_then (unmarshal_elements P vs (tl cur)) (\<lambda>cs. Inr (c # cs)))"

fun unmarshal_Chunks :: "platform \<Rightarrow> json \<Rightarrow> Chunk list option \<Rightarrow> error + Chunk list option" where
  "unmarshal_Chunks P JNull cur = Inr None"
| "unmarshal_Chunks P (JArr vs) cur =
     and_then (unmarshal_elements P vs (case cur of None \<Rightarrow> [] | Some cs \<Rightarrow> cs))
       (\<lambda>cs. Inr (Some cs))"
| "unmarshal_Chunks P _ cur = Inl (type_error ''[]model.Chunk'')"

definition Job_tags :: "string list" where
  "Job_tags = [''id'', ''originalFileName'', ''originalVideoPath'', ''createdAt'', ''completedAt'',
     ''chunkDurationSeconds'', ''transcriptionRequested'', ''status'', ''errorMessage'', ''chunks'',
     ''processingLog'']"

definition set_Job_field :: "platform \<Rightarrow> Job \<Rightarrow> string \<times> json \<Rightarrow> error + Job" where
  "set_Job_field P j kv =
     (case find_field P Job_tags (fst kv) of
        None \<Rightarrow> Inr j
      | Some f \<Rightarrow>
          if f = ''id'' then
            and_then (unmarshal_string (snd kv) (ID j)) (\<lambda>v. Inr (j\<lparr>ID := v\<rparr>))
          else if f = ''originalFileName'' then
            and_then (unmarshal_string (snd kv) (OriginalFileName j))
              (\<lambda>v. Inr (j\<lparr>OriginalFileName := v\<rparr>))
          else if f = ''originalVideoPath'' then
            and_then (unmarshal_string (snd kv) (OriginalVideoPath j))
              (\<lambda>v. Inr (j\<lparr>OriginalVideoPath := v\<rparr>))
          else if f = ''createdAt'' then
            and_then (unmarshal_time P (snd kv) (CreatedAt j)) (\<lambda>v. Inr (j\<lparr>CreatedAt := v\<rparr>))
          else if f = ''completedAt'' then
            and_then (unmarshal_time_ptr P (snd kv) (CompletedAt j))
              (\<lambda>v. Inr (j\<lparr>CompletedAt := v\<rparr>))
          else if f = ''chunkDurationSeconds'' then
            and_then (unmarshal_int (snd kv) (ChunkDurationSeconds j))
              (\<lambda>v. Inr (j\<lparr>ChunkDurationSeconds := v\<rparr>))
          else if f = ''transcriptionRequested'' then
            and_then (unmarshal_bool (snd kv) (TranscriptionRequested j))
              (\<lambda>v. Inr (j\<lparr>TranscriptionRequested := v\<rparr>))
          else if f = ''status'' then
            and_then (unmarshal_string (snd kv) (Status j)) (\<lambda>v. Inr (j\<lparr>Status := v\<rparr>))
          else if f = ''errorMessage'' then
            and_then (unmarshal_string (snd kv) (ErrorMessage j))
              (\<lambda>v. Inr (j\<lparr>ErrorMessage := v\<rparr>))
          else if f = ''chunks'' then
            and_then (unmarshal_Chunks P (snd kv) (Chunks j)) (\<lambda>v. Inr (j\<lparr>Chunks := v\<rparr>))
          else
            and_then (unmarshal_string (snd kv) (ProcessingLog j))
              (\<lambda>v. Inr (j\<lparr>ProcessingLog := v\<rparr>)))"

fun unmarshal_Job :: "platform \<Rightarrow> json \<Rightarrow> Job \<Rightarrow> error + Job" where
  "unmarshal_Job P JNull cur = Inr cur"
| "unmarshal_Job P (JObj members) cur = fold_err (set_Job_field P) members cur"
| "unmarshal_Job P _ cur = Inl (type_error ''model.Job'')"

subsection \<open>SaveJob, LoadJob, ListJobs, JobDir, EnsureJobSubdirs\<close>

definition jobFileName :: string where
  "jobFileName = ''job.json''"

definition SaveJob :: "platform \<Rightarrow> world \<Rightarrow> path \<Rightarrow> Job \<Rightarrow> error option \<times> world" where
  "SaveJob P w jobDir job =
     (case mkdirAll P jobDir of
        Some e \<Rightarrow> (Some (wrap ''creating job directory: '' e), w)
      | None \<Rightarrow>
          (case marshal_Job P job of
             Inl e \<Rightarrow> (Some (wrap ''marshalling job data: '' e), w)
           | Inr doc \<Rightarrow>
               let data = json_text P doc;
                   tmp = filepath_Join P [jobDir, jobFileName @ ''.tmp''] in
               (case os_WriteFile P w tmp data of
                  (Some e, w1) \<Rightarrow> (Some (wrap ''writing job temp file: '' e), w1)
                | (None, w1) \<Rightarrow>
                    (case os_Rename P w1 tmp (filepath_Join P [jobDir, jobFileName]) of
                       (Some e, w2) \<Rightarrow> (Some (wrap ''persisting job file: '' e), w2)
                     | (None, w2) \<Rightarrow> (None, w2)))))"

definition LoadJob :: "platform \<Rightarrow> world \<Rightarrow> path \<Rightarrow> error + Job" where
  "LoadJob P w jobDir =
     (case files w (filepath_Join P [jobDir, jobFileName]) of
        Inl e \<Rightarrow> Inl (wrap ''reading job file: '' e)
      | Inr data \<Rightarrow>
          (case and_then (json_parse P data) (\<lambda>doc. unmarshal_Job P doc zero_Job) of
             Inl e \<Rightarrow> Inl (wrap ''unmarshalling job file: '' e)
           | Inr job \<Rightarrow> Inr job))"

text \<open>
  The loop of \<open>ListJobs\<close> over the directory entries: an entry that is not a directory,
  or whose job does not load, is passed over.
\<close>

fun load_entries :: "platform \<Rightarrow> world \<Rightarrow> path \<Rightarrow> (string \<times> bool) list \<Rightarrow> Job list" where
  "load_entries P w jobsRoot [] = []"
| "load_entries P w jobsRoot ((name, isDir) # entries) =
     (if \<not> isDir then load_entries P w jobsRoot entries
      else
        (case LoadJob P w (filepath_Join P [jobsRoot, name]) of
           Inl e \<Rightarrow> load_entries P w jobsRoot entries
         | Inr job \<Rightarrow> job # load_entries P w jobsRoot entries))"

text \<open>
  \<open>sort.Slice\<close> with \<open>jobs[i].CreatedAt.After(jobs[j].CreatedAt)\<close>: descending creation
  time. Go leaves the order of jobs with equal times open; here they keep their order.
\<close>

definition sort_newest_first :: "Job list \<Rightarrow> Job list" where
  "sort_newest_first jobs = sort_key (\<lambda>j. - CreatedAt j) jobs"

definition ListJobs :: "platform \<Rightarrow> world \<Rightarrow> path \<Rightarrow> error + Job list" where
  "ListJobs P w jobsRoot =
     (case readDir P jobsRoot (files w) of
        Inl err \<Rightarrow>
          (case err of
             ErrNotExist m \<Rightarrow> Inr []
           | Error m \<Rightarrow> Inl (wrap ''reading jobs directory: '' err))
      | Inr entries \<Rightarrow> Inr (sort_newest_first (load_entries P w jobsRoot entries)))"

definition JobDir :: "platform \<Rightarrow> path \<Rightarrow> string \<Rightarrow> path" where
  "JobDir P jobsRoot jobID = filepath_Join P [jobsRoot, jobID]"

fun EnsureJobSubdirs :: "platform \<Rightarrow> path \<Rightarrow> string list \<Rightarrow> error option" where
  "EnsureJobSubdirs P jobDir [] = None"
| "EnsureJobSubdirs P jobDir (name # names) =
     (case mkdirAll P (filepath_Join P [jobDir, name]) of
        Some e \<Rightarrow> Some (wrap (''creating subdir '' @ name @ '': '') e)
      | None \<Rightarrow> EnsureJobSubdirs P jobDir names)"

subsection \<open>Notions the properties are stated with\<close>

text \<open>
  A valid \<open>Job\<close> is one the encoder represents as it is: its strings are valid UTF-8
  (the coercion leaves them alone), its floats are finite binary64 values, and its
  times are in the range RFC 3339 can write, so that they read back as the same instant.
\<close>

definition valid_string :: "platform \<Rightarrow> string \<Rightarrow> bool" where
  "valid_string P s \<longleftrightarrow> toValidUTF8 P s = s"

definition valid_float :: "float64 \<Rightarrow> bool" where
  "valid_float f \<longleftrightarrow> (case f of Fin x \<Rightarrow> f64_round x = Fin x | _ \<Rightarrow> False)"

definition valid_time :: "platform \<Rightarrow> go_time \<Rightarrow> bool" where
  "valid_time P t \<longleftrightarrow>
     (case time_MarshalJSON P t of Inl e \<Rightarrow> False | Inr s \<Rightarrow> time_UnmarshalJSON P s = Inr t)"

definition valid_Chunk :: "platform \<Rightarrow> Chunk \<Rightarrow> bool" where
  "valid_Chunk P c \<longleftrightarrow>
     valid_float (StartSeconds c) \<and> valid_float (DurationSeconds c) \<and>
     valid_string P (AudioFile c) \<and> valid_string P (Base64File c) \<and>
     valid_string P (TranscriptFile c) \<and> valid_string P (TranscriptPreview c)"

definition valid_Job :: "platform \<Rightarrow> Job \<Rightarrow> bool" where
  "valid_Job P j \<longleftrightarrow>
     valid_string P (ID j) \<and> valid_string P (OriginalFileName j) \<and>
     valid_string P (OriginalVideoPath j) \<and> valid_string P (Status j) \<and>
     valid_string P (ErrorMessage j) \<and> valid_string P (ProcessingLog j) \<and>
     valid_time P (CreatedAt j) \<and>
     (case CompletedAt j of None \<Rightarrow> True | Some t \<Rightarrow> valid_time P t) \<and>
     list_all (valid_Chunk P) (chunk_seq j)"

text \<open>
  Saving works in a world where the directory can be made, the temporary file written
  and renamed, and the text layer reads back the document it wrote: the same members in
  the same order, each string as it was, each number the value of its literal.
\<close>

definition can_save :: "platform \<Rightarrow> path \<Rightarrow> Job \<Rightarrow> bool" where
  "can_save P jobDir job \<longleftrightarrow>
     mkdirAll P jobDir = None \<and>
     (case marshal_Job P job of
        Inl e \<Rightarrow> False
      | Inr doc \<Rightarrow>
          create_fault P (filepath_Join P [jobDir, jobFileName @ ''.tmp'']) = None \<and>
          write_fault P (filepath_Join P [jobDir, jobFileName @ ''.tmp'']) (json_text P doc) = None \<and>
          rename_fault P (filepath_Join P [jobDir, jobFileName @ ''.tmp''])
            (filepath_Join P [jobDir, jobFileName]) = None \<and>
          json_parse P (json_text P doc) = Inr doc)"

text \<open>The jobs of a listing: those of the entries that are directories and load.\<close>

definition loadable :: "platform \<Rightarrow> world \<Rightarrow> path \<Rightarrow> (string \<times> bool) list \<Rightarrow> Job list" where
  "loadable P w jobsRoot entries =
     concat (map (\<lambda>entry.
        if snd entry
        then (case LoadJob P w (filepath_Join P [jobsRoot, fst entry]) of
                Inl e \<Rightarrow> [] | Inr job \<Rightarrow> [job])
        else []) entries)"

definition newest_first :: "Job list \<Rightarrow> bool" where
  "newest_first jobs \<longleftrightarrow> sorted_wrt (\<lambda>a b. CreatedAt b \<le> CreatedAt a) jobs"

section \<open>The pipeline runner (internal/processor/processor.go)\<close>

record Processor =
  FFmpegBin :: string
  WhisperBin :: string
  WhisperArgs :: "string list"

text \<open>\<open>Options.ChunkDurationSeconds\<close> is \<open>SegmentSeconds\<close> here: \<open>Job\<close> has a field of the same name.\<close>

record Options =
  SegmentSeconds :: go_int
  MakeBase64 :: bool
  Transcribe :: bool

text \<open>\<open>Result.Chunks\<close> is \<open>Result_Chunks\<close> for the same reason.\<close>

record Result =
  Result_Chunks :: "Chunk list option"
  Logs :: "string list"

definition empty_Result :: Result where
  "empty_Result = \<lparr>Result_Chunks = None, Logs = []\<rparr>"

text \<open>
  A \<open>context.Context\<close>, by what the loop asks of it: whether it is done when the
  iteration for chunk \<open>idx\<close> begins, and then which of its two errors \<open>ctx.Err()\<close> is.
\<close>

datatype ctx_error = Canceled | DeadlineExceeded

type_synonym go_context = "nat \<Rightarrow> ctx_error option"

fun ctx_Err :: "ctx_error \<Rightarrow> error" where
  "ctx_Err Canceled = Error ''context canceled''"
| "ctx_Err DeadlineExceeded = Error ''context deadline exceeded''"

definition context_Background :: go_context where
  "context_Background = (\<lambda>idx. None)"

text \<open>
  \<open>runCommand\<close>: the command runs to its end; its combined output is captured whether
  or not it fails.
\<close>

definition runCommand ::
  "platform \<Rightarrow> world \<Rightarrow> string \<Rightarrow> string list \<Rightarrow> (string \<times> error option) \<times> world" where
  "runCommand P w name args =
     (case execute P name args (files w) of
        (out, err, fs) \<Rightarrow>
          ((out, err), w\<lparr>files := fs, history := history w @ [Exec name args out]\<rparr>))"

definition writeBase64File :: "platform \<Rightarrow> world \<Rightarrow> path \<Rightarrow> path \<Rightarrow> error option \<times> world" where
  "writeBase64File P w srcPath dstPath =
     (case files w srcPath of
        Inl e \<Rightarrow> (Some e, w)
      | Inr data \<Rightarrow> os_WriteFile P w dstPath (base64_EncodeToString P data))"

definition wavDuration :: "world \<Rightarrow> path \<Rightarrow> error + float64" where
  "wavDuration w p =
     (case files w p of
        Inl e \<Rightarrow> Inl e
      | Inr bytes \<Rightarrow> wavDuration_file bytes)"

definition readPreview :: "world \<Rightarrow> path \<Rightarrow> nat \<Rightarrow> error + string" where
  "readPreview w p limit =
     (case files w p of
        Inl e \<Rightarrow> Inl e
      | Inr data \<Rightarrow> Inr (if length data \<le> limit then data else take limit data @ ''...''))"

text \<open>
  The transcription step of one chunk: the chunk with its preview, the logs with the
  new entry, and the world after the run. A failed run is recorded in the preview.
\<close>

definition transcribe_chunk ::
  "platform \<Rightarrow> Processor \<Rightarrow> path \<Rightarrow> path \<Rightarrow> Chunk \<Rightarrow> string list \<Rightarrow> world
     \<Rightarrow> Chunk \<times> string list \<times> world" where
  "transcribe_chunk P p transcriptsDir chunkPath chunk logs w =
     (let transcriptPrefix =
            filepath_Join P [transcriptsDir,
              strings_TrimSuffix (filepath_Base P chunkPath) (filepath_Ext P chunkPath)];
          transcriptPath = transcriptPrefix @ ''.txt'';
          args = WhisperArgs p @ [''-f'', chunkPath, ''-otxt'', ''-of'', transcriptPrefix]
      in case runCommand P w (WhisperBin p) args of
           ((transcribeLog, err), w1) \<Rightarrow>
             let logs = logs @ [transcribeLog] in
             (case err of
                Some e \<Rightarrow>
                  (chunk\<lparr>TranscriptPreview := ''transcription failed: '' @ error_text e\<rparr>, logs, w1)
              | None \<Rightarrow>
                  (case readPreview w1 transcriptPath 400 of
                     Inl readErr \<Rightarrow>
                       (chunk\<lparr>TranscriptPreview :=
                           ''unable to read transcript: '' @ error_text readErr\<rparr>, logs, w1)
                   | Inr preview \<Rightarrow>
                       (chunk\<lparr>TranscriptPreview := preview,
                              TranscriptFile := filepath_ToSlash P
                                (filepath_Join P [''transcripts'', filepath_Base P transcriptPath])\<rparr>,
                        logs, w1))))"

text \<open>
  The body of the loop \<open>for idx, chunkPath := range chunkFiles\<close> for one chunk: an
  early return with an error (\<open>Stop\<close>), or the chunk to append, the logs and the world
  after it (\<open>Continue\<close>).
\<close>

datatype step = Stop error world | Continue Chunk "string list" world

definition chunk_step ::
  "platform \<Rightarrow> Processor \<Rightarrow> go_context \<Rightarrow> Options \<Rightarrow> path \<Rightarrow> path \<Rightarrow> bool \<Rightarrow> bool
     \<Rightarrow> nat \<Rightarrow> path \<Rightarrow> string list \<Rightarrow> world \<Rightarrow> step" where
  "chunk_step P p ctx opts base64Dir transcriptsDir makeB64 transcribe idx chunkPath logs w =
     (case ctx idx of
        Some c \<Rightarrow> Stop (ctx_Err c) w
      | None \<Rightarrow>
          (case wavDuration w chunkPath of
             Inl e \<Rightarrow> Stop (wrap ''determining chunk duration: '' e) w
           | Inr duration \<Rightarrow>
               let chunk = \<lparr>Index = of_nat idx,
                            StartSeconds = f64_of_int (of_nat idx * SegmentSeconds opts),
                            DurationSeconds = duration,
                            AudioFile = filepath_ToSlash P
                              (filepath_Join P [''chunks'', filepath_Base P chunkPath]),
                            Base64File = [], TranscriptFile = [], TranscriptPreview = []\<rparr>;
                   baseName = strings_TrimSuffix (filepath_Base P chunkPath)
                                (filepath_Ext P chunkPath) @ ''.b64.txt'';
                   (b64err, w1) = (if makeB64
                      then writeBase64File P w chunkPath (filepath_Join P [base64Dir, baseName])
                      else (None, w))
               in (case b64err of
                     Some e \<Rightarrow> Stop (wrap ''creating base64 dump: '' e) w1
                   | None \<Rightarrow>
                       (let chunk = (if makeB64
                              then chunk\<lparr>Base64File := filepath_ToSlash P
                                     (filepath_Join P [''base64'', baseName])\<rparr>
                              else chunk);
                            (chunk, logs, w2) = (if transcribe
                              then transcribe_chunk P p transcriptsDir chunkPath chunk logs w1
                              else (chunk, logs, w1))
                        in Continue chunk logs w2))))"

text \<open>The chunk an iteration produced, if it did.\<close>

fun step_chunk :: "step \<Rightarrow> Chunk option" where
  "step_chunk (Stop e w) = None"
| "step_chunk (Continue chunk logs w) = Some chunk"

text \<open>
  The loop from index \<open>idx\<close> on, with the chunks and the logs accumulated so far. An
  early return gives the logs and no chunks: \<open>Result{Logs: logs}\<close>.
\<close>

fun process_chunks ::
  "platform \<Rightarrow> Processor \<Rightarrow> go_context \<Rightarrow> Options \<Rightarrow> path \<Rightarrow> path \<Rightarrow> bool \<Rightarrow> bool
     \<Rightarrow> nat \<Rightarrow> path list \<Rightarrow> Chunk list \<Rightarrow> string list \<Rightarrow> world
     \<Rightarrow> (Result \<times> error option) \<times> world" where
  "process_chunks P p ctx opts base64Dir transcriptsDir makeB64 transcribe idx [] chunks logs w =
     ((\<lparr>Result_Chunks = Some chunks, Logs = logs\<rparr>, None), w)"
| "process_chunks P p ctx opts base64Dir transcriptsDir makeB64 transcribe idx (chunkPath # rest)
     chunks logs w =
     (case chunk_step P p ctx opts base64Dir transcriptsDir makeB64 transcribe idx chunkPath logs w of
        Stop e w1 \<Rightarrow> ((\<lparr>Result_Chunks = None, Logs = logs\<rparr>, Some e), w1)
      | Continue chunk logs w2 \<Rightarrow>
          process_chunks P p ctx opts base64Dir transcriptsDir makeB64 transcribe
            (Suc idx) rest (chunks @ [chunk]) logs w2)"

text \<open>The first loop of \<open>Process\<close>: \<open>os.MkdirAll\<close> on each directory, stopping at an error.\<close>

fun make_dirs :: "platform \<Rightarrow> path list \<Rightarrow> error option" where
  "make_dirs P [] = None"
| "make_dirs P (dir # dirs) =
     (case mkdirAll P dir of Some e \<Rightarrow> Some e | None \<Rightarrow> make_dirs P dirs)"

text \<open>The transcoder and its arguments, and the pattern its output is found by.\<close>

definition ffmpeg_bin :: "Processor \<Rightarrow> string" where
  "ffmpeg_bin p = (if FFmpegBin p = [] then ''ffmpeg'' else FFmpegBin p)"

definition ffmpeg_args :: "platform \<Rightarrow> path \<Rightarrow> path \<Rightarrow> Options \<Rightarrow> string list" where
  "ffmpeg_args P jobDir inputPath opts =
     (let chunksDir = filepath_Join P [jobDir, ''chunks''];
          chunkPattern = filepath_Join P [chunksDir, ''chunk_%03d.wav'']
      in [''-y'', ''-i'', inputPath, ''-vn'', ''-acodec'', ''pcm_s16le'',
          ''-ar'', ''16000'', ''-ac'', ''1'', ''-f'', ''segment'',
          ''-segment_time'', strconv_Itoa (SegmentSeconds opts),
          ''-reset_timestamps'', ''1'', chunkPattern])"

definition globPattern :: "platform \<Rightarrow> path \<Rightarrow> string" where
  "globPattern P jobDir = filepath_Join P [filepath_Join P [jobDir, ''chunks''], ''chunk_*.wav'']"

definition Process ::
  "platform \<Rightarrow> Processor \<Rightarrow> go_context \<Rightarrow> world \<Rightarrow> path \<Rightarrow> path \<Rightarrow> Options
     \<Rightarrow> (Result \<times> error option) \<times> world" where
  "Process P p ctx w jobDir inputPath opts =
     (let ffmpeg = ffmpeg_bin p in
      (case lookPath P ffmpeg of
        Some e \<Rightarrow> ((empty_Result, Some (wrap ''ffmpeg binary not found: '' e)), w)
      | None \<Rightarrow>
          (let chunksDir = filepath_Join P [jobDir, ''chunks''];
               base64Dir = filepath_Join P [jobDir, ''base64''];
               transcriptsDir = filepath_Join P [jobDir, ''transcripts'']
          in (case make_dirs P [chunksDir, base64Dir, transcriptsDir] of
               Some e \<Rightarrow> ((empty_Result, Some (wrap ''creating processing directory: '' e)), w)
             | None \<Rightarrow>
                 (case runCommand P w ffmpeg (ffmpeg_args P jobDir inputPath opts) of
                    ((logEntry, err), w1) \<Rightarrow>
                      (let logs = [logEntry] in
                       (case err of
                          Some e \<Rightarrow>
                            ((\<lparr>Result_Chunks = None, Logs = logs\<rparr>,
                              Some (wrap ''running ffmpeg: '' e)), w1)
                        | None \<Rightarrow>
                            (case glob P (globPattern P jobDir) (files w1) of
                               Inl e \<Rightarrow>
                                 ((\<lparr>Result_Chunks = None, Logs = logs\<rparr>,
                                   Some (wrap ''locating chunks: '' e)), w1)
                             | Inr found \<Rightarrow>
                                 (let chunkFiles = sort found in
                                  if chunkFiles = [] then
                                    ((\<lparr>Result_Chunks = None, Logs = logs\<rparr>,
                                      Some (Error ''no audio chunks produced'')), w1)
                                  else
                                    process_chunks P p ctx opts base64Dir transcriptsDir
                                      (MakeBase64 opts) (Transcribe opts \<and> WhisperBin p \<noteq> [])
                                      0 chunkFiles [] logs w1)))))))))"

text \<open>
  The chunk files a run discovers: what the glob finds once the transcoder has run (in
  the order the glob lists them, before sorting).
\<close>

definition discovered_chunks ::
  "platform \<Rightarrow> Processor \<Rightarrow> world \<Rightarrow> path \<Rightarrow> path \<Rightarrow> Options \<Rightarrow> error + path list" where
  "discovered_chunks P p w jobDir inputPath opts =
     (case runCommand P w (ffmpeg_bin p) (ffmpeg_args P jobDir inputPath opts) of
        (r, w1) \<Rightarrow> glob P (globPattern P jobDir) (files w1))"

section \<open>The job lifecycle coordinator (cmd/server/main.go)\<close>

text \<open>The server, without its templates; \<open>jobsInFlight\<close> is the in-flight registry.\<close>

record server =
  jobsDir :: path
  processor :: Processor
  defaultChunk :: go_int
  makeBase64 :: bool
  jobsInFlight :: "string \<rightharpoonup> Job"

text \<open>
  The first three assignments of \<open>processJob\<close>, and the assignments of its two
  branches after the pipeline has returned.
\<close>

definition begin_processing :: "Job \<Rightarrow> Job" where
  "begin_processing job = job\<lparr>Status := JobStatusProcessing, ErrorMessage := [], ProcessingLog := []\<rparr>"

definition log_delimiter :: string where
  "log_delimiter = [CHR 0x0A] @ ''---'' @ [CHR 0x0A]"

definition finish_processing :: "Job \<Rightarrow> Result \<Rightarrow> error option \<Rightarrow> go_time \<Rightarrow> Job" where
  "finish_processing job result err completed =
     (case err of
        Some e \<Rightarrow>
          job\<lparr>Status := JobStatusFailed,
              ErrorMessage := error_text e,
              Chunks := Result_Chunks result,
              ProcessingLog := strings_Join (Logs result @ [error_text e]) log_delimiter,
              CompletedAt := Some completed\<rparr>
      | None \<Rightarrow>
          job\<lparr>Status := JobStatusCompleted,
              ErrorMessage := [],
              Chunks := Result_Chunks result,
              ProcessingLog := strings_Join (Logs result) log_delimiter,
              CompletedAt := Some completed\<rparr>)"

text \<open>
  \<open>processJob\<close>: a failed save is only logged. It returns the job as it stands at the
  end, the server with the job out of the registry, and the world.
\<close>

definition processJob ::
  "platform \<Rightarrow> server \<Rightarrow> world \<Rightarrow> Job \<Rightarrow> path \<Rightarrow> path \<Rightarrow> Options \<Rightarrow> Job \<times> server \<times> world" where
  "processJob P s w job jobDir originalPath opts =
     (let job = begin_processing job;
          (saveErr, w1) = SaveJob P w jobDir job;
          ((result, err), w2) = Process P (processor s) context_Background w1 jobDir originalPath opts;
          (completed, w3) = time_Now P w2;
          job = finish_processing job result err completed;
          (saveErr, w4) = SaveJob P w3 jobDir job
      in (job, s\<lparr>jobsInFlight := (jobsInFlight s)(ID job := None)\<rparr>, w4))"

text \<open>Requests and responses, as far as the two handlers read and write them.\<close>

record request =
  Method :: string
  form_fault :: "error option"
  form_file :: "(string \<times> string) option"
  form_value :: "string \<Rightarrow> string"

datatype response = Redirect string nat | HttpError string nat

text \<open>\<open>url.QueryEscape\<close>\<close>

definition upperhex :: "nat \<Rightarrow> char" where
  "upperhex n = ''0123456789ABCDEF'' ! n"

definition unreserved :: "char \<Rightarrow> bool" where
  "unreserved c \<longleftrightarrow>
     (let n = (of_char c :: nat)
      in (97 \<le> n \<and> n \<le> 122) \<or> (65 \<le> n \<and> n \<le> 90) \<or> (48 \<le> n \<and> n \<le> 57) \<or>
         c = CHR ''-'' \<or> c = CHR ''_'' \<or> c = CHR ''.'' \<or> c = CHR ''~'')"

fun url_QueryEscape :: "string \<Rightarrow> string" where
  "url_QueryEscape [] = []"
| "url_QueryEscape (c # cs) =
     (if unreserved c then [c]
      else if c = CHR '' '' then ''+''
      else [CHR ''%'', upperhex (of_char c div 16), upperhex (of_char c mod 16)])
     @ url_QueryEscape cs"

definition StatusSeeOther :: nat where
  "StatusSeeOther = 303"

definition handleJobDelete ::
  "platform \<Rightarrow> server \<Rightarrow> world \<Rightarrow> request \<Rightarrow> string \<Rightarrow> response \<times> world" where
  "handleJobDelete P s w r jobID =
     (if Method r \<noteq> ''POST'' then (HttpError ''method not allowed'' 405, w)
      else if jobsInFlight s jobID \<noteq> None then
        (Redirect (''/?error='' @ url_QueryEscape ''Unable to delete while processing'')
           StatusSeeOther, w)
      else
        (case removeAll P (JobDir P (jobsDir s) jobID) (files w) of
           (Some e, fs) \<Rightarrow>
             (Redirect (''/?error='' @ url_QueryEscape ''Failed to delete job'') StatusSeeOther,
              w\<lparr>files := fs\<rparr>)
         | (None, fs) \<Rightarrow>
             (Redirect (''/?flash='' @ url_QueryEscape ''Job deleted'') StatusSeeOther,
              w\<lparr>files := fs\<rparr>)))"

text \<open>\<open>chunkUnits\<close> and \<open>multiplierForUnit\<close>\<close>

definition chunkUnits :: "(string \<times> string \<times> go_int) list" where
  "chunkUnits = [(''Seconds'', ''seconds'', 1), (''Minutes'', ''minutes'', 60),
     (''Hours'', ''hours'', 3600)]"

fun multiplier_in :: "(string \<times> string \<times> go_int) list \<Rightarrow> string \<Rightarrow> go_int" where
  "multiplier_in [] unit = 0"
| "multiplier_in ((label, val, multiplier) # opts) unit =
     (if val = unit then multiplier else multiplier_in opts unit)"

definition multiplierForUnit :: "string \<Rightarrow> go_int" where
  "multiplierForUnit unit = multiplier_in chunkUnits unit"

definition resolveChunkDuration :: "platform \<Rightarrow> request \<Rightarrow> go_int \<Rightarrow> go_int" where
  "resolveChunkDuration P r fallback =
     (let valueStr = strings_TrimSpace P (form_value r ''chunk_value'');
          unit = strings_TrimSpace P (form_value r ''chunk_unit'');
          fromValue =
            (if valueStr \<noteq> [] then
               (case strconv_Atoi P valueStr of
                  Inl e \<Rightarrow> None
                | Inr val \<Rightarrow>
                    if 0 < sint val \<and> 0 < sint (multiplierForUnit unit)
                       \<and> 0 < sint (val * multiplierForUnit unit)
                    then Some (val * multiplierForUnit unit) else None)
             else None)
      in (case fromValue of
            Some seconds \<Rightarrow> seconds
          | None \<Rightarrow>
              (let legacy = strings_TrimSpace P (form_value r ''chunk_duration'') in
               if legacy \<noteq> [] then
                 (case strconv_Atoi P legacy of
                    Inl e \<Rightarrow> fallback
                  | Inr sec \<Rightarrow> if 0 < sint sec then sec else fallback)
               else fallback)))"

text \<open>\<open>newJobID\<close>: a timestamp and four random digits.\<close>

definition pad4 :: "nat \<Rightarrow> string" where
  "pad4 n = replicate (4 - length (decimal n)) (CHR ''0'') @ decimal n"

definition newJobID :: "platform \<Rightarrow> world \<Rightarrow> string \<times> world" where
  "newJobID P w =
     (case time_Now P w of
        (now, w1) \<Rightarrow>
          (time_Format P now ''20060102-150405'' @ ''-'' @ pad4 (rand_Intn P (ticks w1) 10000),
           w1\<lparr>ticks := Suc (ticks w1)\<rparr>))"

text \<open>
  \<open>handleUpload\<close>. Besides the response it returns the background task it starts with
  \<open>go s.processJob(...)\<close>, if it gets that far: the job and the arguments of the call.
  A failed copy and a failed close of the uploaded file are one fault here.
\<close>

type_synonym task = "Job \<times> path \<times> path \<times> Options"

definition handleUpload ::
  "platform \<Rightarrow> server \<Rightarrow> world \<Rightarrow> request \<Rightarrow> response \<times> server \<times> world \<times> task option" where
  "handleUpload P s w r =
     (if Method r \<noteq> ''POST'' then (Redirect ''/'' StatusSeeOther, s, w, None)
      else (case form_fault r of
        Some e \<Rightarrow> (HttpError (''failed to parse form: '' @ error_text e) 400, s, w, None)
      | None \<Rightarrow>
      (case form_file r of
        None \<Rightarrow> (HttpError ''video field is required'' 400, s, w, None)
      | Some (filename, content) \<Rightarrow>
          (let chunkDuration = resolveChunkDuration P r (defaultChunk s);
              transcribe = (form_value r ''transcribe'' = ''on'');
              (jobID, w1) = newJobID P w;
              jobDir = JobDir P (jobsDir s) jobID
          in (case EnsureJobSubdirs P jobDir [''original'', ''chunks'', ''base64'', ''transcripts''] of
               Some e \<Rightarrow>
                 (HttpError (''failed to prepare job directories: '' @ error_text e) 500, s, w1, None)
             | None \<Rightarrow>
                 (let originalPath = filepath_Join P [jobDir, ''original'', filename] in
                 (case create_fault P originalPath of
                    Some e \<Rightarrow>
                      (HttpError (''failed to create file: '' @ error_text e) 500, s, w1, None)
                  | None \<Rightarrow>
                 (case os_WriteFile P w1 originalPath content of
                    (Some e, w2) \<Rightarrow>
                      (HttpError (''failed to save upload: '' @ error_text e) 500, s, w2, None)
                  | (None, w2) \<Rightarrow>
                      (let (now, w3) = time_Now P w2;
                          job = \<lparr>ID = jobID,
                                 OriginalFileName = filename,
                                 OriginalVideoPath = filepath_ToSlash P
                                   (filepath_Join P [''original'', filename]),
                                 CreatedAt = now,
                                 CompletedAt = None,
                                 ChunkDurationSeconds = chunkDuration,
                                 TranscriptionRequested = transcribe,
                                 Status = JobStatusPending,
                                 ErrorMessage = [],
                                 Chunks = None,
                                 ProcessingLog = []\<rparr>
                      in (case SaveJob P w3 jobDir job of
                           (Some e, w4) \<Rightarrow>
                             (HttpError (''failed to persist job metadata: '' @ error_text e) 500,
                              s, w4, None)
                         | (None, w4) \<Rightarrow>
                             (Redirect (''/jobs/'' @ jobID) StatusSeeOther,
                              s\<lparr>jobsInFlight := (jobsInFlight s)(jobID \<mapsto> job)\<rparr>, w4,
                              Some (job, jobDir, originalPath,
                                    \<lparr>SegmentSeconds = chunkDuration,
                                     MakeBase64 = makeBase64 s,
                                     Transcribe = transcribe\<rparr>))))))))))))"

subsection \<open>Notions the properties are stated with\<close>

text \<open>The invariant of the data model: a completion time exactly in a terminal state, an
  error message only in \<open>failed\<close>.\<close>

definition job_invariant :: "Job \<Rightarrow> bool" where
  "job_invariant j \<longleftrightarrow>
     (CompletedAt j \<noteq> None \<longleftrightarrow> IsDone j) \<and>
     (ErrorMessage j \<noteq> [] \<longrightarrow> Status j = JobStatusFailed)"

text \<open>What the pipeline returns inside \<open>processJob\<close>: the run starts in the world the
  first save leaves.\<close>

definition pipeline_outcome ::
  "platform \<Rightarrow> server \<Rightarrow> world \<Rightarrow> Job \<Rightarrow> path \<Rightarrow> path \<Rightarrow> Options \<Rightarrow> Result \<times> error option" where
  "pipeline_outcome P s w job jobDir originalPath opts =
     fst (Process P (processor s) context_Background
            (snd (SaveJob P w jobDir (begin_processing job))) jobDir originalPath opts)"

text \<open>The commands a step of the program has run: what it added to the history.\<close>

definition new_events :: "world \<Rightarrow> world \<Rightarrow> event list" where
  "new_events w w' = drop (length (history w)) (history w')"

text \<open>The \<open>Busy\<close> signal of a deletion: the redirect that carries the refusal.\<close>

definition Busy :: response where
  "Busy = Redirect ''/?error=Unable+to+delete+while+processing'' StatusSeeOther"

section \<open>A sample environment\<close>

text \<open>
  One concrete environment, to run the model on: Unix paths, a transcoder that writes
  two segments, a transcription binary that writes a transcript next to the prefix it
  is given, and stand-ins for the library functions. The second segment is a
  parameter, so that the same environment gives a run that succeeds and one that
  fails at the second chunk.
\<close>

definition demo_join :: "string list \<Rightarrow> path" where
  "demo_join parts = strings_Join parts ''/''"

definition demo_base :: "path \<Rightarrow> string" where
  "demo_base p = rev (takeWhile (\<lambda>c. c \<noteq> CHR ''/'') (rev p))"

definition demo_ext :: "path \<Rightarrow> string" where
  "demo_ext p =
     (if CHR ''.'' \<in> set (demo_base p)
      then CHR ''.'' # rev (takeWhile (\<lambda>c. c \<noteq> CHR ''.'') (rev p)) else [])"

text \<open>
  The transcoder writes two segments where the pattern that ends its arguments says;
  any other command is the transcription binary.
\<close>

definition demo_execute ::
  "string \<Rightarrow> string \<Rightarrow> string list \<Rightarrow> filesystem \<Rightarrow> string \<times> error option \<times> filesystem" where
  "demo_execute second name args fs =
     (if name = ''ffmpeg'' then
        (''ffmpeg: 2 segments'', None,
         fs(strings_TrimSuffix (last args) ''chunk_%03d.wav'' @ ''chunk_000.wav'' := Inr wav_mono16,
            strings_TrimSuffix (last args) ''chunk_%03d.wav'' @ ''chunk_001.wav'' := Inr second))
      else (''whisper: done'', None, fs(last args @ ''.txt'' := Inr ''hello'')))"

text \<open>The glob lists the second segment first: it promises no order.\<close>

definition demo_glob :: "string \<Rightarrow> filesystem \<Rightarrow> error + path list" where
  "demo_glob pattern fs =
     Inr (filter (\<lambda>p. \<not> isl (fs p))
            [strings_TrimSuffix pattern ''chunk_*.wav'' @ ''chunk_001.wav'',
             strings_TrimSuffix pattern ''chunk_*.wav'' @ ''chunk_000.wav''])"

definition demo_readDir :: "path \<Rightarrow> filesystem \<Rightarrow> error + (string \<times> bool) list" where
  "demo_readDir dir fs =
     (if dir = ''jobs''
      then Inr [(''j1'', True), (''j2'', True), (''junk'', True), (''notes.txt'', False)]
      else Inl (no_such_file dir))"

definition demo_parse_time :: "string \<Rightarrow> error + go_time" where
  "demo_parse_time s =
     (if s \<noteq> [] \<and> list_all (\<lambda>c. CHR ''0'' \<le> c \<and> c \<le> CHR ''9'') s
      then Inr (foldl (\<lambda>n c. 10 * n + (of_char c - 48)) 0 s)
      else Inl (Error ''parsing time''))"

text \<open>The job documents the sample text layer knows, by their text.\<close>

definition demo_parse :: "(string \<times> json) list \<Rightarrow> string \<Rightarrow> error + json" where
  "demo_parse docs s =
     (case map_of docs s of
        None \<Rightarrow> Inl (Error ''invalid character looking for beginning of value'')
      | Some doc \<Rightarrow> Inr doc)"

definition demo_text :: "(string \<times> json) list \<Rightarrow> json \<Rightarrow> string" where
  "demo_text docs doc =
     (case find (\<lambda>kv. snd kv = doc) docs of None \<Rightarrow> ''{}'' | Some kv \<Rightarrow> fst kv)"

definition demo_platform :: "string \<Rightarrow> (string \<times> json) list \<Rightarrow> platform" where
  "demo_platform second docs =
     \<lparr>lookPath = (\<lambda>name. None),
      mkdirAll = (\<lambda>p. None),
      create_fault = (\<lambda>p. None),
      write_fault = (\<lambda>p data. None),
      rename_fault = (\<lambda>old new. None),
      execute = demo_execute second,
      glob = demo_glob,
      readDir = demo_readDir,
      removeAll = (\<lambda>p fs. (None, fs)),
      clock = (\<lambda>n. 5 + int n),
      rand_Intn = (\<lambda>n k. 7),
      filepath_Join = demo_join,
      filepath_Base = demo_base,
      filepath_Ext = demo_ext,
      filepath_ToSlash = (\<lambda>p. p),
      base64_EncodeToString = (\<lambda>s. ''UklGRg==''),
      time_Format = (\<lambda>t layout. decimal (nat t)),
      time_MarshalJSON = (\<lambda>t. Inr (decimal (nat t))),
      time_UnmarshalJSON = demo_parse_time,
      toValidUTF8 = (\<lambda>s. s),
      equalFold = (\<lambda>a b. a = b),
      json_text = demo_text docs,
      json_parse = demo_parse docs,
      strconv_Atoi = (\<lambda>s. Inl (Error ''strconv.Atoi: invalid syntax'')),
      strings_TrimSpace = (\<lambda>s. s)\<rparr>"

definition demo_world :: world where
  "demo_world = \<lparr>files = (\<lambda>p. Inl (no_such_file p)), history = [], ticks = 0\<rparr>"

definition demo_processor :: Processor where
  "demo_processor = \<lparr>FFmpegBin = [], WhisperBin = ''whisper'', WhisperArgs = [''-m'', ''base.en'']\<rparr>"

definition demo_options :: Options where
  "demo_options = \<lparr>SegmentSeconds = 300, MakeBase64 = True, Transcribe = True\<rparr>"

text \<open>A run of the pipeline in the sample environment, by its second segment.\<close>

definition demo_run :: "string \<Rightarrow> (Result \<times> error option) \<times> world" where
  "demo_run second =
     Process (demo_platform second []) demo_processor context_Background demo_world
       ''jobs/5-0007'' ''jobs/5-0007/original/talk.mp4'' demo_options"

definition demo_chunk0 :: Chunk where
  "demo_chunk0 = \<lparr>Index = 0, StartSeconds = Fin 0, DurationSeconds = Fin 1,
     AudioFile = ''chunks/chunk_000.wav'', Base64File = ''base64/chunk_000.b64.txt'',
     TranscriptFile = ''transcripts/chunk_000.txt'', TranscriptPreview = ''hello''\<rparr>"

definition demo_chunk1 :: Chunk where
  "demo_chunk1 = \<lparr>Index = 1, StartSeconds = Fin 300, DurationSeconds = Fin 1,
     AudioFile = ''chunks/chunk_001.wav'', Base64File = ''base64/chunk_001.b64.txt'',
     TranscriptFile = ''transcripts/chunk_001.txt'', TranscriptPreview = ''hello''\<rparr>"

text \<open>An upload, and the server that receives it.\<close>

definition demo_server :: server where
  "demo_server = \<lparr>jobsDir = ''jobs'', processor = demo_processor, defaultChunk = 300,
     makeBase64 = True, jobsInFlight = Map.empty\<rparr>"

definition demo_request :: request where
  "demo_request = \<lparr>Method = ''POST'', form_fault = None,
     form_file = Some (''talk.mp4'', ''video''),
     form_value = (\<lambda>k. if k = ''transcribe'' then ''on'' else [])\<rparr>"

definition demo_job :: Job where
  "demo_job = \<lparr>ID = ''5-0007'', OriginalFileName = ''talk.mp4'',
     OriginalVideoPath = ''original/talk.mp4'', CreatedAt = 7, CompletedAt = None,
     ChunkDurationSeconds = 300, TranscriptionRequested = True, Status = JobStatusPending,
     ErrorMessage = [], Chunks = None, ProcessingLog = []\<rparr>"

text \<open>The background task of that upload, in the sample environment.\<close>

definition demo_processJob :: "string \<Rightarrow> Job \<times> server \<times> world" where
  "demo_processJob second =
     processJob (demo_platform second []) demo_server (demo_world\<lparr>ticks := 3\<rparr>) demo_job
       ''jobs/5-0007'' ''jobs/5-0007/original/talk.mp4'' demo_options"

text \<open>The job that task ends with when the second segment is just \<open>RIFF\<close>.\<close>

definition demo_failed_job :: Job where
  "demo_failed_job = \<lparr>ID = ''5-0007'', OriginalFileName = ''talk.mp4'',
     OriginalVideoPath = ''original/talk.mp4'', CreatedAt = 7, CompletedAt = Some 8,
     ChunkDurationSeconds = 300, TranscriptionRequested = True, Status = JobStatusFailed,
     ErrorMessage = ''determining chunk duration: unexpected EOF'', Chunks = None,
     ProcessingLog = strings_Join [''ffmpeg: 2 segments'', ''whisper: done'',
       ''determining chunk duration: unexpected EOF''] log_delimiter\<rparr>"

text \<open>The world in which the loop of that run starts: after the first save and the
  transcoder.\<close>

definition demo_loop_world :: "string \<Rightarrow> world" where
  "demo_loop_world second =
     snd (runCommand (demo_platform second [])
            (snd (SaveJob (demo_platform second []) (demo_world\<lparr>ticks := 3\<rparr>) ''jobs/5-0007''
                    (begin_processing demo_job)))
            (ffmpeg_bin demo_processor)
            (ffmpeg_args (demo_platform second []) ''jobs/5-0007''
               ''jobs/5-0007/original/talk.mp4'' demo_options))"

text \<open>The server while that task runs.\<close>

definition demo_busy_server :: server where
  "demo_busy_server = demo_server\<lparr>jobsInFlight := [''5-0007'' \<mapsto> demo_job]\<rparr>"

text \<open>
  A finished job with two chunks, the second a tenth of a second long (1600 samples at
  16 kHz, the binary64 next to one tenth), and the document \<open>json.Marshal\<close> makes of it.
\<close>

definition demo_short_chunk :: Chunk where
  "demo_short_chunk = demo_chunk1\<lparr>DurationSeconds := Fin (3602879701896397 / 36028797018963968)\<rparr>"

definition demo_done_job :: Job where
  "demo_done_job = \<lparr>ID = ''5-0007'', OriginalFileName = ''talk.mp4'',
     OriginalVideoPath = ''original/talk.mp4'', CreatedAt = 7, CompletedAt = Some 8,
     ChunkDurationSeconds = 300, TranscriptionRequested = True, Status = JobStatusCompleted,
     ErrorMessage = [], Chunks = Some [demo_chunk0, demo_short_chunk],
     ProcessingLog = ''ffmpeg: 2 segments''\<rparr>"

definition demo_chunk_doc :: "rat \<Rightarrow> rat \<Rightarrow> rat \<Rightarrow> string \<Rightarrow> json" where
  "demo_chunk_doc i start duration name =
     JObj [(''index'', JNum i), (''startSeconds'', JNum start), (''durationSeconds'', JNum duration),
           (''audioFile'', JStr (''chunks/'' @ name @ ''.wav'')),
           (''base64File'', JStr (''base64/'' @ name @ ''.b64.txt'')),
           (''transcriptFile'', JStr (''transcripts/'' @ name @ ''.txt'')),
           (''transcriptPreview'', JStr ''hello'')]"

definition demo_done_doc :: json where
  "demo_done_doc =
     JObj [(''id'', JStr ''5-0007''), (''originalFileName'', JStr ''talk.mp4''),
           (''originalVideoPath'', JStr ''original/talk.mp4''), (''createdAt'', JStr ''7''),
           (''completedAt'', JStr ''8''), (''chunkDurationSeconds'', JNum 300),
           (''transcriptionRequested'', JBool True), (''status'', JStr ''completed''),
           (''chunks'', JArr [demo_chunk_doc 0 0 1 ''chunk_000'',
                              demo_chunk_doc 1 300 (1 / 10) ''chunk_001'']),
           (''processingLog'', JStr ''ffmpeg: 2 segments'')]"

definition demo_store :: platform where
  "demo_store = demo_platform wav_mono16 [(''{\"id\":\"5-0007\"}'', demo_done_doc)]"

text \<open>
  A jobs root with two jobs, a directory whose \<open>job.json\<close> does not parse, and a file.
\<close>

definition demo_listed :: "string \<Rightarrow> go_time \<Rightarrow> Job" where
  "demo_listed name t = zero_Job\<lparr>ID := name, CreatedAt := t\<rparr>"

definition demo_shelf :: platform where
  "demo_shelf = demo_platform wav_mono16
     [(''one'', JObj [(''id'', JStr ''j1''), (''createdAt'', JStr ''3'')]),
      (''two'', JObj [(''id'', JStr ''j2''), (''createdAt'', JStr ''9'')])]"

definition demo_shelf_world :: world where
  "demo_shelf_world =
     \<lparr>files = (\<lambda>p. if p = ''jobs/j1/job.json'' then Inr ''one''
                   else if p = ''jobs/j2/job.json'' then Inr ''two''
                   else if p = ''jobs/junk/job.json'' then Inr ''not json''
                   else Inl (no_such_file p)),
      history = [], ticks = 0\<rparr>"

text \<open>A run asked for segments of \<open>2^53 + 1\<close> seconds.\<close>

definition demo_long_options :: Options where
  "demo_long_options = demo_options\<lparr>SegmentSeconds := 9007199254740993\<rparr>"

definition demo_long_run :: "(Result \<times> error option) \<times> world" where
  "demo_long_run =
     Process (demo_platform wav_mono16 []) demo_processor context_Background demo_world
       ''jobs/5-0007'' ''jobs/5-0007/original/talk.mp4'' demo_long_options"

section \<open>Properties of the float64 model\<close>

lemma round_half_even_le:
  assumes "q \<le> of_int K" shows "round_half_even q \<le> K"
proof -
  have f: "\<lfloor>q\<rfloor> \<le> K" using assms by (simp add: floor_le_iff)
  show ?thesis
  proof (cases "\<lfloor>q\<rfloor> = K")
    case True
    then have "q - of_int \<lfloor>q\<rfloor> \<le> 0" using assms by simp
    then show ?thesis using True by (simp add: round_half_even_def Let_def)
  next
    case False
    then have "\<lfloor>q\<rfloor> + 1 \<le> K" using f by simp
    then show ?thesis using f by (simp add: round_half_even_def Let_def)
  qed
qed

lemma round_half_even_nonneg: "0 \<le> q \<Longrightarrow> 0 \<le> round_half_even q"
  by (simp add: round_half_even_def Let_def)

lemma powi_nat: "0 \<le> k \<Longrightarrow> (x::rat) powi k = x ^ nat k"
  by (simp add: power_int_def)

lemma binade_le: 
  assumes "0 < x" shows "2 powi (binade x) \<le> x"
proof -
  obtain p q where pq: "quotient_of x = (p, q)" by (cases "quotient_of x")
  have q: "0 < q" using pq quotient_of_denom_pos by blast
  have x: "x = of_int p / of_int q" using pq quotient_of_div by blast
  have p: "0 < p" using assms x q by (simp add: zero_less_divide_iff)
  have bp: "2 ^ nat (bitlen p - 1) \<le> p" using bitlen_bounds [OF p] by simp
  have bq: "q < 2 ^ nat (bitlen q)" using bitlen_bounds [OF q] by simp
  have p1: "1 \<le> bitlen p" using p bitlen_nonneg [of p] bitlen_eq_zero_iff [of p] by linarith
  have q1: "0 \<le> bitlen q" by (rule bitlen_nonneg)
  have rp: "(2::rat) ^ nat (bitlen p - 1) \<le> of_int p"
    using bp by (metis of_int_le_iff of_int_numeral of_int_power)
  have rq: "of_int q \<le> (2::rat) ^ nat (bitlen q)"
    using bq by (metis less_imp_le of_int_le_iff of_int_numeral of_int_power)
  have "(2::rat) powi (bitlen p - 1 - bitlen q) = 2 powi (bitlen p - 1) / 2 powi (bitlen q)"
    by (rule power_int_diff) simp
  moreover have "bitlen p - bitlen q - 1 = (bitlen p - 1) - bitlen q" by simp
  ultimately have "(2::rat) powi (bitlen p - bitlen q - 1) = 2 powi (bitlen p - 1) / 2 powi (bitlen q)"
    by (simp only:)
  also have "\<dots> = 2 ^ nat (bitlen p - 1) / 2 ^ nat (bitlen q)"
    using p1 q1 by (simp only: powi_nat [of "bitlen p - 1"] powi_nat [of "bitlen q"])
  also have "\<dots> \<le> of_int p / of_int q"
    by (rule frac_le) (use rp rq q p in auto)
  finally have low: "2 powi (bitlen p - bitlen q - 1) \<le> x" using x by simp
  then show ?thesis by (simp add: binade_def pq Let_def)
qed

lemma binade_upper: 
  assumes "0 < x" "x \<le> 2 ^ 32" shows "binade x \<le> 32"
proof -
  have "(2::rat) powi (binade x) \<le> 2 powi 32"
    using binade_le [OF assms(1)] assms(2) by simp
  then show ?thesis
    by (rule power_int_le_imp_le_exp [rotated]) simp_all
qed

lemma f64_round_bounded:
  assumes "0 \<le> x" "x \<le> 2 ^ 32"
  shows "\<exists>y. f64_round x = Fin y \<and> 0 \<le> y \<and> y \<le> 2 ^ 32"
proof (cases "x = 0")
  case True
  then show ?thesis by (simp add: f64_round_def)
next
  case False
  then have pos: "0 < x" using assms by simp
  define e where "e = max (binade \<bar>x\<bar>) (- 1022)"
  define ulp :: rat where "ulp = 2 powi (e - 52)"
  define n where "n = round_half_even (x / ulp)"
  have e: "e \<le> 32" using binade_upper [OF pos assms(2)] pos by (simp add: e_def)
  have ulp: "0 < ulp" by (simp add: ulp_def)
  have K: "(2::rat) ^ 32 / ulp = of_int (2 ^ nat (84 - e))"
  proof -
    have "(2::rat) ^ 32 / ulp = 2 powi (32 - (e - 52))"
      unfolding ulp_def by (subst power_int_diff) simp_all
    also have "32 - (e - 52) = 84 - e" by simp
    also have "(2::rat) powi (84 - e) = 2 ^ nat (84 - e)"
      using e by (intro powi_nat) simp
    finally show ?thesis by simp
  qed
  have "x / ulp \<le> 2 ^ 32 / ulp" using assms ulp by (simp add: divide_right_mono)
  then have n_le: "n \<le> 2 ^ nat (84 - e)"
    unfolding n_def K by (rule round_half_even_le)
  have n_ge: "0 \<le> n" unfolding n_def using assms ulp by (intro round_half_even_nonneg) simp
  have "of_int n * ulp \<le> of_int (2 ^ nat (84 - e)) * ulp"
    using n_le ulp by (simp del: of_int_power)
  also have "\<dots> = 2 ^ 32" using K ulp by (simp add: field_simps)
  finally have y_le: "of_int n * ulp \<le> 2 ^ 32" .
  have y_ge: "0 \<le> of_int n * ulp" using n_ge ulp by simp
  have "\<not> 2 powi 1024 \<le> \<bar>of_int n * ulp\<bar>"
  proof -
    have "(2::rat) ^ 32 < 2 ^ 1024" by (rule power_strict_increasing) simp_all
    then show ?thesis using y_le y_ge by simp
  qed
  then have "f64_round x = Fin (of_int n * ulp)"
    using False by (simp add: f64_round_def Let_def e_def ulp_def n_def)
  then show ?thesis using y_le y_ge by blast
qed

lemma round_half_even_of_int: "round_half_even (of_int k) = k"
  by (simp add: round_half_even_def)

lemma f64_round_of_int:
  assumes "\<bar>k\<bar> < 2 ^ 53"
  shows "f64_round (of_int k) = Fin (of_int k)"
proof (cases "k = 0")
  case True
  then show ?thesis by (simp add: f64_round_def)
next
  case False
  define x :: rat where "x = of_int k"
  define e where "e = max (binade \<bar>x\<bar>) (- 1022)"
  define ulp :: rat where "ulp = 2 powi (e - 52)"
  have x0: "x \<noteq> 0" "0 < \<bar>x\<bar>" using False by (simp_all add: x_def)
  have "\<bar>x\<bar> < 2 ^ 53" using assms unfolding x_def
    by (metis of_int_abs of_int_less_iff of_int_numeral of_int_power)
  then have "(2::rat) powi (binade \<bar>x\<bar>) < 2 powi 53"
    using binade_le [OF x0(2)] by simp
  then have "binade \<bar>x\<bar> < 53"
    by (rule power_int_le_imp_less_exp [rotated]) simp_all
  then have e: "e \<le> 52" by (simp add: e_def)
  have "(1::rat) / ulp = 2 powi (52 - e)"
    unfolding ulp_def by (simp add: power_int_diff)
  also have "\<dots> = 2 ^ nat (52 - e)" using e by (intro powi_nat) simp
  finally have inv: "1 / ulp = of_int (2 ^ nat (52 - e))" by simp
  have ulp: "0 < ulp" by (simp add: ulp_def)
  have "x / ulp = x * (1 / ulp)" by simp
  also have "\<dots> = of_int (k * 2 ^ nat (52 - e))" unfolding inv x_def by simp
  finally have q: "x / ulp = of_int (k * 2 ^ nat (52 - e))" .
  have "of_int (round_half_even (x / ulp)) * ulp = of_int (k * 2 ^ nat (52 - e)) * ulp"
    unfolding q round_half_even_of_int ..
  also have "\<dots> = (x / ulp) * ulp" unfolding q ..
  also have "\<dots> = x" using ulp by simp
  finally have y: "of_int (round_half_even (x / ulp)) * ulp = x" .
  have "(2::rat) ^ 53 < 2 ^ 1024" by (rule power_strict_increasing) simp_all
  then have "\<not> 2 powi 1024 \<le> \<bar>x\<bar>" using \<open>\<bar>x\<bar> < 2 ^ 53\<close> by simp
  then have "f64_round x = Fin x"
    using x0(1) y unfolding f64_round_def Let_def e_def [symmetric] ulp_def [symmetric]
    by simp
  then show ?thesis by (simp add: x_def)
qed

subsection \<open>Rounding a number next to a binary64 value\<close>

text \<open>
  A number within \<open>2^-54\<close> of a binary64 value, relative to the value, rounds to it.
\<close>

lemma binade_gt:
  assumes "0 < x" shows "x < 2 powi (binade x + 1)"
proof -
  obtain p q where pq: "quotient_of x = (p, q)" by (cases "quotient_of x")
  have q: "0 < q" using pq quotient_of_denom_pos by blast
  have x: "x = of_int p / of_int q" using pq quotient_of_div by blast
  have p: "0 < p" using assms x q by (simp add: zero_less_divide_iff)
  have bp: "p < 2 ^ nat (bitlen p)" using bitlen_bounds [OF p] by simp
  have bq: "2 ^ nat (bitlen q - 1) \<le> q" using bitlen_bounds [OF q] by simp
  have q1: "1 \<le> bitlen q" using q bitlen_nonneg [of q] bitlen_eq_zero_iff [of q] by linarith
  have p1: "0 \<le> bitlen p" by (rule bitlen_nonneg)
  have rp: "of_int p < (2::rat) ^ nat (bitlen p)"
    using bp by (metis of_int_less_iff of_int_numeral of_int_power)
  have rq: "(2::rat) ^ nat (bitlen q - 1) \<le> of_int q"
    using bq by (metis of_int_le_iff of_int_numeral of_int_power)
  have "of_int p / of_int q < (2::rat) ^ nat (bitlen p) / 2 ^ nat (bitlen q - 1)"
    by (rule frac_less) (use rp rq q p in auto)
  also have "\<dots> = 2 powi (bitlen p) / 2 powi (bitlen q - 1)"
    using p1 q1 by (simp only: powi_nat [of "bitlen p"] powi_nat [of "bitlen q - 1"])
  also have "\<dots> = 2 powi (bitlen p - (bitlen q - 1))"
    by (rule power_int_diff [symmetric]) simp
  also have "bitlen p - (bitlen q - 1) = bitlen p - bitlen q + 1" by simp
  finally have up: "x < 2 powi (bitlen p - bitlen q + 1)" using x by simp
  show ?thesis
  proof (cases "2 powi (bitlen p - bitlen q) \<le> x")
    case True
    then show ?thesis using up by (simp add: binade_def pq Let_def)
  next
    case False
    then show ?thesis by (simp add: binade_def pq Let_def)
  qed
qed

lemma powi_less_exp:
  assumes "(2::rat) powi m < 2 powi n" shows "m < n"
proof (rule ccontr)
  assume "\<not> m < n"
  then have "n \<le> m" by simp
  then have "(2::rat) powi n \<le> 2 powi m" by (rule power_int_increasing) simp
  with assms show False by simp
qed

lemma binade_unique:
  assumes "2 powi e \<le> x" and "x < 2 powi (e + 1)"
  shows "binade x = e"
proof -
  have pos: "0 < x"
  proof -
    have "(0::rat) < 2 powi e" by simp
    then show ?thesis using assms(1) by (rule less_le_trans)
  qed
  have "(2::rat) powi (binade x) < 2 powi (e + 1)"
    using binade_le [OF pos] assms(2) by (rule le_less_trans)
  then have a: "binade x < e + 1"
    by (rule powi_less_exp)
  have "(2::rat) powi e < 2 powi (binade x + 1)"
    using assms(1) binade_gt [OF pos] by (rule le_less_trans)
  then have b: "e < binade x + 1"
    by (rule powi_less_exp)
  from a b show ?thesis by simp
qed

lemma binade_below:
  assumes "0 < x" and "x < 2 powi (e + 1)"
  shows "binade x \<le> e"
proof -
  have "(2::rat) powi (binade x) < 2 powi (e + 1)"
    using binade_le [OF assms(1)] assms(2) by (rule le_less_trans)
  then have "binade x < e + 1"
    by (rule powi_less_exp)
  then show ?thesis by simp
qed

lemma round_half_even_near:
  assumes "\<bar>q - of_int m\<bar> < 1 / 2"
  shows "round_half_even q = m"
proof (cases "of_int m \<le> q")
  case True
  then have "\<lfloor>q\<rfloor> = m" using assms by (intro floor_unique) auto
  then show ?thesis using assms True by (simp add: round_half_even_def Let_def)
next
  case False
  then have f: "\<lfloor>q\<rfloor> = m - 1" using assms by (intro floor_unique) auto
  have "1 / 2 < q - of_int (m - 1)" using assms False by auto
  then show ?thesis using f by (simp add: round_half_even_def Let_def)
qed

lemma ulp_relations:
  fixes e :: int
  defines "u \<equiv> (2::rat) powi (e - 52)"
  shows "0 < u" and "2 powi e = 2 ^ 52 * u" and "2 powi (e + 1) = 2 ^ 53 * u"
    and "2 powi (e - 1) = 2 ^ 51 * u" and "2 powi (e - 1 - 52) = u / 2"
proof -
  show "0 < u" by (simp add: u_def)
  have a: "(2::rat) powi (e - 52) = 2 powi e / 2 powi 52"
    by (rule power_int_diff) simp
  then show b: "2 powi e = 2 ^ 52 * u" by (simp add: u_def)
  have "(2::rat) powi (e + 1) = 2 powi e * 2" by (rule power_int_add_1) simp
  then show "2 powi (e + 1) = 2 ^ 53 * u" using b by simp
  have c: "(2::rat) powi (e - 1) = 2 powi e / 2 powi 1"
    by (rule power_int_diff) simp
  then show "2 powi (e - 1) = 2 ^ 51 * u" using b by simp
  have "(2::rat) powi (e - 1 - 52) = 2 powi (e - 1) / 2 powi 52"
    by (rule power_int_diff) simp
  then show "2 powi (e - 1 - 52) = u / 2" using c a by (simp add: u_def)
qed

lemma representable:
  assumes "f64_round x = Fin x" and "0 < x"
  defines "e \<equiv> max (binade x) (- 1022)"
  defines "u \<equiv> (2::rat) powi (e - 52)"
  obtains m where "x = of_int m * u" and "0 < m" and "m < 2 ^ 53"
    and "\<not> 2 powi 1024 \<le> x" and "- 1022 < e \<longrightarrow> 2 ^ 52 \<le> m"
proof -
  define m where "m = round_half_even (x / u)"
  have u: "0 < u" by (simp add: u_def)
  have ax: "\<bar>x\<bar> = x" using assms(2) by simp
  have r: "f64_round x =
      (if 2 powi 1024 \<le> \<bar>of_int m * u\<bar> then PInf else Fin (of_int m * u))"
    using assms(2) by (simp add: f64_round_def Let_def ax e_def u_def m_def)
  have big: "\<not> 2 powi 1024 \<le> \<bar>of_int m * u\<bar>"
    using r assms(1) by (auto split: if_splits)
  then have x: "x = of_int m * u" using r assms(1) by simp
  have m0: "0 < m"
  proof -
    have "0 < of_int m * u" using x assms(2) by simp
    then have "(0::rat) < of_int m" using u by (simp add: zero_less_mult_iff)
    then show ?thesis by simp
  qed
  have "binade x + 1 \<le> e + 1" by (simp add: e_def)
  then have "(2::rat) powi (binade x + 1) \<le> 2 powi (e + 1)"
    by (rule power_int_increasing) simp
  then have "x < 2 powi (e + 1)" using binade_gt [OF assms(2)] by simp
  then have "of_int m * u < 2 ^ 53 * u" using x ulp_relations(3) [of e] by (simp add: u_def)
  then have "(of_int m :: rat) < 2 ^ 53" using u by simp
  then have "(of_int m :: rat) < of_int (2 ^ 53)" by simp
  then have m1: "m < 2 ^ 53" by (simp only: of_int_less_iff)
  have m2: "- 1022 < e \<longrightarrow> 2 ^ 52 \<le> m"
  proof
    assume "- 1022 < e"
    then have "binade x = e" by (simp add: e_def max_def split: if_splits)
    then have "2 powi e \<le> x" using binade_le [OF assms(2)] by simp
    then have "2 ^ 52 * u \<le> of_int m * u" using x ulp_relations(2) [of e] by (simp add: u_def)
    then have "(2 ^ 52 :: rat) \<le> of_int m" using u by simp
    then have "(of_int (2 ^ 52) :: rat) \<le> of_int m" by simp
    then show "2 ^ 52 \<le> m" by (simp only: of_int_le_iff)
  qed
  have nb: "\<not> 2 powi 1024 \<le> x" using big x assms(2) by simp
  show ?thesis by (rule that [OF x m0 m1 nb m2])
qed

lemma f64_round_eq:
  assumes "0 < c" and "max (binade c) (- 1022) = e" and "2 powi (e - 52) = u"
    and "round_half_even (c / u) = n" and "of_int n * u = y" and "\<not> 2 powi 1024 \<le> \<bar>y\<bar>"
  shows "f64_round c = Fin y"
proof -
  have ac: "\<bar>c\<bar> = c" and c0: "c \<noteq> 0" using assms(1) by simp_all
  show ?thesis
    unfolding f64_round_def Let_def ac assms(2) assms(3) assms(4) assms(5)
    using c0 assms(6) by simp
qed

lemma f64_round_near_pos:
  assumes rx: "f64_round x = Fin x" and pos: "0 < x" and near: "\<bar>c - x\<bar> * 2 ^ 54 < x"
  shows "f64_round c = Fin x"
proof -
  define e where "e = max (binade x) (- 1022)"
  define u :: rat where "u = 2 powi (e - 52)"
  from representable [OF rx pos] obtain m where
    x: "x = of_int m * u" and m0: "0 < m" and m1: "m < 2 ^ 53"
    and nb: "\<not> 2 powi 1024 \<le> x" and m2: "- 1022 < e \<longrightarrow> 2 ^ 52 \<le> m"
    unfolding e_def [symmetric] u_def [symmetric] by blast
  note rel = ulp_relations [of e, folded u_def]
  have u: "0 < u" by (rule rel(1))
  have e: "- 1022 \<le> e" by (simp add: e_def)
  have "m \<le> 2 ^ 53 - 1" using m1 by simp
  then have "(of_int m :: rat) \<le> of_int (2 ^ 53 - 1)" by (simp only: of_int_le_iff)
  then have mr: "(of_int m :: rat) \<le> 2 ^ 53 - 1" by simp
  have xu: "x \<le> (2 ^ 53 - 1) * u" unfolding x using mr u by (rule mult_right_mono [OF _ less_imp_le])
  have d: "\<bar>c - x\<bar> < u / 2"
  proof -
    have "\<bar>c - x\<bar> * 2 ^ 54 < 2 ^ 53 * u" using near xu u by simp
    then show ?thesis by simp
  qed
  have cpos: "0 < c"
  proof -
    have "\<bar>c - x\<bar> * 1 \<le> \<bar>c - x\<bar> * 2 ^ 54" by (rule mult_left_mono) simp_all
    then have "\<bar>c - x\<bar> \<le> \<bar>c - x\<bar> * 2 ^ 54" by (simp only: mult_1_right)
    then have "\<bar>c - x\<bar> < x" using near by (rule le_less_trans)
    then show ?thesis by linarith
  qed
  have cup: "c < 2 powi (e + 1)"
  proof -
    have "c < x + u / 2" using d by linarith
    also have "\<dots> \<le> (2 ^ 53 - 1) * u + u / 2" using xu by simp
    also have "\<dots> < 2 ^ 53 * u" using u by (simp add: algebra_simps)
    finally show ?thesis by (simp add: rel(3))
  qed
  have nbx: "\<not> 2 powi 1024 \<le> \<bar>x\<bar>" using nb pos by simp
  show ?thesis
  proof (cases "2 powi e \<le> c \<or> e = - 1022")
    case True
    have ec: "max (binade c) (- 1022) = e"
    proof (cases "2 powi e \<le> c")
      case True
      then have "binade c = e" using cup by (rule binade_unique)
      then show ?thesis using e by simp
    next
      case False
      with \<open>2 powi e \<le> c \<or> e = - 1022\<close> have "e = - 1022" by simp
      moreover have "binade c \<le> e" using cpos cup by (rule binade_below)
      ultimately show ?thesis by simp
    qed
    have "c / u - of_int m = (c - x) / u" using u by (simp add: x field_simps)
    then have "\<bar>c / u - of_int m\<bar> = \<bar>c - x\<bar> / u" using u by simp
    also have "\<dots> < 1 / 2" using d u by (simp add: field_simps)
    finally have "round_half_even (c / u) = m" by (rule round_half_even_near)
    with cpos ec u_def [symmetric] show ?thesis
      by (rule f64_round_eq) (use nbx in \<open>simp_all add: x\<close>)
  next
    case False
    then have lt: "c < 2 powi e" and e1: "- 1022 < e" using e by simp_all
    from m2 e1 have "2 ^ 52 \<le> m" by simp
    then have "(of_int (2 ^ 52) :: rat) \<le> of_int m" by (simp only: of_int_le_iff)
    then have ml: "(2 ^ 52 :: rat) \<le> of_int m" by simp
    have "x - u / 2 < c" using d by linarith
    then have "of_int m * u < 2 ^ 52 * u + u / 2" using lt by (simp add: x rel(2))
    then have "of_int m * u < (2 ^ 52 + 1 / 2) * u" by (simp add: algebra_simps)
    then have "(of_int m :: rat) < 2 ^ 52 + 1 / 2" using u by simp
    then have "(of_int m :: rat) < of_int (2 ^ 52 + 1)" by simp
    then have "m < 2 ^ 52 + 1" by (simp only: of_int_less_iff)
    with \<open>2 ^ 52 \<le> m\<close> have m: "m = 2 ^ 52" by simp
    have xe: "x = 2 ^ 52 * u" by (simp add: x m)
    have lo: "2 powi (e - 1) \<le> c"
    proof -
      have "x - c < u / 2" using d by linarith
      then have "2 ^ 52 * u - u / 2 < c" by (simp add: xe)
      moreover have "2 ^ 51 * u \<le> 2 ^ 52 * u - u / 2" using u by simp
      ultimately show ?thesis by (simp add: rel(4))
    qed
    have "c < 2 powi (e - 1 + 1)" using lt by simp
    with lo have "binade c = e - 1" by (rule binade_unique)
    then have ec: "max (binade c) (- 1022) = e - 1" using e1 by simp
    have "\<bar>c - x\<bar> * 2 ^ 54 < 2 ^ 52 * u" using near by (simp add: xe)
    then have q: "\<bar>c - x\<bar> < u / 4" by simp
    have "c / (u / 2) - of_int (2 ^ 53) = 2 * (c - x) / u" using u by (simp add: xe field_simps)
    moreover have "\<bar>2 * (c - x) / u\<bar> = 2 * \<bar>c - x\<bar> / u"
      using u by (simp only: abs_divide abs_mult abs_of_pos abs_numeral)
    ultimately have "\<bar>c / (u / 2) - of_int (2 ^ 53)\<bar> = 2 * \<bar>c - x\<bar> / u"
      by (simp only:)
    also have "\<dots> < 1 / 2" using q u by (simp add: field_simps)
    finally have "round_half_even (c / (u / 2)) = 2 ^ 53" by (rule round_half_even_near)
    moreover have "of_int (2 ^ 53) * (u / 2) = x" by (simp add: xe)
    ultimately show ?thesis
      using cpos ec rel(5) nbx by (intro f64_round_eq)
  qed
qed

lemma round_half_even_minus: "round_half_even (- q) = - round_half_even q"
proof (cases "q = of_int \<lfloor>q\<rfloor>")
  case True
  then obtain k where "q = of_int k" ..
  then show ?thesis by (simp add: round_half_even_def)
next
  case False
  then have c: "\<lceil>q\<rceil> = \<lfloor>q\<rfloor> + 1" by (simp add: ceiling_altdef)
  have f: "\<lfloor>- q\<rfloor> = - \<lfloor>q\<rfloor> - 1" by (simp add: floor_minus c)
  have r: "0 < q - of_int \<lfloor>q\<rfloor>" using False of_int_floor_le [of q] by linarith
  show ?thesis
    unfolding round_half_even_def Let_def f using r by auto
qed

lemma f64_round_minus:
  assumes "f64_round x = Fin y"
  shows "f64_round (- x) = Fin (- y)"
proof (cases "x = 0")
  case True
  with assms show ?thesis by (simp add: f64_round_def)
next
  case False
  define u :: rat where "u = 2 powi (max (binade \<bar>x\<bar>) (- 1022) - 52)"
  define n where "n = round_half_even (x / u)"
  have a: "f64_round x =
      (if 2 powi 1024 \<le> \<bar>of_int n * u\<bar> then (if 0 < x then PInf else NInf) else Fin (of_int n * u))"
    using False by (simp add: f64_round_def Let_def u_def n_def)
  have "round_half_even (- x / u) = - n" using round_half_even_minus [of "x / u"] by (simp add: n_def)
  then have b: "f64_round (- x) =
      (if 2 powi 1024 \<le> \<bar>of_int n * u\<bar> then (if 0 < - x then PInf else NInf)
       else Fin (- (of_int n * u)))"
    using False by (simp add: f64_round_def Let_def u_def)
  from a assms have "\<not> 2 powi 1024 \<le> \<bar>of_int n * u\<bar>" and "of_int n * u = y"
    by (auto split: if_splits)
  with b show ?thesis by simp
qed

lemma f64_round_near:
  assumes rx: "f64_round x = Fin x" and x0: "x \<noteq> 0" and near: "\<bar>c - x\<bar> * 2 ^ 54 < \<bar>x\<bar>"
  shows "f64_round c = Fin x"
proof (cases "0 < x")
  case True
  with near have "\<bar>c - x\<bar> * 2 ^ 54 < x" by simp
  with rx True show ?thesis by (rule f64_round_near_pos)
next
  case False
  then have pos: "0 < - x" using x0 by simp
  have r: "f64_round (- x) = Fin (- x)" using rx by (rule f64_round_minus)
  have "\<bar>- c - - x\<bar> = \<bar>c - x\<bar>" by simp
  then have "\<bar>- c - - x\<bar> * 2 ^ 54 < - x" using near False by simp
  with r pos have "f64_round (- c) = Fin (- x)" by (rule f64_round_near_pos)
  then have "f64_round (- (- c)) = Fin (- (- x))" by (rule f64_round_minus)
  then show ?thesis by simp
qed

section \<open>Properties of the WAV duration inspector\<close>

lemma read_full_at:
  "length a = n \<Longrightarrow> 0 < n \<Longrightarrow> read_full (pre @ a @ rest) (length pre) n = Inr a"
  by (simp add: read_full_def)

lemma scan_chunks_data:
  assumes "read_full file pos 8 = Inr hdr" "slice hdr 0 4 = ''data''"
  shows "scan_chunks file pos fmt = Inr (fmt, le_uint32 (slice hdr 4 8))"
  using assms by (subst scan_chunks.simps) (simp add: Let_def)

lemma scan_chunks_skip:
  assumes "read_full file pos 8 = Inr hdr" "slice hdr 0 4 \<noteq> ''fmt ''" "slice hdr 0 4 \<noteq> ''data''"
  shows "scan_chunks file pos fmt =
         scan_chunks file (pos + 8 + unat (le_uint32 (slice hdr 4 8)) + unat (le_uint32 (slice hdr 4 8)) mod 2) fmt"
proof -
  let ?n = "unat (le_uint32 (slice hdr 4 8))"
  have "(if ?n mod 2 = 1 then ?n + 1 else ?n) = ?n + ?n mod 2" by presburger
  then show ?thesis
    using assms by (subst scan_chunks.simps) (simp add: Let_def add.assoc)
qed

text \<open>
  Claim C7. At a sub-chunk header whose ID is \<open>data\<close> the scan stops and returns the
  declared size, whatever follows the header (the payload is not read, and may even be
  absent). At a header whose ID is neither \<open>fmt\<close> nor \<open>data\<close> the scan continues
  exactly \<open>size\<close> bytes after the header, plus one pad byte when \<open>size\<close> is odd.
\<close>

theorem scan_chunks_stops_at_data_and_skips_padded:
  assumes "length cid = 4" and "length sz = 4"
  shows "(cid = ''data'' \<longrightarrow>
            scan_chunks (pre @ cid @ sz @ rest) (length pre) fmt = Inr (fmt, le_uint32 sz)) \<and>
         (cid \<noteq> ''fmt '' \<and> cid \<noteq> ''data'' \<longrightarrow>
            scan_chunks (pre @ cid @ sz @ rest) (length pre) fmt =
            scan_chunks (pre @ cid @ sz @ rest)
              (length pre + 8 + unat (le_uint32 sz) + unat (le_uint32 sz) mod 2) fmt)"
proof -
  have rd: "read_full (pre @ cid @ sz @ rest) (length pre) 8 = Inr (cid @ sz)"
    using read_full_at [of "cid @ sz" 8 pre rest] assms by simp
  have id: "slice (cid @ sz) 0 4 = cid" and size: "slice (cid @ sz) 4 8 = sz"
    using assms by (simp_all add: slice_def)
  show ?thesis
  proof (intro conjI impI)
    assume "cid = ''data''"
    then have "slice (cid @ sz) 0 4 = ''data''" using id by simp
    from scan_chunks_data [OF rd this, of fmt] show
      "scan_chunks (pre @ cid @ sz @ rest) (length pre) fmt = Inr (fmt, le_uint32 sz)"
      by (simp only: size)
  next
    assume "cid \<noteq> ''fmt '' \<and> cid \<noteq> ''data''"
    then have "slice (cid @ sz) 0 4 \<noteq> ''fmt ''" "slice (cid @ sz) 0 4 \<noteq> ''data''"
      using id by simp_all
    from scan_chunks_skip [OF rd this, of fmt] show
      "scan_chunks (pre @ cid @ sz @ rest) (length pre) fmt =
       scan_chunks (pre @ cid @ sz @ rest)
         (length pre + 8 + unat (le_uint32 sz) + unat (le_uint32 sz) mod 2) fmt"
      by (simp only: size)
  qed
qed

theorem scan_chunks_stops_at_data_and_skips_padded_witness:
  "scan_chunks (riff_magic @ ''data'' @ [CHR 0x00, CHR 0x7D, CHR 0x00, CHR 0x00] @ []) 12 no_format
     = Inr (no_format, 32000) \<and>
   scan_chunks wav_list 12 no_format = scan_chunks wav_list 24 no_format"
proof -
  have l: "length riff_magic = 12" by (simp add: riff_magic_def)
  have a: "le_uint32 [CHR 0x00, CHR 0x7D, CHR 0x00, CHR 0x00] = 32000"
    by (simp add: le_uint32_def)
  have b: "unat (le_uint32 [CHR 0x03, CHR 0x00, CHR 0x00, CHR 0x00]) = 3"
    by (simp add: le_uint32_def)
  show ?thesis
    using scan_chunks_stops_at_data_and_skips_padded
            [of "''data''" "[CHR 0x00, CHR 0x7D, CHR 0x00, CHR 0x00]" riff_magic "[]" no_format]
          scan_chunks_stops_at_data_and_skips_padded
            [of "''LIST''" "[CHR 0x03, CHR 0x00, CHR 0x00, CHR 0x00]" riff_magic
                "''abc'' @ [CHR 0x00] @ data_header" no_format]
    by (simp add: l a b wav_list_def)
qed

lemma div_by_count:
  fixes a :: rat
  assumes "0 \<le> a" "a \<le> 2 ^ 32" "0 < (n::nat)"
  shows "0 \<le> a / of_nat n \<and> a / of_nat n \<le> 2 ^ 32"
proof -
  have "1 \<le> (of_nat n :: rat)" using assms(3) by simp
  then have "a / of_nat n \<le> a" using assms(1) by (simp add: field_simps mult_le_cancel_left1)
  then show ?thesis using assms by simp
qed

lemma duration_finite:
  fixes dataSize :: "32 word" and bytesPerSample :: "16 word" and rate :: "32 word"
  assumes "bytesPerSample \<noteq> 0" "rate \<noteq> 0"
  shows "\<exists>q. f64_div (f64_div (f64_of_u32 dataSize) (f64_of_u16 bytesPerSample)) (f64_of_u32 rate) = Fin q
             \<and> 0 \<le> q"
proof -
  define a b c where "a = unat dataSize" and "b = unat bytesPerSample" and "c = unat rate"
  have b: "0 < b" and c: "0 < c" using assms by (simp_all add: b_def c_def unat_gt_0)
  have "a < 2 ^ 32" using unsigned_less [of dataSize, where ?'a = nat] by (simp add: a_def)
  then have "(of_nat a :: rat) \<le> of_nat (2 ^ 32)" by (metis of_nat_le_iff less_imp_le)
  then have a: "(of_nat a :: rat) \<le> 2 ^ 32" by simp
  have "0 \<le> (of_nat a :: rat) / of_nat b" "(of_nat a :: rat) / of_nat b \<le> 2 ^ 32"
    using div_by_count [OF _ a b] by simp_all
  from f64_round_bounded [OF this] obtain y
    where y: "f64_round (of_nat a / of_nat b) = Fin y" "0 \<le> y" "y \<le> 2 ^ 32" by blast
  have "0 \<le> y / of_nat c" "y / of_nat c \<le> 2 ^ 32"
    using div_by_count [OF y(2,3) c] by simp_all
  from f64_round_bounded [OF this] obtain z
    where z: "f64_round (y / of_nat c) = Fin z" "0 \<le> z" by blast
  have "(of_nat b :: rat) \<noteq> 0" "(of_nat c :: rat) \<noteq> 0" using b c by simp_all
  then have "f64_div (f64_div (Fin (of_nat a)) (Fin (of_nat b))) (Fin (of_nat c)) = Fin z"
    using y z by simp
  then show ?thesis
    using z(2) unfolding f64_of_u32_def f64_of_u16_def a_def b_def c_def by blast
qed

lemma read_full_error:
  "read_full bs pos n = Inl e \<Longrightarrow> e = io_EOF \<or> e = io_ErrUnexpectedEOF"
  by (auto simp: read_full_def split: if_splits)

lemma scan_chunks_error:
  "scan_chunks bs pos fmt = Inl e \<Longrightarrow>
     e = io_EOF \<or> e = io_ErrUnexpectedEOF \<or> e = Error ''invalid fmt chunk''"
proof (induction bs pos fmt rule: scan_chunks.induct)
  case (1 bs pos fmt)
  show ?case
  proof (cases "read_full bs pos 8")
    case (Inl e')
    then have "e = e'" using "1.prems" by (subst (asm) scan_chunks.simps) simp
    then show ?thesis using read_full_error [OF Inl] by blast
  next
    case (Inr hdr)
    define cid where "cid = slice hdr 0 4"
    define sz where "sz = le_uint32 (slice hdr 4 8)"
    show ?thesis
    proof (cases "cid = ''fmt ''")
      case True
      show ?thesis
      proof (cases "read_full bs (pos + 8) (unat sz)")
        case (Inl e')
        then have "e = e'" using "1.prems" Inr True
          by (subst (asm) scan_chunks.simps) (simp add: cid_def sz_def Let_def)
        then show ?thesis using read_full_error [OF Inl] by blast
      next
        case buf: (Inr buf)
        show ?thesis
        proof (cases "length buf < 16")
          case True
          with "1.prems" Inr \<open>cid = ''fmt ''\<close> buf show ?thesis
            by (subst (asm) scan_chunks.simps) (simp add: cid_def sz_def Let_def)
        next
          case False
          have "scan_chunks bs (pos + 8 + unat sz)
                  \<lparr>channels = le_uint16 (slice buf 2 4), sampleRate = le_uint32 (slice buf 4 8),
                   bitsPerSample = le_uint16 (slice buf 14 16)\<rparr> = Inl e"
            using "1.prems" Inr \<open>cid = ''fmt ''\<close> buf False
            by (subst (asm) scan_chunks.simps) (simp add: cid_def sz_def Let_def)
          with "1.IH"(1) [OF Inr cid_def sz_def \<open>cid = ''fmt ''\<close> buf False]
          show ?thesis by blast
        qed
      qed
    next
      case nf: False
      show ?thesis
      proof (cases "cid = ''data''")
        case True
        with "1.prems" Inr nf show ?thesis
          by (subst (asm) scan_chunks.simps) (simp add: cid_def sz_def Let_def)
      next
        case False
        define skip where "skip = unat sz"
        define skip' where "skip' = (if skip mod 2 = 1 then skip + 1 else skip)"
        have sk: "pos + 8 + skip' = pos + 8 + unat sz + unat sz mod 2"
          unfolding skip'_def skip_def by presburger
        have "scan_chunks bs pos fmt = scan_chunks bs (pos + 8 + unat sz + unat sz mod 2) fmt"
          using scan_chunks_skip [OF Inr, of fmt] nf False unfolding cid_def sz_def by blast
        then have "scan_chunks bs (pos + 8 + skip') fmt = Inl e"
          using "1.prems" by (simp only: sk)
        with "1.IH"(2) [OF Inr cid_def sz_def nf False skip_def skip'_def]
        show ?thesis by blast
      qed
    qed
  qed
qed

lemma duration_guard:
  fixes dataSize :: "32 word" and bytesPerSample :: "16 word" and rate :: "32 word"
  assumes "bytesPerSample \<noteq> 0" "rate \<noteq> 0"
  shows "\<not> (math_IsNaN (f64_div (f64_div (f64_of_u32 dataSize) (f64_of_u16 bytesPerSample)) (f64_of_u32 rate))
          \<or> math_IsInf (f64_div (f64_div (f64_of_u32 dataSize) (f64_of_u16 bytesPerSample)) (f64_of_u32 rate)))"
  using duration_finite [OF assms, of dataSize] by auto

lemma wavDuration_file_parsed:
  assumes "header_parses bs fmt dataSize"
  shows "wavDuration_file bs =
     (let bytesPerSample = (bitsPerSample fmt div 8) * channels fmt
      in if bytesPerSample = 0 then Inl (Error ''invalid bytes per sample'')
         else Inr (f64_div (f64_div (f64_of_u32 dataSize) (f64_of_u16 bytesPerSample))
                     (f64_of_u32 (sampleRate fmt))))"
proof -
  obtain header where h: "read_full bs 0 12 = Inr header" "slice header 0 4 = ''RIFF''"
      "slice header 8 12 = ''WAVE''"
    using assms unfolding header_parses_def by (cases "read_full bs 0 12") auto
  have s: "scan_chunks bs 12 no_format = Inr (fmt, dataSize)"
    and nz: "channels fmt \<noteq> 0" "sampleRate fmt \<noteq> 0" "bitsPerSample fmt \<noteq> 0"
    using assms unfolding header_parses_def by auto
  show ?thesis
    unfolding wavDuration_file_def Let_def
    using duration_guard [of "(bitsPerSample fmt div 8) * channels fmt" "sampleRate fmt" dataSize] nz
    by (simp add: h s)
qed

lemma wavDuration_file_cases:
  assumes a: "wavDuration_file bs = Inl e"
  shows "e = io_EOF \<or> e = io_ErrUnexpectedEOF \<or> e = Error ''invalid fmt chunk'' \<or>
     e = Error ''not a WAV file'' \<or> e = Error ''missing audio format information'' \<or>
     e = Error ''invalid bytes per sample''"
proof (cases "read_full bs 0 12")
  case (Inl e')
  then have "e = e'" using a by (simp add: wavDuration_file_def)
  then show ?thesis using read_full_error [OF Inl] by blast
next
  case (Inr header)
  show ?thesis
  proof (cases "slice header 0 4 \<noteq> ''RIFF'' \<or> slice header 8 12 \<noteq> ''WAVE''")
    case True
    then show ?thesis using a Inr by (simp add: wavDuration_file_def)
  next
    case magic: False
    show ?thesis
    proof (cases "scan_chunks bs 12 no_format")
      case (Inl e')
      then have "e = e'" using a Inr magic by (simp add: wavDuration_file_def)
      then show ?thesis using scan_chunks_error [OF Inl] by blast
    next
      case r: (Inr r)
      obtain fmt dataSize where r': "r = (fmt, dataSize)" by (cases r)
      show ?thesis
      proof (cases "sampleRate fmt = 0 \<or> channels fmt = 0 \<or> bitsPerSample fmt = 0")
        case True
        then show ?thesis using a Inr magic r r' by (simp add: wavDuration_file_def)
      next
        case False
        then have "header_parses bs fmt dataSize"
          using Inr magic r r' by (simp add: header_parses_def)
        from wavDuration_file_parsed [OF this] a show ?thesis
          by (simp add: Let_def split: if_splits)
      qed
    qed
  qed
qed

lemma wavDuration_file_value:
  assumes "wavDuration_file bs = Inr d"
  shows "\<exists>q. d = Fin q \<and> 0 \<le> q"
proof -
  from assms obtain header where h: "read_full bs 0 12 = Inr header"
    by (cases "read_full bs 0 12") (auto simp: wavDuration_file_def)
  from assms h have magic: "slice header 0 4 = ''RIFF''" "slice header 8 12 = ''WAVE''"
    by (auto simp: wavDuration_file_def split: if_splits)
  from assms h magic obtain fmt dataSize where s: "scan_chunks bs 12 no_format = Inr (fmt, dataSize)"
    by (cases "scan_chunks bs 12 no_format") (auto simp: wavDuration_file_def)
  from assms h magic s have nz: "sampleRate fmt \<noteq> 0" "channels fmt \<noteq> 0" "bitsPerSample fmt \<noteq> 0"
    by (auto simp: wavDuration_file_def split: if_splits)
  then have hp: "header_parses bs fmt dataSize"
    using h magic s by (simp add: header_parses_def)
  from wavDuration_file_parsed [OF hp] assms
  have b: "(bitsPerSample fmt div 8) * channels fmt \<noteq> 0"
    and d: "d = f64_div (f64_div (f64_of_u32 dataSize) (f64_of_u16 ((bitsPerSample fmt div 8) * channels fmt)))
                     (f64_of_u32 (sampleRate fmt))"
    by (auto simp: Let_def split: if_splits)
  from duration_finite [OF b nz(1), of dataSize] d show ?thesis by auto
qed

text \<open>
  Claim C10. The last error branch of \<open>wavDuration\<close> is dead: no file makes it return
  \<open>invalid duration computed\<close>, and every duration it returns is a finite, non-negative
  binary64 value. (Once the guards have passed, the operands are an unsigned 32-bit
  numerator and two nonzero divisors, so both quotients stay between 0 and \<open>2^32\<close>.)
\<close>

theorem wavDuration_duration_is_finite:
  "wavDuration_file bs \<noteq> Inl (Error ''invalid duration computed'') \<and>
   (\<forall>d. wavDuration_file bs = Inr d \<longrightarrow> (\<exists>q. d = Fin q \<and> 0 \<le> q))"
proof (intro conjI allI impI)
  show "wavDuration_file bs \<noteq> Inl (Error ''invalid duration computed'')"
  proof
    assume "wavDuration_file bs = Inl (Error ''invalid duration computed'')"
    from wavDuration_file_cases [OF this] show False
      by (simp add: io_EOF_def io_ErrUnexpectedEOF_def)
  qed
next
  fix d assume "wavDuration_file bs = Inr d"
  then show "\<exists>q. d = Fin q \<and> 0 \<le> q" by (rule wavDuration_file_value)
qed

lemma length_riff_magic: "length riff_magic = 12"
  by (simp add: riff_magic_def)

lemma read_magic:
  "read_full (riff_magic @ rest) 0 12 = Inr riff_magic"
  using read_full_at [of riff_magic 12 "[]" rest] by (simp add: length_riff_magic)

lemma magic_ok: "slice riff_magic 0 4 = ''RIFF''" "slice riff_magic 8 12 = ''WAVE''"
  by (simp_all add: riff_magic_def slice_def)

lemma scan_fmt_data:
  "scan_chunks (riff_magic @ fmt_chunk ch bits @ data_header) 12 no_format =
     Inr (\<lparr>channels = le_uint16 [ch, CHR 0x00], sampleRate = 16000,
           bitsPerSample = le_uint16 [bits, CHR 0x00]\<rparr>, 32000)"
proof -
  have sz: "le_uint32 [CHR 0x00, CHR 0x7D, CHR 0x00, CHR 0x00] = 32000"
           "le_uint32 [CHR 0x10, CHR 0x00, CHR 0x00, CHR 0x00] = 16"
           "le_uint32 [CHR 0x80, CHR 0x3E, CHR 0x00, CHR 0x00] = 16000"
    by (simp_all add: le_uint32_def)
  show ?thesis
    apply (subst scan_chunks.simps)
    apply (simp add: read_full_def length_riff_magic fmt_chunk_def data_header_def slice_def sz Let_def)
    apply (subst scan_chunks.simps)
    apply (simp add: read_full_def length_riff_magic fmt_chunk_def data_header_def slice_def sz Let_def)
    done
qed

lemma mono16_parses:
  "header_parses wav_mono16 \<lparr>channels = 1, sampleRate = 16000, bitsPerSample = 16\<rparr> 32000"
  unfolding header_parses_def wav_mono16_def
  by (simp add: read_magic magic_ok scan_fmt_data le_uint16_def)

lemma mono4_parses:
  "header_parses wav_mono4 \<lparr>channels = 1, sampleRate = 16000, bitsPerSample = 4\<rparr> 32000"
  unfolding header_parses_def wav_mono4_def
  by (simp add: read_magic magic_ok scan_fmt_data le_uint16_def)

lemma one_second: "f64_div (f64_div (Fin 32000) (Fin 2)) (Fin 16000) = Fin 1"
proof -
  have "f64_round (of_int 16000) = Fin (of_int 16000)" by (rule f64_round_of_int) simp
  moreover have "f64_round (of_int 1) = Fin (of_int 1)" by (rule f64_round_of_int) simp
  ultimately show ?thesis by simp
qed

lemma wavDuration_mono16: "wavDuration_file wav_mono16 = Inr (Fin 1)"
  using wavDuration_file_parsed [OF mono16_parses] one_second
  by (simp add: f64_of_u32_def f64_of_u16_def)

lemma wavDuration_mono4: "wavDuration_file wav_mono4 = Inl (Error ''invalid bytes per sample'')"
  using wavDuration_file_parsed [OF mono4_parses] by simp

lemma exact_quotient_rounds_once:
  fixes dataSize :: "32 word" and bytesPerSample :: "16 word" and rate :: "32 word"
  assumes "bytesPerSample \<noteq> 0" "rate \<noteq> 0" "unat bytesPerSample dvd unat dataSize"
  shows "f64_div (f64_div (f64_of_u32 dataSize) (f64_of_u16 bytesPerSample)) (f64_of_u32 rate) =
         f64_round (of_nat (unat dataSize) / of_nat (unat bytesPerSample) / of_nat (unat rate))"
proof -
  define a b c where "a = unat dataSize" and "b = unat bytesPerSample" and "c = unat rate"
  have b: "0 < b" and c: "0 < c" using assms by (simp_all add: b_def c_def unat_gt_0)
  have a: "a < 2 ^ 32" using unsigned_less [of dataSize, where ?'a = nat] by (simp add: a_def)
  obtain k where k: "a = b * k" using assms(3) unfolding a_def b_def by (auto simp: dvd_def)
  have "k \<le> a" using k b by simp
  then have "k < 2 ^ 32" using a by simp
  then have "int k < int (2 ^ 32)" by (simp only: of_nat_less_iff)
  moreover have "int (2 ^ 32) < 2 ^ 53" by simp
  ultimately have "int k < 2 ^ 53" by (rule less_trans)
  then have r: "f64_round (of_int (int k)) = Fin (of_int (int k))"
    by (intro f64_round_of_int) simp
  have q: "(of_nat a :: rat) / of_nat b = of_nat k" using k b by simp
  have r': "f64_round (of_nat k) = Fin (of_nat k)" using r by simp
  have "f64_div (Fin (of_nat a)) (Fin (of_nat b)) = f64_round (of_nat a / of_nat b)"
    using b by simp
  also have "\<dots> = Fin (of_nat k)" by (simp only: q r')
  finally have d1: "f64_div (Fin (of_nat a)) (Fin (of_nat b)) = Fin (of_nat k)" .
  have "f64_div (Fin (of_nat k)) (Fin (of_nat c)) = f64_round (of_nat k / of_nat c)"
    using c by simp
  then have "f64_div (f64_div (Fin (of_nat a)) (Fin (of_nat b))) (Fin (of_nat c)) =
        f64_round (of_nat a / of_nat b / of_nat c)"
    by (simp only: d1 q)
  then show ?thesis
    unfolding f64_of_u32_def f64_of_u16_def a_def b_def c_def .
qed

text \<open>
  Claim C2, as amended. For a header that parses (magic, a \<open>data\<close> chunk, nonzero
  channels, sample rate and bits per sample) and whose bytes per sample,
  \<open>(bitsPerSample div 8) * channels\<close> in 16-bit arithmetic, is nonzero, \<open>wavDuration\<close>
  returns \<open>float64(dataSize) / float64(bytesPerSample) / float64(sampleRate)\<close>, each
  division rounded to binary64. When the data size is a whole number of sample frames
  this is the binary64 value nearest to the exact quotient; for mono 16 kHz 16-bit and
  32000 bytes it is exactly 1.
\<close>

theorem wavDuration_formula:
  assumes "header_parses bs fmt dataSize"
    and "(bitsPerSample fmt div 8) * channels fmt \<noteq> 0"
  shows "wavDuration_file bs =
           Inr (f64_div (f64_div (f64_of_u32 dataSize)
                           (f64_of_u16 ((bitsPerSample fmt div 8) * channels fmt)))
                  (f64_of_u32 (sampleRate fmt))) \<and>
         (unat ((bitsPerSample fmt div 8) * channels fmt) dvd unat dataSize \<longrightarrow>
            wavDuration_file bs =
              Inr (f64_round (of_nat (unat dataSize)
                     / of_nat (unat ((bitsPerSample fmt div 8) * channels fmt))
                     / of_nat (unat (sampleRate fmt))))) \<and>
         (channels fmt = 1 \<and> sampleRate fmt = 16000 \<and> bitsPerSample fmt = 16 \<and> dataSize = 32000
            \<longrightarrow> wavDuration_file bs = Inr (Fin 1))"
proof -
  have rate: "sampleRate fmt \<noteq> 0" using assms(1) by (simp add: header_parses_def)
  have main: "wavDuration_file bs =
           Inr (f64_div (f64_div (f64_of_u32 dataSize)
                           (f64_of_u16 ((bitsPerSample fmt div 8) * channels fmt)))
                  (f64_of_u32 (sampleRate fmt)))"
    using wavDuration_file_parsed [OF assms(1)] assms(2) by (simp add: Let_def)
  have once: "wavDuration_file bs =
              Inr (f64_round (of_nat (unat dataSize)
                     / of_nat (unat ((bitsPerSample fmt div 8) * channels fmt))
                     / of_nat (unat (sampleRate fmt))))"
    if "unat ((bitsPerSample fmt div 8) * channels fmt) dvd unat dataSize"
    using main exact_quotient_rounds_once [OF assms(2) rate that] by simp
  have sec: "wavDuration_file bs = Inr (Fin 1)"
    if "channels fmt = 1 \<and> sampleRate fmt = 16000 \<and> bitsPerSample fmt = 16 \<and> dataSize = 32000"
    using main that one_second by (simp add: f64_of_u32_def f64_of_u16_def)
  show ?thesis using main once sec by blast
qed

text \<open>The canonical header satisfies the hypotheses, and its duration is one second.\<close>

theorem wavDuration_formula_witness:
  "header_parses wav_mono16 \<lparr>channels = 1, sampleRate = 16000, bitsPerSample = 16\<rparr> 32000 \<and>
   wavDuration_file wav_mono16 = Inr (Fin 1) \<and>
   wavDuration_file wav_mono16 = Inr (f64_round (32000 / 2 / 16000))"
proof -
  let ?fmt = "\<lparr>channels = 1, sampleRate = 16000, bitsPerSample = 16\<rparr>"
  have nz: "(bitsPerSample ?fmt div 8) * channels ?fmt \<noteq> 0" by simp
  note f = wavDuration_formula [OF mono16_parses nz]
  have "wavDuration_file wav_mono16 = Inr (Fin 1)"
    using f [THEN conjunct2, THEN conjunct2] by simp
  moreover have "wavDuration_file wav_mono16 = Inr (f64_round (32000 / 2 / 16000))"
    using f [THEN conjunct2, THEN conjunct1] by simp
  ultimately show ?thesis using mono16_parses by blast
qed

text \<open>
  Claim C2 as stated fails: with 4 bits per sample the header parses and all three
  fields are nonzero, but \<open>bitsPerSample / 8\<close> is an integer division, the bytes per
  sample are 0, and \<open>wavDuration\<close> returns an error instead of a duration.
\<close>

theorem wavDuration_formula_counterexample:
  "header_parses wav_mono4 \<lparr>channels = 1, sampleRate = 16000, bitsPerSample = 4\<rparr> 32000 \<and>
   wavDuration_file wav_mono4 = Inl (Error ''invalid bytes per sample'') \<and>
   (\<nexists>d. wavDuration_file wav_mono4 = Inr d)"
  using mono4_parses wavDuration_mono4 by simp

theorem wavDuration_duration_is_finite_witness:
  "wavDuration_file wav_mono16 = Inr (Fin 1) \<and> (\<exists>q. Fin 1 = Fin q \<and> 0 \<le> q) \<and>
   wavDuration_file wav_mono16 \<noteq> Inl (Error ''invalid duration computed'')"
  using wavDuration_duration_is_finite [of wav_mono16] wavDuration_mono16 by simp

section \<open>Properties of the pipeline runner\<close>

lemma error_text_wrap: "error_text (wrap pre e) = pre @ error_text e"
  by (simp add: wrap_def)

lemma runCommand_history:
  "runCommand P w name args = ((out, err), w1) \<Longrightarrow> history w1 = history w @ [Exec name args out]"
  by (auto simp: runCommand_def split: prod.splits)

lemma writeBase64File_history:
  "writeBase64File P w src dst = (err, w1) \<Longrightarrow> history w1 = history w"
  by (auto simp: writeBase64File_def os_WriteFile_def split: sum.splits option.splits prod.splits)

lemma transcribe_chunk_props:
  assumes "transcribe_chunk P p td chunkPath chunk logs w = (chunk', logs', w')"
  shows "Index chunk' = Index chunk \<and> StartSeconds chunk' = StartSeconds chunk \<and>
         DurationSeconds chunk' = DurationSeconds chunk \<and>
         AudioFile chunk' = AudioFile chunk \<and> Base64File chunk' = Base64File chunk \<and>
         (\<exists>ev. history w' = history w @ [ev] \<and> logs' = logs @ [exec_output ev])"
proof -
  let ?prefix = "filepath_Join P [td, strings_TrimSuffix (filepath_Base P chunkPath) (filepath_Ext P chunkPath)]"
  let ?args = "WhisperArgs p @ [''-f'', chunkPath, ''-otxt'', ''-of'', ?prefix]"
  obtain out err w1 where r: "runCommand P w (WhisperBin p) ?args = ((out, err), w1)"
    by (metis prod.exhaust)
  have h: "history w1 = history w @ [Exec (WhisperBin p) ?args out]"
    by (rule runCommand_history [OF r])
  from assms r have "Index chunk' = Index chunk \<and> StartSeconds chunk' = StartSeconds chunk \<and>
         DurationSeconds chunk' = DurationSeconds chunk \<and>
         AudioFile chunk' = AudioFile chunk \<and> Base64File chunk' = Base64File chunk \<and>
         w' = w1 \<and> logs' = logs @ [out]"
    by (auto simp: transcribe_chunk_def Let_def split: option.splits sum.splits)
  with h show ?thesis by auto
qed

lemma ctx_Err_text: "error_text (ctx_Err c) \<noteq> []"
  by (cases c) simp_all

lemma chunk_step_Stop:
  assumes "chunk_step P p ctx opts bd td mb tr idx chunkPath logs w = Stop e w1"
  shows "error_text e \<noteq> [] \<and> history w1 = history w"
proof (cases "ctx idx")
  case (Some c)
  then show ?thesis using assms ctx_Err_text by (auto simp: chunk_step_def)
next
  case None
  show ?thesis
  proof (cases "wavDuration w chunkPath")
    case (Inl e')
    then show ?thesis using assms None by (auto simp: chunk_step_def wrap_def)
  next
    case (Inr duration)
    let ?dst = "filepath_Join P [bd, strings_TrimSuffix (filepath_Base P chunkPath)
                                (filepath_Ext P chunkPath) @ ''.b64.txt'']"
    obtain b64err wb where b: "(if mb then writeBase64File P w chunkPath ?dst else (None, w)) = (b64err, wb)"
      by (metis prod.exhaust)
    have hb: "history wb = history w"
      using b writeBase64File_history by (auto split: if_splits)
    show ?thesis
    proof (cases b64err)
      case (Some e')
      then show ?thesis using assms None Inr b hb
        by (auto simp: chunk_step_def Let_def wrap_def)
    next
      case n: None
      then show ?thesis using assms None Inr b
        by (auto simp: chunk_step_def Let_def split: prod.splits)
    qed
  qed
qed

lemma chunk_step_Continue:
  assumes "chunk_step P p ctx opts bd td mb tr idx chunkPath logs w = Continue chunk logs' w2"
  shows "Index chunk = of_nat idx \<and>
         StartSeconds chunk = f64_of_int (of_nat idx * SegmentSeconds opts) \<and>
         AudioFile chunk = filepath_ToSlash P (filepath_Join P [''chunks'', filepath_Base P chunkPath]) \<and>
         wavDuration w chunkPath = Inr (DurationSeconds chunk) \<and>
         (\<exists>evs. history w2 = history w @ evs \<and> logs' = logs @ map exec_output evs \<and>
                length evs = (if tr then 1 else 0))"
proof -
  from assms have None: "ctx idx = None" by (auto simp: chunk_step_def split: option.splits)
  from assms None obtain duration where Inr: "wavDuration w chunkPath = Inr duration"
    by (cases "wavDuration w chunkPath") (auto simp: chunk_step_def)
  let ?base = "strings_TrimSuffix (filepath_Base P chunkPath) (filepath_Ext P chunkPath) @ ''.b64.txt''"
  let ?dst = "filepath_Join P [bd, ?base]"
  let ?c0 = "\<lparr>Index = of_nat idx,
                StartSeconds = f64_of_int (of_nat idx * SegmentSeconds opts),
                DurationSeconds = duration,
                AudioFile = filepath_ToSlash P (filepath_Join P [''chunks'', filepath_Base P chunkPath]),
                Base64File = [], TranscriptFile = [], TranscriptPreview = []\<rparr>"
  let ?c1 = "if mb then ?c0\<lparr>Base64File := filepath_ToSlash P (filepath_Join P [''base64'', ?base])\<rparr> else ?c0"
  obtain b64err wb where b: "(if mb then writeBase64File P w chunkPath ?dst else (None, w)) = (b64err, wb)"
    by (metis prod.exhaust)
  have hb: "history wb = history w"
    using b writeBase64File_history by (auto split: if_splits)
  from assms None Inr b have n: "b64err = None"
    by (cases b64err) (auto simp: chunk_step_def Let_def)
  from assms None Inr b n
  have t: "(if tr then transcribe_chunk P p td chunkPath ?c1 logs wb else (?c1, logs, wb)) = (chunk, logs', w2)"
    by (auto simp: chunk_step_def Let_def split: prod.splits)
  show ?thesis
  proof (cases tr)
    case True
    with t have "transcribe_chunk P p td chunkPath ?c1 logs wb = (chunk, logs', w2)" by simp
    from transcribe_chunk_props [OF this] hb Inr show ?thesis
      by (auto simp: True)
  next
    case False
    with t hb Inr show ?thesis by auto
  qed
qed

lemma process_chunks_logs:
  "process_chunks P p ctx opts bd td mb tr idx paths chunks logs w = ((r, err), w') \<Longrightarrow>
     \<exists>evs. history w' = history w @ evs \<and> Logs r = logs @ map exec_output evs"
proof (induction paths arbitrary: idx chunks logs w)
  case Nil
  then show ?case by auto
next
  case (Cons chunkPath rest)
  show ?case
  proof (cases "chunk_step P p ctx opts bd td mb tr idx chunkPath logs w")
    case (Stop e w1)
    with Cons.prems chunk_step_Stop [OF Stop] show ?thesis by auto
  next
    case (Continue chunk logs' w2)
    with Cons.prems have
      "process_chunks P p ctx opts bd td mb tr (Suc idx) rest (chunks @ [chunk]) logs' w2 = ((r, err), w')"
      by simp
    from Cons.IH [OF this] obtain evs where
      evs: "history w' = history w2 @ evs" "Logs r = logs' @ map exec_output evs" by blast
    from chunk_step_Continue [OF Continue] obtain evs0 where
      evs0: "history w2 = history w @ evs0" "logs' = logs @ map exec_output evs0" by blast
    have "history w' = history w @ (evs0 @ evs) \<and> Logs r = logs @ map exec_output (evs0 @ evs)"
      using evs evs0 by simp
    then show ?thesis by blast
  qed
qed

lemma process_chunks_failure:
  "process_chunks P p ctx opts bd td mb tr idx paths chunks logs w = ((r, Some e), w') \<Longrightarrow>
     Result_Chunks r = None \<and> error_text e \<noteq> []"
proof (induction paths arbitrary: idx chunks logs w)
  case Nil
  then show ?case by auto
next
  case (Cons chunkPath rest)
  show ?case
  proof (cases "chunk_step P p ctx opts bd td mb tr idx chunkPath logs w")
    case (Stop e' w1)
    with Cons.prems chunk_step_Stop [OF Stop] show ?thesis by auto
  next
    case (Continue chunk logs' w2)
    with Cons.prems have
      "process_chunks P p ctx opts bd td mb tr (Suc idx) rest (chunks @ [chunk]) logs' w2 = ((r, Some e), w')"
      by simp
    from Cons.IH [OF this] show ?thesis .
  qed
qed

lemma process_chunks_success:
  "process_chunks P p ctx opts bd td mb tr idx paths chunks logs w = ((r, None), w') \<Longrightarrow>
     \<exists>new. Result_Chunks r = Some (chunks @ new) \<and> length new = length paths \<and>
       (\<forall>i<length paths.
          Index (new ! i) = of_nat (idx + i) \<and>
          StartSeconds (new ! i) = f64_of_int (of_nat (idx + i) * SegmentSeconds opts) \<and>
          AudioFile (new ! i) =
            filepath_ToSlash P (filepath_Join P [''chunks'', filepath_Base P (paths ! i)]))"
proof (induction paths arbitrary: idx chunks logs w)
  case Nil
  then show ?case by auto
next
  case (Cons chunkPath rest)
  show ?case
  proof (cases "chunk_step P p ctx opts bd td mb tr idx chunkPath logs w")
    case (Stop e' w1)
    with Cons.prems show ?thesis by auto
  next
    case (Continue chunk logs' w2)
    with Cons.prems have
      "process_chunks P p ctx opts bd td mb tr (Suc idx) rest (chunks @ [chunk]) logs' w2 = ((r, None), w')"
      by simp
    from Cons.IH [OF this] obtain new where new:
      "Result_Chunks r = Some ((chunks @ [chunk]) @ new)" "length new = length rest"
      "\<forall>i<length rest.
          Index (new ! i) = of_nat (Suc idx + i) \<and>
          StartSeconds (new ! i) = f64_of_int (of_nat (Suc idx + i) * SegmentSeconds opts) \<and>
          AudioFile (new ! i) =
            filepath_ToSlash P (filepath_Join P [''chunks'', filepath_Base P (rest ! i)])"
      by blast
    note c = chunk_step_Continue [OF Continue]
    have "\<forall>i<length (chunkPath # rest).
          Index ((chunk # new) ! i) = of_nat (idx + i) \<and>
          StartSeconds ((chunk # new) ! i) = f64_of_int (of_nat (idx + i) * SegmentSeconds opts) \<and>
          AudioFile ((chunk # new) ! i) =
            filepath_ToSlash P (filepath_Join P [''chunks'', filepath_Base P ((chunkPath # rest) ! i)])"
    proof (intro allI impI)
      fix i assume i: "i < length (chunkPath # rest)"
      show "Index ((chunk # new) ! i) = of_nat (idx + i) \<and>
          StartSeconds ((chunk # new) ! i) = f64_of_int (of_nat (idx + i) * SegmentSeconds opts) \<and>
          AudioFile ((chunk # new) ! i) =
            filepath_ToSlash P (filepath_Join P [''chunks'', filepath_Base P ((chunkPath # rest) ! i)])"
      proof (cases i)
        case 0
        then show ?thesis using c by simp
      next
        case (Suc k)
        then have "k < length rest" using i by simp
        with new(3) Suc show ?thesis by simp
      qed
    qed
    moreover have "Result_Chunks r = Some (chunks @ (chunk # new))" using new(1) by simp
    moreover have "length (chunk # new) = length (chunkPath # rest)" using new(2) by simp
    ultimately show ?thesis by blast
  qed
qed

text \<open>The outcomes of \<open>Process\<close>, one case per return statement.\<close>

lemma Process_cases:
  assumes run: "Process P p ctx w jobDir inputPath opts = ((r, err), w')"
  obtains
    (early) e where "r = empty_Result" "err = Some e" "error_text e \<noteq> []" "w' = w"
  | (ffmpeg_failed) out e w1 where
      "runCommand P w (ffmpeg_bin p) (ffmpeg_args P jobDir inputPath opts) = ((out, Some e), w1)"
      "r = \<lparr>Result_Chunks = None, Logs = [out]\<rparr>" "err = Some (wrap ''running ffmpeg: '' e)" "w' = w1"
  | (no_chunks) out e w1 where
      "runCommand P w (ffmpeg_bin p) (ffmpeg_args P jobDir inputPath opts) = ((out, None), w1)"
      "r = \<lparr>Result_Chunks = None, Logs = [out]\<rparr>" "err = Some e" "error_text e \<noteq> []" "w' = w1"
  | (loop) out w1 found where
      "runCommand P w (ffmpeg_bin p) (ffmpeg_args P jobDir inputPath opts) = ((out, None), w1)"
      "glob P (globPattern P jobDir) (files w1) = Inr found" "sort found \<noteq> []"
      "process_chunks P p ctx opts (filepath_Join P [jobDir, ''base64''])
         (filepath_Join P [jobDir, ''transcripts''])
         (MakeBase64 opts) (Transcribe opts \<and> WhisperBin p \<noteq> []) 0 (sort found) [] [out] w1
       = ((r, err), w')"
proof (cases "lookPath P (ffmpeg_bin p)")
  case (Some e)
  with run have "r = empty_Result" "err = Some (wrap ''ffmpeg binary not found: '' e)" "w' = w"
    by (simp_all add: Process_def)
  then show ?thesis using early by (simp add: wrap_def)
next
  case lp: None
  show ?thesis
  proof (cases "make_dirs P [filepath_Join P [jobDir, ''chunks''], filepath_Join P [jobDir, ''base64''],
                   filepath_Join P [jobDir, ''transcripts'']]")
    case (Some e)
    with run lp have "r = empty_Result" "err = Some (wrap ''creating processing directory: '' e)" "w' = w"
      by (simp_all add: Process_def Let_def)
    then show ?thesis using early by (simp add: wrap_def)
  next
    case md: None
    obtain out ferr w1 where
      rc: "runCommand P w (ffmpeg_bin p) (ffmpeg_args P jobDir inputPath opts) = ((out, ferr), w1)"
      by (metis prod.exhaust)
    show ?thesis
    proof (cases ferr)
      case (Some e)
      with run lp md rc have "r = \<lparr>Result_Chunks = None, Logs = [out]\<rparr>"
          "err = Some (wrap ''running ffmpeg: '' e)" "w' = w1"
        by (simp_all add: Process_def Let_def)
      then show ?thesis using ffmpeg_failed rc Some by simp
    next
      case fe: None
      show ?thesis
      proof (cases "glob P (globPattern P jobDir) (files w1)")
        case (Inl e)
        with run lp md rc fe have "r = \<lparr>Result_Chunks = None, Logs = [out]\<rparr>"
            "err = Some (wrap ''locating chunks: '' e)" "w' = w1"
          by (simp_all add: Process_def Let_def)
        then show ?thesis using no_chunks [of out w1] rc fe by (simp add: wrap_def)
      next
        case (Inr found)
        show ?thesis
        proof (cases "sort found = []")
          case True
          with run lp md rc fe Inr have "r = \<lparr>Result_Chunks = None, Logs = [out]\<rparr>"
              "err = Some (Error ''no audio chunks produced'')" "w' = w1"
            by (simp_all add: Process_def Let_def)
          then show ?thesis using no_chunks [of out w1] rc fe by simp
        next
          case False
          with run lp md rc fe Inr have
            "process_chunks P p ctx opts (filepath_Join P [jobDir, ''base64''])
               (filepath_Join P [jobDir, ''transcripts''])
               (MakeBase64 opts) (Transcribe opts \<and> WhisperBin p \<noteq> []) 0 (sort found) [] [out] w1
             = ((r, err), w')"
            by (simp add: Process_def Let_def)
          then show ?thesis using loop rc fe Inr False by simp
        qed
      qed
    qed
  qed
qed

lemma Process_logs:
  assumes "Process P p ctx w jobDir inputPath opts = ((r, err), w')"
  shows "\<exists>evs. history w' = history w @ evs \<and> Logs r = map exec_output evs"
  using assms
proof (cases rule: Process_cases)
  case (early e)
  then show ?thesis by (simp add: empty_Result_def)
next
  case (ffmpeg_failed out e w1)
  from runCommand_history [OF ffmpeg_failed(1)] ffmpeg_failed(2,4) show ?thesis by simp
next
  case (no_chunks out e w1)
  from runCommand_history [OF no_chunks(1)] no_chunks(2,5) show ?thesis by simp
next
  case (loop out w1 found)
  from process_chunks_logs [OF loop(4)] obtain evs where
    "history w' = history w1 @ evs" "Logs r = [out] @ map exec_output evs" by blast
  with runCommand_history [OF loop(1)]
  have "history w' = history w @ (Exec (ffmpeg_bin p) (ffmpeg_args P jobDir inputPath opts) out # evs)
        \<and> Logs r = map exec_output (Exec (ffmpeg_bin p) (ffmpeg_args P jobDir inputPath opts) out # evs)"
    by simp
  then show ?thesis by blast
qed

lemma Process_failure:
  assumes "Process P p ctx w jobDir inputPath opts = ((r, Some e), w')"
  shows "Result_Chunks r = None \<and> error_text e \<noteq> []"
  using assms
proof (cases rule: Process_cases)
  case (early e)
  then show ?thesis by (simp add: empty_Result_def)
next
  case (ffmpeg_failed out e w1)
  then show ?thesis by (simp add: wrap_def)
next
  case (no_chunks out e w1)
  then show ?thesis by simp
next
  case (loop out w1 found)
  from process_chunks_failure [OF loop(4)] show ?thesis .
qed

lemma Process_success:
  assumes "Process P p ctx w jobDir inputPath opts = ((r, None), w')"
  shows "\<exists>found cs. discovered_chunks P p w jobDir inputPath opts = Inr found \<and> found \<noteq> [] \<and>
           Result_Chunks r = Some cs \<and> length cs = length found \<and>
           (\<forall>i<length cs.
              Index (cs ! i) = of_nat i \<and>
              StartSeconds (cs ! i) = f64_of_int (of_nat i * SegmentSeconds opts) \<and>
              AudioFile (cs ! i) =
                filepath_ToSlash P (filepath_Join P [''chunks'', filepath_Base P (sort found ! i)]))"
  using assms
proof (cases rule: Process_cases)
  case (loop out w1 found)
  from process_chunks_success [OF loop(4)] obtain cs where cs:
    "Result_Chunks r = Some cs" "length cs = length (sort found)"
    "\<forall>i<length (sort found).
          Index (cs ! i) = of_nat (0 + i) \<and>
          StartSeconds (cs ! i) = f64_of_int (of_nat (0 + i) * SegmentSeconds opts) \<and>
          AudioFile (cs ! i) =
            filepath_ToSlash P (filepath_Join P [''chunks'', filepath_Base P (sort found ! i)])"
    by auto
  have d: "discovered_chunks P p w jobDir inputPath opts = Inr found"
    using loop(1,2) by (simp add: discovered_chunks_def)
  have "found \<noteq> []" using loop(3) by auto
  with cs d show ?thesis by auto
qed simp_all

lemma sint_word_of_int_64:
  assumes "- (2 ^ 63) \<le> k" "k < 2 ^ 63"
  shows "sint (word_of_int k :: 64 word) = k"
proof -
  have "sint (word_of_int k :: 64 word) = (k + 2 ^ 63) mod 2 ^ 64 - 2 ^ 63"
    by (simp add: int_word_sint)
  also have "(k + 2 ^ 63) mod 2 ^ 64 = k + 2 ^ 63"
    using assms by (intro mod_pos_pos_trivial) simp_all
  finally show ?thesis by simp
qed

lemma start_offset_exact:
  fixes d :: go_int
  assumes "\<bar>int i * sint d\<bar> < 2 ^ 53"
  shows "f64_of_int (of_nat i * d) = Fin (of_int (int i * sint d))"
proof -
  have "(of_nat i * d :: 64 word) = word_of_int (int i) * word_of_int (sint d)" by simp
  also have "\<dots> = word_of_int (int i * sint d)" by (simp only: wi_hom_mult)
  finally have w: "(of_nat i * d :: 64 word) = word_of_int (int i * sint d)" .
  have "(2::int) ^ 53 < 2 ^ 63" by simp
  then have "- (2 ^ 63) \<le> int i * sint d" "int i * sint d < 2 ^ 63"
    using assms by linarith+
  then have "sint (of_nat i * d) = int i * sint d"
    unfolding w by (rule sint_word_of_int_64)
  then show ?thesis
    using f64_round_of_int [OF assms] by (simp add: f64_of_int_def)
qed

section \<open>The sample environment, evaluated\<close>

lemmas demo_defs = demo_platform_def demo_world_def demo_processor_def demo_options_def
  demo_join_def demo_base_def demo_ext_def demo_execute_def demo_glob_def

lemmas run_defs = chunk_step_def transcribe_chunk_def writeBase64File_def os_WriteFile_def
  wavDuration_def readPreview_def strings_TrimSuffix_def runCommand_def
  globPattern_def ffmpeg_bin_def Let_def

lemma decimal_numeral [simp]:
  "decimal (numeral k) =
     (if (numeral k :: nat) < 10 then [digit (numeral k)]
      else decimal (numeral k div 10) @ [digit (numeral k mod 10)])"
  by (rule decimal.simps)

lemma f64_of_int_0: "f64_of_int 0 = Fin 0"
  by (simp add: f64_of_int_def f64_round_def)

lemma f64_of_int_300: "f64_of_int 300 = Fin 300"
  using f64_round_of_int [of 300] by (simp add: f64_of_int_def)

lemma Itoa_300: "strconv_Itoa 300 = ''300''"
  by (simp add: strconv_Itoa_def digit_def)

lemma wav_riff: "wavDuration_file ''RIFF'' = Inl io_ErrUnexpectedEOF"
  by (simp add: wavDuration_file_def read_full_def)

lemma demo_run_ok:
  "fst (demo_run wav_mono16) =
     (\<lparr>Result_Chunks = Some [demo_chunk0, demo_chunk1],
       Logs = [''ffmpeg: 2 segments'', ''whisper: done'', ''whisper: done'']\<rparr>, None)"
  unfolding demo_run_def Process_def ffmpeg_args_def
  by (simp add: run_defs demo_defs context_Background_def wavDuration_mono16 f64_of_int_0
        f64_of_int_300 Itoa_300 demo_chunk0_def demo_chunk1_def)

lemma demo_run_broken:
  "fst (demo_run ''RIFF'') =
     (\<lparr>Result_Chunks = None, Logs = [''ffmpeg: 2 segments'', ''whisper: done'']\<rparr>,
      Some (Error ''determining chunk duration: unexpected EOF''))"
  unfolding demo_run_def Process_def ffmpeg_args_def
  by (simp add: run_defs demo_defs context_Background_def wavDuration_mono16 f64_of_int_0
        f64_of_int_300 Itoa_300 wav_riff io_ErrUnexpectedEOF_def wrap_def)

lemma demo_discovered:
  "discovered_chunks (demo_platform second []) demo_processor demo_world ''jobs/5-0007''
     ''jobs/5-0007/original/talk.mp4'' demo_options
   = Inr [''jobs/5-0007/chunks/chunk_001.wav'', ''jobs/5-0007/chunks/chunk_000.wav'']"
  unfolding discovered_chunks_def ffmpeg_args_def
  by (simp add: run_defs demo_defs Itoa_300)

text \<open>
  Claim C3. A successful run over the \<open>n\<close> chunk files it discovers returns \<open>n\<close> chunks;
  chunk \<open>i\<close> has index \<open>i\<close>, belongs to the \<open>i\<close>-th file in sorted order, and starts at
  \<open>float64(i * ChunkDurationSeconds)\<close>: the product of two \<open>int\<close>s, which wraps, converted
  to binary64, which rounds. That is the number \<open>i \<times> duration\<close> itself as long as the
  number is below \<open>2^53\<close> in absolute value; beyond that it need not be.
\<close>

theorem Process_chunk_sequence:
  assumes "Process P p ctx w jobDir inputPath opts = ((result, None), w')"
  shows "\<exists>found cs.
           discovered_chunks P p w jobDir inputPath opts = Inr found \<and>
           Result_Chunks result = Some cs \<and> length cs = length found \<and>
           (\<forall>i<length cs.
              Index (cs ! i) = of_nat i \<and>
              AudioFile (cs ! i) =
                filepath_ToSlash P (filepath_Join P [''chunks'', filepath_Base P (sort found ! i)]) \<and>
              StartSeconds (cs ! i) = f64_of_int (of_nat i * SegmentSeconds opts) \<and>
              (\<bar>int i * sint (SegmentSeconds opts)\<bar> < 2 ^ 53 \<longrightarrow>
                 StartSeconds (cs ! i) = Fin (of_int (int i * sint (SegmentSeconds opts)))))"
proof -
  from Process_success [OF assms] obtain found cs where f:
    "discovered_chunks P p w jobDir inputPath opts = Inr found"
    "Result_Chunks result = Some cs" "length cs = length found"
    "\<forall>i<length cs.
        Index (cs ! i) = of_nat i \<and>
        StartSeconds (cs ! i) = f64_of_int (of_nat i * SegmentSeconds opts) \<and>
        AudioFile (cs ! i) =
          filepath_ToSlash P (filepath_Join P [''chunks'', filepath_Base P (sort found ! i)])"
    by blast
  have "\<forall>i<length cs.
              Index (cs ! i) = of_nat i \<and>
              AudioFile (cs ! i) =
                filepath_ToSlash P (filepath_Join P [''chunks'', filepath_Base P (sort found ! i)]) \<and>
              StartSeconds (cs ! i) = f64_of_int (of_nat i * SegmentSeconds opts) \<and>
              (\<bar>int i * sint (SegmentSeconds opts)\<bar> < 2 ^ 53 \<longrightarrow>
                 StartSeconds (cs ! i) = Fin (of_int (int i * sint (SegmentSeconds opts))))"
    using f(4) start_offset_exact [of _ "SegmentSeconds opts"] by simp
  with f(1,2,3) show ?thesis by blast
qed

lemma demo_run_eq: "demo_run second = (fst (demo_run second), snd (demo_run second))"
  by simp

theorem Process_chunk_sequence_witness:
  "fst (demo_run wav_mono16) =
     (\<lparr>Result_Chunks = Some [demo_chunk0, demo_chunk1],
       Logs = [''ffmpeg: 2 segments'', ''whisper: done'', ''whisper: done'']\<rparr>, None) \<and>
   (\<exists>found cs.
      discovered_chunks (demo_platform wav_mono16 []) demo_processor demo_world ''jobs/5-0007''
        ''jobs/5-0007/original/talk.mp4'' demo_options = Inr found \<and>
      Some [demo_chunk0, demo_chunk1] = Some cs \<and> length cs = length found \<and>
      (\<forall>i<length cs.
         Index (cs ! i) = of_nat i \<and>
         AudioFile (cs ! i) = demo_join [''chunks'', demo_base (sort found ! i)] \<and>
         StartSeconds (cs ! i) = f64_of_int (of_nat i * 300) \<and>
         (\<bar>int i * 300\<bar> < 2 ^ 53 \<longrightarrow> StartSeconds (cs ! i) = Fin (of_int (int i * 300)))))"
proof -
  have run: "Process (demo_platform wav_mono16 []) demo_processor context_Background demo_world
       ''jobs/5-0007'' ''jobs/5-0007/original/talk.mp4'' demo_options =
     ((\<lparr>Result_Chunks = Some [demo_chunk0, demo_chunk1],
        Logs = [''ffmpeg: 2 segments'', ''whisper: done'', ''whisper: done'']\<rparr>, None),
      snd (demo_run wav_mono16))"
    using demo_run_ok demo_run_eq [of wav_mono16] by (simp add: demo_run_def)
  from Process_chunk_sequence [OF run] demo_run_ok show ?thesis
    by (simp add: demo_platform_def demo_options_def)
qed

text \<open>
  With segments of \<open>2^53 + 1\<close> seconds the run succeeds and the second chunk starts at
  \<open>2^53\<close>, not at \<open>1 \<times> (2^53 + 1)\<close>: the conversion to binary64 rounds.
\<close>

lemma f64_of_int_long: "f64_of_int 9007199254740993 = Fin 9007199254740992"
proof -
  have "f64_round 9007199254740993 = Fin 9007199254740992" by code_simp
  then show ?thesis by (simp add: f64_of_int_def)
qed

lemma Itoa_long: "strconv_Itoa 9007199254740993 = ''9007199254740993''"
  by (simp add: strconv_Itoa_def digit_def)

lemma demo_long_run_ok:
  "fst demo_long_run =
     (\<lparr>Result_Chunks =
         Some [demo_chunk0, demo_chunk1\<lparr>StartSeconds := Fin 9007199254740992\<rparr>],
       Logs = [''ffmpeg: 2 segments'', ''whisper: done'', ''whisper: done'']\<rparr>, None)"
  unfolding demo_long_run_def Process_def ffmpeg_args_def
  by (simp add: run_defs demo_defs context_Background_def wavDuration_mono16 f64_of_int_0
        f64_of_int_long Itoa_long demo_chunk0_def demo_chunk1_def demo_long_options_def)

theorem Process_chunk_sequence_counterexample:
  "fst demo_long_run =
     (\<lparr>Result_Chunks =
         Some [demo_chunk0, demo_chunk1\<lparr>StartSeconds := Fin 9007199254740992\<rparr>],
       Logs = [''ffmpeg: 2 segments'', ''whisper: done'', ''whisper: done'']\<rparr>, None) \<and>
   SegmentSeconds demo_long_options = 9007199254740993 \<and>
   StartSeconds (demo_chunk1\<lparr>StartSeconds := Fin 9007199254740992\<rparr>) \<noteq> Fin (1 * 9007199254740993)"
  using demo_long_run_ok by (simp add: demo_long_options_def)

section \<open>Properties of the job lifecycle coordinator\<close>

lemma os_WriteFile_history: "history (snd (os_WriteFile P w p data)) = history w"
  by (auto simp: os_WriteFile_def split: option.splits prod.splits)

lemma os_Rename_history: "history (snd (os_Rename P w old new)) = history w"
  by (auto simp: os_Rename_def split: option.splits sum.splits)

lemma SaveJob_history: "history (snd (SaveJob P w jobDir job)) = history w"
proof (cases "mkdirAll P jobDir")
  case (Some e)
  then show ?thesis by (simp add: SaveJob_def)
next
  case md: None
  show ?thesis
  proof (cases "marshal_Job P job")
    case (Inl e)
    then show ?thesis using md by (simp add: SaveJob_def)
  next
    case (Inr doc)
    let ?tmp = "filepath_Join P [jobDir, jobFileName @ ''.tmp'']"
    obtain e1 w1 where wf: "os_WriteFile P w ?tmp (json_text P doc) = (e1, w1)" by (metis prod.exhaust)
    have h1: "history w1 = history w" using os_WriteFile_history [of P w ?tmp "json_text P doc"] wf by simp
    show ?thesis
    proof (cases e1)
      case (Some e)
      then show ?thesis using md Inr wf h1 by (simp add: SaveJob_def Let_def)
    next
      case None
      obtain e2 w2 where rn: "os_Rename P w1 ?tmp (filepath_Join P [jobDir, jobFileName]) = (e2, w2)"
        by (metis prod.exhaust)
      have h2: "history w2 = history w1"
        using os_Rename_history [of P w1 ?tmp "filepath_Join P [jobDir, jobFileName]"] rn by simp
      show ?thesis using md Inr wf None rn h1 h2
        by (cases e2) (simp_all add: SaveJob_def Let_def)
    qed
  qed
qed

text \<open>\<open>processJob\<close>, by the outcome of the pipeline.\<close>

lemma processJob_outcome:
  "\<exists>w2.
    Process P (processor s) context_Background (snd (SaveJob P w jobDir (begin_processing job)))
       jobDir originalPath opts = (pipeline_outcome P s w job jobDir originalPath opts, w2) \<and>
    fst (processJob P s w job jobDir originalPath opts) =
       finish_processing (begin_processing job)
         (fst (pipeline_outcome P s w job jobDir originalPath opts))
         (snd (pipeline_outcome P s w job jobDir originalPath opts)) (clock P (ticks w2)) \<and>
    history (snd (snd (processJob P s w job jobDir originalPath opts))) = history w2"
proof -
  let ?job1 = "begin_processing job"
  obtain e1 w1 where s1: "SaveJob P w jobDir ?job1 = (e1, w1)" by (metis prod.exhaust)
  obtain r err w2 where pr: "Process P (processor s) context_Background w1 jobDir originalPath opts
      = ((r, err), w2)" by (metis prod.exhaust)
  let ?job2 = "finish_processing ?job1 r err (clock P (ticks w2))"
  obtain e2 w4 where s2: "SaveJob P (w2\<lparr>ticks := Suc (ticks w2)\<rparr>) jobDir ?job2 = (e2, w4)"
    by (metis prod.exhaust)
  have po: "pipeline_outcome P s w job jobDir originalPath opts = (r, err)"
    using s1 pr by (simp add: pipeline_outcome_def)
  have pj: "processJob P s w job jobDir originalPath opts =
          (?job2, s\<lparr>jobsInFlight := (jobsInFlight s)(ID ?job2 := None)\<rparr>, w4)"
    using s1 pr s2 by (simp add: processJob_def Let_def time_Now_def)
  have h: "history w4 = history w2"
    using SaveJob_history [of P "w2\<lparr>ticks := Suc (ticks w2)\<rparr>" jobDir ?job2] s2 by simp
  show ?thesis
    using s1 pr po pj h by simp
qed

lemma processJob_new_events:
  "\<exists>evs. new_events w (snd (snd (processJob P s w job jobDir originalPath opts))) = evs \<and>
         Logs (fst (pipeline_outcome P s w job jobDir originalPath opts)) = map exec_output evs"
proof -
  define w' where "w' = snd (snd (processJob P s w job jobDir originalPath opts))"
  from processJob_outcome [of P s w jobDir job originalPath opts] obtain w2 where full:
    "Process P (processor s) context_Background (snd (SaveJob P w jobDir (begin_processing job)))
       jobDir originalPath opts = (pipeline_outcome P s w job jobDir originalPath opts, w2) \<and>
     fst (processJob P s w job jobDir originalPath opts) =
       finish_processing (begin_processing job)
         (fst (pipeline_outcome P s w job jobDir originalPath opts))
         (snd (pipeline_outcome P s w job jobDir originalPath opts)) (clock P (ticks w2)) \<and>
     history (snd (snd (processJob P s w job jobDir originalPath opts))) = history w2" ..
  have o:
    "Process P (processor s) context_Background (snd (SaveJob P w jobDir (begin_processing job)))
       jobDir originalPath opts = (pipeline_outcome P s w job jobDir originalPath opts, w2)"
    "snd (snd (processJob P s w job jobDir originalPath opts)) = w'"
    "history w' = history w2"
    using full unfolding w'_def by (rule conjunct1, simp, rule conjunct2 [OF conjunct2])
  obtain r err where re: "pipeline_outcome P s w job jobDir originalPath opts = (r, err)"
    by (metis prod.exhaust)
  from Process_logs [OF o(1) [unfolded re]] obtain evs where
    "history w2 = history (snd (SaveJob P w jobDir (begin_processing job))) @ evs"
    "Logs r = map exec_output evs" by blast
  then have "new_events w w' = evs \<and> Logs r = map exec_output evs"
    using o(3) SaveJob_history [of P w jobDir "begin_processing job"]
    by (simp add: new_events_def)
  then show ?thesis using o(2) re by simp
qed

text \<open>
  Claim C8, as amended. The processing log of a job is the captured outputs of the
  external commands its run made (the transcoder, then one transcription per chunk
  reached), one entry each, joined by the delimiter; when the job failed, one further
  entry follows them: the error text.
\<close>

theorem processJob_log_entries:
  "ProcessingLog (fst (processJob P s w job jobDir originalPath opts)) =
     strings_Join
       (map exec_output (new_events w (snd (snd (processJob P s w job jobDir originalPath opts))))
        @ (if Status (fst (processJob P s w job jobDir originalPath opts)) = JobStatusFailed
           then [ErrorMessage (fst (processJob P s w job jobDir originalPath opts))] else []))
       log_delimiter"
proof -
  from processJob_outcome [of P s w jobDir job originalPath opts] obtain w2 where full:
    "Process P (processor s) context_Background (snd (SaveJob P w jobDir (begin_processing job)))
       jobDir originalPath opts = (pipeline_outcome P s w job jobDir originalPath opts, w2) \<and>
     fst (processJob P s w job jobDir originalPath opts) =
       finish_processing (begin_processing job)
         (fst (pipeline_outcome P s w job jobDir originalPath opts))
         (snd (pipeline_outcome P s w job jobDir originalPath opts)) (clock P (ticks w2)) \<and>
     history (snd (snd (processJob P s w job jobDir originalPath opts))) = history w2" ..
  have o:
    "fst (processJob P s w job jobDir originalPath opts) =
       finish_processing (begin_processing job)
         (fst (pipeline_outcome P s w job jobDir originalPath opts))
         (snd (pipeline_outcome P s w job jobDir originalPath opts)) (clock P (ticks w2))"
    using full by (rule conjunct1 [OF conjunct2])
  from processJob_new_events [of w P s job jobDir originalPath opts]
  have l: "Logs (fst (pipeline_outcome P s w job jobDir originalPath opts)) =
           map exec_output (new_events w (snd (snd (processJob P s w job jobDir originalPath opts))))"
    by simp
  show ?thesis
    unfolding o
    by (cases "snd (pipeline_outcome P s w job jobDir originalPath opts)")
       (simp_all add: finish_processing_def l JobStatusFailed_def JobStatusCompleted_def)
qed

lemmas save_defs = SaveJob_def marshal_Job_def marshal_Chunks_def marshal_Chunk_def marshal_time_def
  marshal_string_def marshal_int_def marshal_float_def omitempty_def and_then_def os_Rename_def
  jobFileName_def demo_text_def

lemmas job_defs = processJob_def begin_processing_def finish_processing_def time_Now_def
  log_delimiter_def JobStatusFailed_def JobStatusCompleted_def JobStatusProcessing_def
  JobStatusPending_def

lemma demo_failed:
  "fst (demo_processJob ''RIFF'') = demo_failed_job"
  unfolding demo_processJob_def processJob_def Process_def ffmpeg_args_def
  by (simp add: run_defs demo_defs save_defs job_defs demo_server_def demo_job_def
        context_Background_def wavDuration_mono16 f64_of_int_0
        f64_of_int_300 Itoa_300 wav_riff io_ErrUnexpectedEOF_def wrap_def demo_failed_job_def
        split: prod.splits)

lemma demo_failed_events:
  "map exec_output (new_events (demo_world\<lparr>ticks := 3\<rparr>) (snd (snd (demo_processJob ''RIFF'')))) =
     [''ffmpeg: 2 segments'', ''whisper: done'']"
  unfolding demo_processJob_def processJob_def Process_def ffmpeg_args_def new_events_def
  by (simp add: run_defs demo_defs save_defs job_defs demo_server_def demo_job_def
        context_Background_def wavDuration_mono16 f64_of_int_0
        f64_of_int_300 Itoa_300 wav_riff io_ErrUnexpectedEOF_def wrap_def
        split: prod.splits)

lemma demo_failed_outcome:
  "pipeline_outcome (demo_platform ''RIFF'' []) demo_server (demo_world\<lparr>ticks := 3\<rparr>) demo_job
     ''jobs/5-0007'' ''jobs/5-0007/original/talk.mp4'' demo_options =
   (\<lparr>Result_Chunks = None, Logs = [''ffmpeg: 2 segments'', ''whisper: done'']\<rparr>,
    Some (Error ''determining chunk duration: unexpected EOF''))"
  unfolding pipeline_outcome_def Process_def ffmpeg_args_def
  by (simp add: run_defs demo_defs save_defs job_defs demo_server_def demo_job_def
        context_Background_def wavDuration_mono16 f64_of_int_0
        f64_of_int_300 Itoa_300 wav_riff io_ErrUnexpectedEOF_def wrap_def
        split: prod.splits)

lemma demo_first_chunk:
  "step_chunk (chunk_step (demo_platform ''RIFF'' []) demo_processor context_Background demo_options
      ''jobs/5-0007/base64'' ''jobs/5-0007/transcripts'' True True 0
      ''jobs/5-0007/chunks/chunk_000.wav'' [''ffmpeg: 2 segments''] (demo_loop_world ''RIFF''))
   = Some demo_chunk0"
  unfolding demo_loop_world_def ffmpeg_args_def
  by (simp add: run_defs demo_defs save_defs job_defs demo_job_def
        context_Background_def wavDuration_mono16 f64_of_int_0 Itoa_300 demo_chunk0_def
        split: prod.splits)

text \<open>
  Claim C1, as amended. When the pipeline returns an error, at whatever point, the job
  ends in \<open>failed\<close> with a completion time and the error's text as its non-empty error
  message, and its chunk sequence is empty: \<open>Process\<close> returns no chunks with an error.
\<close>

theorem processJob_failure:
  assumes "snd (pipeline_outcome P s w job jobDir originalPath opts) = Some e"
  shows "Status (fst (processJob P s w job jobDir originalPath opts)) = JobStatusFailed \<and>
         CompletedAt (fst (processJob P s w job jobDir originalPath opts)) \<noteq> None \<and>
         ErrorMessage (fst (processJob P s w job jobDir originalPath opts)) = error_text e \<and>
         ErrorMessage (fst (processJob P s w job jobDir originalPath opts)) \<noteq> [] \<and>
         Chunks (fst (processJob P s w job jobDir originalPath opts)) = None \<and>
         chunk_seq (fst (processJob P s w job jobDir originalPath opts)) = []"
proof -
  from processJob_outcome [of P s w jobDir job originalPath opts] obtain w2 where full:
    "Process P (processor s) context_Background (snd (SaveJob P w jobDir (begin_processing job)))
       jobDir originalPath opts = (pipeline_outcome P s w job jobDir originalPath opts, w2) \<and>
     fst (processJob P s w job jobDir originalPath opts) =
       finish_processing (begin_processing job)
         (fst (pipeline_outcome P s w job jobDir originalPath opts))
         (snd (pipeline_outcome P s w job jobDir originalPath opts)) (clock P (ticks w2)) \<and>
     history (snd (snd (processJob P s w job jobDir originalPath opts))) = history w2" ..
  obtain r where r: "pipeline_outcome P s w job jobDir originalPath opts = (r, Some e)"
    using assms by (cases "pipeline_outcome P s w job jobDir originalPath opts") simp
  have run: "Process P (processor s) context_Background (snd (SaveJob P w jobDir (begin_processing job)))
       jobDir originalPath opts = ((r, Some e), w2)"
    using full r by simp
  have job: "fst (processJob P s w job jobDir originalPath opts) =
       finish_processing (begin_processing job) r (Some e) (clock P (ticks w2))"
    using full r by simp
  from Process_failure [OF run] show ?thesis
    unfolding job by (simp add: finish_processing_def chunk_seq_def)
qed

text \<open>The sample run that fails at its second chunk is such a run.\<close>

theorem processJob_failure_witness:
  "snd (pipeline_outcome (demo_platform ''RIFF'' []) demo_server (demo_world\<lparr>ticks := 3\<rparr>) demo_job
     ''jobs/5-0007'' ''jobs/5-0007/original/talk.mp4'' demo_options) =
     Some (Error ''determining chunk duration: unexpected EOF'') \<and>
   Status (fst (demo_processJob ''RIFF'')) = JobStatusFailed \<and>
   CompletedAt (fst (demo_processJob ''RIFF'')) \<noteq> None \<and>
   ErrorMessage (fst (demo_processJob ''RIFF'')) = ''determining chunk duration: unexpected EOF'' \<and>
   Chunks (fst (demo_processJob ''RIFF'')) = None"
proof -
  have h: "snd (pipeline_outcome (demo_platform ''RIFF'' []) demo_server (demo_world\<lparr>ticks := 3\<rparr>)
     demo_job ''jobs/5-0007'' ''jobs/5-0007/original/talk.mp4'' demo_options) =
     Some (Error ''determining chunk duration: unexpected EOF'')"
    by (simp add: demo_failed_outcome)
  from processJob_failure [OF h] h show ?thesis
    by (simp add: demo_processJob_def)
qed

text \<open>
  Claim C1 as stated fails. In the sample run the first chunk is processed in full (the
  loop body returns it, and its transcription is in the logs), the second chunk has no
  readable header, and the failed job keeps no chunk at all.
\<close>

theorem processJob_failure_counterexample:
  "step_chunk (chunk_step (demo_platform ''RIFF'' []) demo_processor context_Background demo_options
      ''jobs/5-0007/base64'' ''jobs/5-0007/transcripts'' True True 0
      ''jobs/5-0007/chunks/chunk_000.wav'' [''ffmpeg: 2 segments''] (demo_loop_world ''RIFF''))
     = Some demo_chunk0 \<and>
   pipeline_outcome (demo_platform ''RIFF'' []) demo_server (demo_world\<lparr>ticks := 3\<rparr>) demo_job
     ''jobs/5-0007'' ''jobs/5-0007/original/talk.mp4'' demo_options =
     (\<lparr>Result_Chunks = None, Logs = [''ffmpeg: 2 segments'', ''whisper: done'']\<rparr>,
      Some (Error ''determining chunk duration: unexpected EOF'')) \<and>
   Status (fst (demo_processJob ''RIFF'')) = JobStatusFailed \<and>
   Chunks (fst (demo_processJob ''RIFF'')) = None \<and>
   demo_chunk0 \<notin> set (chunk_seq (fst (demo_processJob ''RIFF'')))"
  using demo_first_chunk demo_failed_outcome
  by (simp add: demo_failed demo_failed_job_def chunk_seq_def)

text \<open>
  Claim C8 as stated fails for a job that fails: the same run made two external
  invocations, and its log has a third entry, the error text.
\<close>

theorem processJob_log_entries_counterexample:
  "map exec_output (new_events (demo_world\<lparr>ticks := 3\<rparr>) (snd (snd (demo_processJob ''RIFF'')))) =
     [''ffmpeg: 2 segments'', ''whisper: done''] \<and>
   ProcessingLog (fst (demo_processJob ''RIFF'')) =
     strings_Join [''ffmpeg: 2 segments'', ''whisper: done'',
       ''determining chunk duration: unexpected EOF''] log_delimiter \<and>
   ProcessingLog (fst (demo_processJob ''RIFF'')) \<noteq>
     strings_Join [''ffmpeg: 2 segments'', ''whisper: done''] log_delimiter"
  using demo_failed_events
  by (simp add: demo_failed demo_failed_job_def log_delimiter_def)

section \<open>Properties of the handlers\<close>

lemma escape_busy:
  "url_QueryEscape ''Unable to delete while processing'' = ''Unable+to+delete+while+processing''"
  by (simp add: unreserved_def)

text \<open>
  Claim C9. A deletion request for a job whose ID is in the in-flight registry leaves
  the world as it is, so no file of the job directory is removed or changed, and the
  request (a POST) is answered with the \<open>Busy\<close> signal.
\<close>

theorem handleJobDelete_in_flight:
  assumes "jobsInFlight s jobID \<noteq> None"
  shows "snd (handleJobDelete P s w r jobID) = w \<and>
         (Method r = ''POST'' \<longrightarrow> fst (handleJobDelete P s w r jobID) = Busy)"
  using assms unfolding handleJobDelete_def escape_busy Busy_def by simp

theorem handleJobDelete_in_flight_witness:
  "jobsInFlight demo_busy_server ''5-0007'' \<noteq> None \<and>
   snd (handleJobDelete (demo_platform wav_mono16 []) demo_busy_server demo_world demo_request ''5-0007'')
     = demo_world \<and>
   Method demo_request = ''POST'' \<and>
   fst (handleJobDelete (demo_platform wav_mono16 []) demo_busy_server demo_world demo_request
          ''5-0007'') = Busy"
proof -
  have h: "jobsInFlight demo_busy_server ''5-0007'' \<noteq> None"
    by (simp add: demo_busy_server_def)
  have m: "Method demo_request = ''POST''"
    by (simp add: demo_request_def)
  from handleJobDelete_in_flight [OF h] h m show ?thesis by blast
qed

lemma handleUpload_task:
  assumes "snd (snd (snd (handleUpload P s w r))) = Some (job, jobDir, originalPath, opts)"
  shows "Status job = JobStatusPending \<and> CompletedAt job = None \<and> ErrorMessage job = [] \<and>
         Chunks job = None \<and> jobsInFlight (fst (snd (handleUpload P s w r))) (ID job) = Some job"
proof -
  from assms have m: "Method r = ''POST''"
    by (auto simp: handleUpload_def split: if_splits)
  from assms m have ff: "form_fault r = None"
    by (cases "form_fault r") (auto simp: handleUpload_def)
  from assms m ff obtain filename content where f: "form_file r = Some (filename, content)"
    by (cases "form_file r") (auto simp: handleUpload_def)
  obtain jobID w1 where id: "newJobID P w = (jobID, w1)" by (metis prod.exhaust)
  let ?jobDir = "JobDir P (jobsDir s) jobID"
  let ?orig = "filepath_Join P [?jobDir, ''original'', filename]"
  from assms m ff f id have e: "EnsureJobSubdirs P ?jobDir [''original'', ''chunks'', ''base64'', ''transcripts''] = None"
    by (cases "EnsureJobSubdirs P ?jobDir [''original'', ''chunks'', ''base64'', ''transcripts'']")
       (auto simp: handleUpload_def Let_def)
  from assms m ff f id e have c: "create_fault P ?orig = None"
    by (cases "create_fault P ?orig") (auto simp: handleUpload_def Let_def)
  obtain we w2 where wf: "os_WriteFile P w1 ?orig content = (we, w2)" by (metis prod.exhaust)
  from assms m ff f id e c wf have we: "we = None"
    by (cases we) (auto simp: handleUpload_def Let_def)
  let ?job = "\<lparr>ID = jobID, OriginalFileName = filename,
               OriginalVideoPath = filepath_ToSlash P (filepath_Join P [''original'', filename]),
               CreatedAt = clock P (ticks w2), CompletedAt = None,
               ChunkDurationSeconds = resolveChunkDuration P r (defaultChunk s),
               TranscriptionRequested = (form_value r ''transcribe'' = ''on''),
               Status = JobStatusPending, ErrorMessage = [], Chunks = None, ProcessingLog = []\<rparr>"
  obtain se w4 where sv: "SaveJob P (w2\<lparr>ticks := Suc (ticks w2)\<rparr>) ?jobDir ?job = (se, w4)"
    by (metis prod.exhaust)
  from assms m ff f id e c wf we sv have se: "se = None"
    by (cases se) (auto simp: handleUpload_def Let_def time_Now_def)
  from m ff f id e c wf we sv se have
    "handleUpload P s w r =
       (Redirect (''/jobs/'' @ jobID) StatusSeeOther,
        s\<lparr>jobsInFlight := (jobsInFlight s)(jobID \<mapsto> ?job)\<rparr>, w4,
        Some (?job, ?jobDir, ?orig,
              \<lparr>SegmentSeconds = resolveChunkDuration P r (defaultChunk s),
               MakeBase64 = makeBase64 s,
               Transcribe = (form_value r ''transcribe'' = ''on'')\<rparr>))"
    by (simp add: handleUpload_def Let_def time_Now_def)
  with assms show ?thesis by auto
qed

lemma processJob_final:
  "\<exists>t. fst (processJob P s w job jobDir originalPath opts) =
         finish_processing (begin_processing job)
           (fst (pipeline_outcome P s w job jobDir originalPath opts))
           (snd (pipeline_outcome P s w job jobDir originalPath opts)) t"
proof -
  from processJob_outcome [of P s w jobDir job originalPath opts] obtain w2 where full:
    "Process P (processor s) context_Background (snd (SaveJob P w jobDir (begin_processing job)))
       jobDir originalPath opts = (pipeline_outcome P s w job jobDir originalPath opts, w2) \<and>
     fst (processJob P s w job jobDir originalPath opts) =
       finish_processing (begin_processing job)
         (fst (pipeline_outcome P s w job jobDir originalPath opts))
         (snd (pipeline_outcome P s w job jobDir originalPath opts)) (clock P (ticks w2)) \<and>
     history (snd (snd (processJob P s w job jobDir originalPath opts))) = history w2" ..
  then show ?thesis by blast
qed

lemma finish_processing_invariant: "job_invariant (finish_processing job r err t)"
  by (cases err)
     (simp_all add: job_invariant_def finish_processing_def IsDone_def JobStatusFailed_def
        JobStatusCompleted_def)

text \<open>
  Claim C4. The job an upload creates (in \<open>pending\<close>), the job \<open>processJob\<close> saves when
  it turns it to \<open>processing\<close>, and the job it saves at the end all satisfy the invariant:
  a completion time exactly when the status is \<open>completed\<close> or \<open>failed\<close>, an error
  message only when it is \<open>failed\<close>. The background task may run in any later state
  of the server and the world.
\<close>

theorem lifecycle_job_invariant:
  assumes "snd (snd (snd (handleUpload P s w r))) = Some (job, jobDir, originalPath, opts)"
  shows "job_invariant job \<and> job_invariant (begin_processing job) \<and>
         job_invariant (fst (processJob P s' w' job jobDir originalPath opts))"
proof -
  from handleUpload_task [OF assms]
  have j: "Status job = JobStatusPending" "CompletedAt job = None" "ErrorMessage job = []"
    by simp_all
  have 1: "job_invariant job"
    using j by (simp add: job_invariant_def IsDone_def JobStatusPending_def
                  JobStatusCompleted_def JobStatusFailed_def)
  have 2: "job_invariant (begin_processing job)"
    using j by (simp add: job_invariant_def IsDone_def begin_processing_def
                  JobStatusProcessing_def JobStatusCompleted_def JobStatusFailed_def)
  from processJob_final [of P s' w' job jobDir originalPath opts] obtain t where
    "fst (processJob P s' w' job jobDir originalPath opts) =
       finish_processing (begin_processing job)
         (fst (pipeline_outcome P s' w' job jobDir originalPath opts))
         (snd (pipeline_outcome P s' w' job jobDir originalPath opts)) t" ..
  then have 3: "job_invariant (fst (processJob P s' w' job jobDir originalPath opts))"
    by (simp only: finish_processing_invariant)
  from 1 2 3 show ?thesis by blast
qed

lemma pad4_7: "pad4 7 = ''0007''"
  by (simp add: pad4_def digit_def numeral_3_eq_3)

lemma demo_upload:
  "snd (snd (snd (handleUpload (demo_platform wav_mono16 []) demo_server demo_world demo_request))) =
     Some (demo_job, ''jobs/5-0007'', ''jobs/5-0007/original/talk.mp4'', demo_options)"
  unfolding handleUpload_def
  by (simp add: demo_defs demo_server_def demo_request_def demo_job_def newJobID_def time_Now_def
        pad4_7 digit_def JobDir_def os_WriteFile_def os_Rename_def SaveJob_def marshal_Job_def
        marshal_Chunks_def marshal_time_def marshal_string_def marshal_int_def omitempty_def
        and_then_def jobFileName_def demo_text_def resolveChunkDuration_def Let_def
        split: prod.splits)

theorem lifecycle_job_invariant_witness:
  "snd (snd (snd (handleUpload (demo_platform wav_mono16 []) demo_server demo_world demo_request))) =
     Some (demo_job, ''jobs/5-0007'', ''jobs/5-0007/original/talk.mp4'', demo_options) \<and>
   job_invariant demo_job \<and> job_invariant (begin_processing demo_job) \<and>
   job_invariant (fst (demo_processJob wav_mono16))"
  using lifecycle_job_invariant [OF demo_upload, of demo_server "demo_world\<lparr>ticks := 3\<rparr>"]
        demo_upload
  unfolding demo_processJob_def by (simp only: simp_thms)

section \<open>Persistence: what is written is what is read\<close>

subsection \<open>Decoding what the encoder wrote\<close>

lemma fold_err_append:
  "fold_err f (xs @ ys) a = and_then (fold_err f xs a) (fold_err f ys)"
  by (induction xs arbitrary: a) (auto simp: and_then_def split: sum.splits)

lemma and_then_Inr [simp]: "and_then (Inr x) f = f x"
  by (simp add: and_then_def)

lemma and_then_Inl [simp]: "and_then (Inl e) f = Inl e"
  by (simp add: and_then_def)

lemma signed_64_id: "word_of_int (sint (x :: 64 word)) = x"
  by simp

lemma unmarshal_int_literal:
  "- (2 ^ 63) \<le> k \<Longrightarrow> k < 2 ^ 63 \<Longrightarrow> unmarshal_int (JNum (of_int k)) cur = Inr (word_of_int k)"
  by simp

lemma unmarshal_marshal_int: "unmarshal_int (marshal_int x) cur = Inr x"
proof -
  define k where "k = sint x"
  have "- (2 ^ 63) \<le> k" "k < 2 ^ 63"
    using sint_ge [of x] sint_lt [of x] by (simp_all add: k_def)
  then have "unmarshal_int (JNum (of_int k)) cur = Inr (word_of_int k)"
    by (rule unmarshal_int_literal)
  moreover have "word_of_int k = x" by (simp add: k_def)
  ultimately show ?thesis unfolding marshal_int_def k_def by (simp only:)
qed

text \<open>The decimal the encoder writes for a binary64 value reads back as that value.\<close>

lemma shortest_at_reads:
  assumes "shortest_at x n = Some c"
  shows "f64_round c = Fin x"
  using assms unfolding shortest_at_def Let_def
  by (auto split: if_splits)

lemma shortest_search_reads:
  assumes "f64_round x = Fin x"
  shows "f64_round (shortest_search x ns) = Fin x"
  using assms
  by (induction ns) (auto simp: shortest_at_reads split: option.splits)

lemma shortest_decimal_reads:
  assumes "f64_round x = Fin x"
  shows "f64_round (shortest_decimal x) = Fin x"
  using assms by (auto simp: shortest_decimal_def shortest_search_reads)

text \<open>
  Seventeen digits are enough: the search finds a decimal for every binary64 value
  but zero, and never comes to its last case.
\<close>

lemma decimal_digits_bounds:
  "0 < n \<Longrightarrow>
     1 \<le> decimal_digits n \<and> 10 ^ nat (decimal_digits n - 1) \<le> n \<and> n < 10 ^ nat (decimal_digits n)"
proof (induction n rule: decimal_digits.induct)
  case (1 n)
  show ?case
  proof (cases "n < 10")
    case True
    then have "n div 10 = 0" using "1.prems" by simp
    then have "decimal_digits n = 1"
      using "1.prems" by (simp add: decimal_digits.simps [of n] decimal_digits.simps [of 0])
    then show ?thesis using True "1.prems" by simp
  next
    case False
    then have p: "0 < n div 10" by simp
    define d where "d = decimal_digits (n div 10)"
    from "1.IH" [OF _ p] "1.prems" have
      ih: "1 \<le> d" "10 ^ nat (d - 1) \<le> n div 10" "n div 10 < 10 ^ nat d"
      by (simp_all add: d_def)
    have dn: "decimal_digits n = 1 + d"
      using "1.prems" by (simp add: decimal_digits.simps [of n] d_def)
    have s: "nat d = Suc (nat (d - 1))" using ih(1) by simp
    have "(10::int) ^ nat d = 10 * 10 ^ nat (d - 1)" by (simp only: s power_Suc)
    also have "\<dots> \<le> 10 * (n div 10)" using ih(2) by simp
    also have "\<dots> \<le> n" by simp
    finally have lo: "10 ^ nat d \<le> n" .
    have "n div 10 + 1 \<le> 10 ^ nat d" using ih(3) by simp
    then have "10 * (n div 10 + 1) \<le> 10 * 10 ^ nat d" by simp
    moreover have "n < 10 * (n div 10 + 1)" by simp
    ultimately have "n < 10 * 10 ^ nat d" by simp
    moreover have "nat (1 + d) = Suc (nat d)" using ih(1) by simp
    ultimately have hi: "n < 10 ^ nat (1 + d)" by simp
    show ?thesis using ih(1) lo hi by (simp add: dn)
  qed
qed

text \<open>\<open>decade x\<close> is the decimal exponent of \<open>x\<close>.\<close>

lemma decade_bounds:
  assumes "0 < x"
  shows "10 powi (decade x) \<le> x" and "x < 10 powi (decade x + 1)"
proof -
  have "10 powi (decade x) \<le> x \<and> x < 10 powi (decade x + 1)"
  proof (cases "1 \<le> x")
    case True
    define n where "n = \<lfloor>x\<rfloor>"
    define d where "d = decimal_digits n"
    have n: "0 < n" using True by (simp add: n_def)
    from decimal_digits_bounds [OF n] have
      b: "1 \<le> d" "10 ^ nat (d - 1) \<le> n" "n < 10 ^ nat d" by (simp_all add: d_def)
    have dec: "decade x = d - 1" using True by (simp add: decade_def d_def n_def)
    have "(10::rat) powi (d - 1) = 10 ^ nat (d - 1)" using b(1) by (intro powi_nat) simp
    also have "\<dots> = of_int (10 ^ nat (d - 1))" by simp
    also have "\<dots> \<le> of_int n" using b(2) by (simp only: of_int_le_iff)
    also have "\<dots> \<le> x" by (simp add: n_def)
    finally have lo: "10 powi (d - 1) \<le> x" .
    have "n + 1 \<le> 10 ^ nat d" using b(3) by simp
    then have "(of_int (n + 1) :: rat) \<le> of_int (10 ^ nat d)" by (simp only: of_int_le_iff)
    moreover have "x < of_int (n + 1)" unfolding n_def by linarith
    ultimately have "x < of_int (10 ^ nat d)" by simp
    also have "\<dots> = 10 ^ nat d" by simp
    also have "\<dots> = 10 powi d" using b(1) by (intro powi_nat [symmetric]) simp
    finally have hi: "x < 10 powi (d - 1 + 1)" by simp
    from lo hi show ?thesis by (simp only: dec)
  next
    case False
    define y where "y = 1 / x"
    define k where "k = \<lceil>y\<rceil> - 1"
    define d where "d = decimal_digits k"
    have y1: "1 < y" using False assms by (simp add: y_def)
    then have "1 < \<lceil>y\<rceil>" by (simp add: less_ceiling_iff)
    then have k: "0 < k" by (simp add: k_def)
    from decimal_digits_bounds [OF k] have
      b: "1 \<le> d" "10 ^ nat (d - 1) \<le> k" "k < 10 ^ nat d" by (simp_all add: d_def)
    have dec: "decade x = - d" using False by (simp add: decade_def d_def k_def y_def)
    have x: "x = 1 / y" using assms by (simp add: y_def)
    have ypos: "0 < y" using y1 by simp
    have "\<lceil>y\<rceil> \<le> 10 ^ nat d" using b(3) by (simp add: k_def)
    then have "y \<le> of_int (10 ^ nat d)" by (simp only: ceiling_le_iff)
    then have yhi: "y \<le> 10 ^ nat d" by simp
    have "(10::rat) powi (- d) = 1 / 10 powi d" by (simp add: power_int_minus field_simps)
    also have "\<dots> = 1 / 10 ^ nat d" using b(1) by (simp add: powi_nat)
    also have "\<dots> \<le> 1 / y" using yhi ypos by (simp add: frac_le)
    finally have lo: "10 powi (- d) \<le> x" by (simp add: x)
    have ky: "of_int k < y" unfolding k_def by linarith
    have "(of_int (10 ^ nat (d - 1)) :: rat) \<le> of_int k"
      using b(2) by (simp only: of_int_le_iff)
    then have "(10 ^ nat (d - 1) :: rat) \<le> of_int k" by simp
    then have ylo: "10 ^ nat (d - 1) < y" using ky by (rule le_less_trans)
    have "x < 1 / 10 ^ nat (d - 1)" unfolding x using ylo ypos by (simp add: frac_less2)
    also have "\<dots> = 1 / 10 powi (d - 1)" using b(1) by (simp add: powi_nat)
    also have "\<dots> = 10 powi (- (d - 1))" by (simp only: power_int_minus inverse_eq_divide)
    also have "- (d - 1) = - d + 1" by simp
    finally have hi: "x < 10 powi (- d + 1)" .
    from lo hi show ?thesis by (simp only: dec)
  qed
  then show "10 powi (decade x) \<le> x" and "x < 10 powi (decade x + 1)" by simp_all
qed

lemma seventeen_digits:
  assumes rx: "f64_round x = Fin x" and x0: "x \<noteq> 0"
  shows "shortest_at x 17 \<noteq> None"
proof -
  define unit :: rat where "unit = 10 powi (decade \<bar>x\<bar> + 1 - int 17)"
  define q where "q = x / unit"
  have ax: "0 < \<bar>x\<bar>" using x0 by simp
  have unit: "0 < unit" by (simp add: unit_def)
  have "decade \<bar>x\<bar> + 1 - int 17 = decade \<bar>x\<bar> - 16" by simp
  moreover have "(10::rat) powi (decade \<bar>x\<bar> - 16) = 10 powi (decade \<bar>x\<bar>) / 10 powi 16"
    by (rule power_int_diff) simp
  ultimately have "unit = 10 powi (decade \<bar>x\<bar>) / 10 ^ 16" by (simp add: unit_def)
  also have "\<dots> \<le> \<bar>x\<bar> / 10 ^ 16"
    using decade_bounds(1) [OF ax] by (simp add: divide_right_mono)
  finally have small: "unit * 10 ^ 16 \<le> \<bar>x\<bar>" by simp
  have "(2::rat) ^ 53 < 10 ^ 16" by simp
  then have "unit * 2 ^ 53 < unit * 10 ^ 16" using unit by (simp only: mult_less_cancel_left_pos)
  then have half: "unit / 2 * 2 ^ 54 < \<bar>x\<bar>" using small by simp
  have xq: "x = q * unit" using unit by (simp add: q_def)
  have near: "\<bar>c - x\<bar> \<le> unit / 2 \<Longrightarrow> f64_round c = Fin x" for c
  proof -
    assume "\<bar>c - x\<bar> \<le> unit / 2"
    then have "\<bar>c - x\<bar> * 2 ^ 54 \<le> unit / 2 * 2 ^ 54" by (simp only: mult_le_cancel_right_pos zero_less_power zero_less_numeral)
    then have "\<bar>c - x\<bar> * 2 ^ 54 < \<bar>x\<bar>" using half by (rule le_less_trans)
    with rx x0 show ?thesis by (rule f64_round_near)
  qed
  have "f64_round (of_int \<lfloor>q\<rfloor> * unit) = Fin x \<or> f64_round (of_int \<lceil>q\<rceil> * unit) = Fin x"
  proof (cases "q - of_int \<lfloor>q\<rfloor> \<le> 1 / 2")
    case True
    have "of_int \<lfloor>q\<rfloor> * unit - x = (of_int \<lfloor>q\<rfloor> - q) * unit" by (simp add: xq algebra_simps)
    moreover have "\<bar>(of_int \<lfloor>q\<rfloor> - q) * unit\<bar> = (q - of_int \<lfloor>q\<rfloor>) * unit"
      using unit of_int_floor_le [of q] by (simp add: abs_mult)
    moreover have "(q - of_int \<lfloor>q\<rfloor>) * unit \<le> 1 / 2 * unit"
      using True unit by (simp only: mult_le_cancel_right_pos)
    ultimately have "\<bar>of_int \<lfloor>q\<rfloor> * unit - x\<bar> \<le> unit / 2" by simp
    then show ?thesis using near by blast
  next
    case False
    then have nz: "q \<noteq> of_int \<lfloor>q\<rfloor>" by auto
    then have c: "\<lceil>q\<rceil> = \<lfloor>q\<rfloor> + 1" by (simp add: ceiling_altdef)
    have "of_int \<lceil>q\<rceil> * unit - x = (of_int \<lceil>q\<rceil> - q) * unit" by (simp add: xq algebra_simps)
    moreover have "\<bar>(of_int \<lceil>q\<rceil> - q) * unit\<bar> = (of_int \<lceil>q\<rceil> - q) * unit"
      using unit le_of_int_ceiling [of q] by (simp add: abs_mult)
    moreover have "of_int \<lceil>q\<rceil> - q \<le> 1 / 2" using False by (simp add: c)
    then have "(of_int \<lceil>q\<rceil> - q) * unit \<le> 1 / 2 * unit"
      using unit by (simp only: mult_le_cancel_right_pos)
    ultimately have "\<bar>of_int \<lceil>q\<rceil> * unit - x\<bar> \<le> unit / 2" by simp
    then show ?thesis using near by blast
  qed
  then show ?thesis
    unfolding shortest_at_def Let_def unit_def [symmetric] q_def [symmetric]
    by (auto split: if_splits)
qed

lemma shortest_search_found:
  assumes "n \<in> set ns" and "shortest_at x n \<noteq> None"
  shows "\<exists>k\<in>set ns. shortest_at x k = Some (shortest_search x ns)"
  using assms by (induction ns) (auto split: option.splits)

text \<open>The decimal written for a binary64 value is one of at most seventeen digits.\<close>

lemma shortest_decimal_found:
  assumes "f64_round x = Fin x" and "x \<noteq> 0"
  shows "\<exists>n\<in>{1..17}. shortest_at x n = Some (shortest_decimal x)"
proof -
  have "(17::nat) \<in> set [1..<18]" by simp
  from shortest_search_found [OF this seventeen_digits [OF assms]]
  show ?thesis using assms(2) by (auto simp: shortest_decimal_def)
qed

lemma unmarshal_marshal_float:
  assumes "valid_float f"
  shows "\<exists>v. marshal_float f = Inr v \<and> unmarshal_float v cur = Inr f"
  using assms
  by (cases f) (simp_all add: valid_float_def marshal_float_def shortest_decimal_reads)

lemma unmarshal_marshal_time:
  assumes "valid_time P t"
  shows "\<exists>v. marshal_time P t = Inr v \<and> unmarshal_time P v cur = Inr t \<and> v \<noteq> JNull"
  using assms by (auto simp: valid_time_def marshal_time_def split: sum.splits)

lemma unmarshal_marshal_string:
  assumes "valid_string P s"
  shows "unmarshal_string (marshal_string P s) cur = Inr s"
  using assms by (simp add: valid_string_def marshal_string_def)

lemma find_field_exact: "key \<in> set names \<Longrightarrow> find_field P names key = Some key"
  by (simp add: find_field_def)

lemma Chunk_dispatch:
  "set_Chunk_field P c (''index'', v) =
     and_then (unmarshal_int v (Index c)) (\<lambda>x. Inr (c\<lparr>Index := x\<rparr>))"
  "set_Chunk_field P c (''startSeconds'', v) =
     and_then (unmarshal_float v (StartSeconds c)) (\<lambda>x. Inr (c\<lparr>StartSeconds := x\<rparr>))"
  "set_Chunk_field P c (''durationSeconds'', v) =
     and_then (unmarshal_float v (DurationSeconds c)) (\<lambda>x. Inr (c\<lparr>DurationSeconds := x\<rparr>))"
  "set_Chunk_field P c (''audioFile'', v) =
     and_then (unmarshal_string v (AudioFile c)) (\<lambda>x. Inr (c\<lparr>AudioFile := x\<rparr>))"
  "set_Chunk_field P c (''base64File'', v) =
     and_then (unmarshal_string v (Base64File c)) (\<lambda>x. Inr (c\<lparr>Base64File := x\<rparr>))"
  "set_Chunk_field P c (''transcriptFile'', v) =
     and_then (unmarshal_string v (TranscriptFile c)) (\<lambda>x. Inr (c\<lparr>TranscriptFile := x\<rparr>))"
  "set_Chunk_field P c (''transcriptPreview'', v) =
     and_then (unmarshal_string v (TranscriptPreview c)) (\<lambda>x. Inr (c\<lparr>TranscriptPreview := x\<rparr>))"
  by (simp_all add: set_Chunk_field_def find_field_def Chunk_tags_def)

lemma Chunk_omitted:
  assumes "valid_string P s"
  shows "Base64File c = [] \<Longrightarrow>
           fold_err (set_Chunk_field P) (omitempty P ''base64File'' s) c = Inr (c\<lparr>Base64File := s\<rparr>)"
    and "TranscriptFile c = [] \<Longrightarrow>
           fold_err (set_Chunk_field P) (omitempty P ''transcriptFile'' s) c = Inr (c\<lparr>TranscriptFile := s\<rparr>)"
    and "TranscriptPreview c = [] \<Longrightarrow>
           fold_err (set_Chunk_field P) (omitempty P ''transcriptPreview'' s) c
             = Inr (c\<lparr>TranscriptPreview := s\<rparr>)"
  using unmarshal_marshal_string [OF assms]
  by (auto simp: omitempty_def Chunk_dispatch)

lemma unmarshal_marshal_Chunk:
  assumes "valid_Chunk P c"
  shows "\<exists>doc. marshal_Chunk P c = Inr doc \<and> unmarshal_Chunk P doc zero_Chunk = Inr c"
proof -
  from assms have v: "valid_float (StartSeconds c)" "valid_float (DurationSeconds c)"
    "valid_string P (AudioFile c)" "valid_string P (Base64File c)"
    "valid_string P (TranscriptFile c)" "valid_string P (TranscriptPreview c)"
    by (simp_all add: valid_Chunk_def)
  from unmarshal_marshal_float [OF v(1)] obtain vs where
    vs: "marshal_float (StartSeconds c) = Inr vs" "\<And>cur. unmarshal_float vs cur = Inr (StartSeconds c)"
    by (cases "StartSeconds c") (auto simp: marshal_float_def valid_float_def)
  from unmarshal_marshal_float [OF v(2)] obtain vd where
    vd: "marshal_float (DurationSeconds c) = Inr vd" "\<And>cur. unmarshal_float vd cur = Inr (DurationSeconds c)"
    by (cases "DurationSeconds c") (auto simp: marshal_float_def valid_float_def)
  let ?head = "[(''index'', marshal_int (Index c)), (''startSeconds'', vs),
                (''durationSeconds'', vd), (''audioFile'', marshal_string P (AudioFile c))]"
  let ?c4 = "zero_Chunk\<lparr>Index := Index c, StartSeconds := StartSeconds c,
               DurationSeconds := DurationSeconds c, AudioFile := AudioFile c\<rparr>"
  have m: "marshal_Chunk P c = Inr (JObj (?head @ omitempty P ''base64File'' (Base64File c)
                  @ omitempty P ''transcriptFile'' (TranscriptFile c)
                  @ omitempty P ''transcriptPreview'' (TranscriptPreview c)))"
    by (simp add: marshal_Chunk_def vs(1) vd(1))
  have h: "fold_err (set_Chunk_field P) ?head zero_Chunk = Inr ?c4"
    by (simp add: Chunk_dispatch unmarshal_marshal_int vs(2) vd(2)
          unmarshal_marshal_string [OF v(3)])
  have z: "Base64File zero_Chunk = []" "TranscriptFile zero_Chunk = []"
    "TranscriptPreview zero_Chunk = []"
    by (simp_all add: zero_Chunk_def)
  have "fold_err (set_Chunk_field P)
          (?head @ omitempty P ''base64File'' (Base64File c)
                  @ omitempty P ''transcriptFile'' (TranscriptFile c)
                  @ omitempty P ''transcriptPreview'' (TranscriptPreview c)) zero_Chunk
        = Inr (?c4\<lparr>Base64File := Base64File c, TranscriptFile := TranscriptFile c,
                     TranscriptPreview := TranscriptPreview c\<rparr>)"
    unfolding fold_err_append h
    by (simp add: Chunk_omitted [OF v(4)] Chunk_omitted [OF v(5)] Chunk_omitted [OF v(6)] z)
  also have "?c4\<lparr>Base64File := Base64File c, TranscriptFile := TranscriptFile c,
                     TranscriptPreview := TranscriptPreview c\<rparr> = c"
    by (simp add: zero_Chunk_def)
  finally show ?thesis using m by simp
qed

lemma unmarshal_marshal_elements:
  assumes "list_all (valid_Chunk P) cs"
  shows "\<exists>vs. marshal_list (marshal_Chunk P) cs = Inr vs \<and> unmarshal_elements P vs [] = Inr cs"
  using assms
proof (induction cs)
  case Nil
  show ?case by simp
next
  case (Cons c cs)
  from Cons.prems have "valid_Chunk P c" and "list_all (valid_Chunk P) cs" by simp_all
  from unmarshal_marshal_Chunk [OF this(1)] obtain doc where
    doc: "marshal_Chunk P c = Inr doc" "unmarshal_Chunk P doc zero_Chunk = Inr c" by blast
  from Cons.IH [OF \<open>list_all (valid_Chunk P) cs\<close>] obtain vs where
    vs: "marshal_list (marshal_Chunk P) cs = Inr vs" "unmarshal_elements P vs [] = Inr cs" by blast
  show ?case by (simp add: doc vs)
qed

lemma unmarshal_marshal_Chunks:
  assumes "list_all (valid_Chunk P) (case cs of None \<Rightarrow> [] | Some xs \<Rightarrow> xs)"
  shows "\<exists>v. marshal_Chunks P cs = Inr v \<and> unmarshal_Chunks P v None = Inr cs"
proof (cases cs)
  case None
  then show ?thesis by (simp add: marshal_Chunks_def)
next
  case (Some xs)
  with assms have "list_all (valid_Chunk P) xs" by simp
  from unmarshal_marshal_elements [OF this] obtain vs where
    "marshal_list (marshal_Chunk P) xs = Inr vs" "unmarshal_elements P vs [] = Inr xs" by blast
  then show ?thesis by (simp add: marshal_Chunks_def Some)
qed

lemma Job_dispatch:
  "set_Job_field P j (''id'', v) =
     and_then (unmarshal_string v (ID j)) (\<lambda>x. Inr (j\<lparr>ID := x\<rparr>))"
  "set_Job_field P j (''originalFileName'', v) =
     and_then (unmarshal_string v (OriginalFileName j)) (\<lambda>x. Inr (j\<lparr>OriginalFileName := x\<rparr>))"
  "set_Job_field P j (''originalVideoPath'', v) =
     and_then (unmarshal_string v (OriginalVideoPath j)) (\<lambda>x. Inr (j\<lparr>OriginalVideoPath := x\<rparr>))"
  "set_Job_field P j (''createdAt'', v) =
     and_then (unmarshal_time P v (CreatedAt j)) (\<lambda>x. Inr (j\<lparr>CreatedAt := x\<rparr>))"
  "set_Job_field P j (''completedAt'', v) =
     and_then (unmarshal_time_ptr P v (CompletedAt j)) (\<lambda>x. Inr (j\<lparr>CompletedAt := x\<rparr>))"
  "set_Job_field P j (''chunkDurationSeconds'', v) =
     and_then (unmarshal_int v (ChunkDurationSeconds j))
       (\<lambda>x. Inr (j\<lparr>ChunkDurationSeconds := x\<rparr>))"
  "set_Job_field P j (''transcriptionRequested'', v) =
     and_then (unmarshal_bool v (TranscriptionRequested j))
       (\<lambda>x. Inr (j\<lparr>TranscriptionRequested := x\<rparr>))"
  "set_Job_field P j (''status'', v) =
     and_then (unmarshal_string v (Status j)) (\<lambda>x. Inr (j\<lparr>Status := x\<rparr>))"
  "set_Job_field P j (''errorMessage'', v) =
     and_then (unmarshal_string v (ErrorMessage j)) (\<lambda>x. Inr (j\<lparr>ErrorMessage := x\<rparr>))"
  "set_Job_field P j (''chunks'', v) =
     and_then (unmarshal_Chunks P v (Chunks j)) (\<lambda>x. Inr (j\<lparr>Chunks := x\<rparr>))"
  "set_Job_field P j (''processingLog'', v) =
     and_then (unmarshal_string v (ProcessingLog j)) (\<lambda>x. Inr (j\<lparr>ProcessingLog := x\<rparr>))"
  by (simp_all add: set_Job_field_def find_field_def Job_tags_def)

lemma Job_omitted:
  assumes "valid_string P s"
  shows "ErrorMessage j = [] \<Longrightarrow>
           fold_err (set_Job_field P) (omitempty P ''errorMessage'' s) j = Inr (j\<lparr>ErrorMessage := s\<rparr>)"
    and "ProcessingLog j = [] \<Longrightarrow>
           fold_err (set_Job_field P) (omitempty P ''processingLog'' s) j
             = Inr (j\<lparr>ProcessingLog := s\<rparr>)"
  using unmarshal_marshal_string [OF assms]
  by (auto simp: omitempty_def Job_dispatch)

lemma Job_completed:
  assumes "case t of None \<Rightarrow> True | Some x \<Rightarrow> valid_time P x" and "CompletedAt j = None"
  shows "\<exists>ms. (case t of None \<Rightarrow> Inr []
                | Some x \<Rightarrow> and_then (marshal_time P x) (\<lambda>v. Inr [(''completedAt'', v)])) = Inr ms
           \<and> fold_err (set_Job_field P) ms j = Inr (j\<lparr>CompletedAt := t\<rparr>)"
proof (cases t)
  case None
  then show ?thesis using assms(2) by simp
next
  case (Some x)
  with assms(1) have "valid_time P x" by simp
  then obtain s where s: "time_MarshalJSON P x = Inr s" "time_UnmarshalJSON P s = Inr x"
    by (auto simp: valid_time_def split: sum.splits)
  show ?thesis
    by (simp add: Some marshal_time_def s Job_dispatch assms(2))
qed

lemma unmarshal_marshal_Job:
  assumes "valid_Job P job"
  shows "\<exists>doc. marshal_Job P job = Inr doc \<and> unmarshal_Job P doc zero_Job = Inr job"
proof -
  let ?F = "set_Job_field P"
  from assms have v: "valid_string P (ID job)" "valid_string P (OriginalFileName job)"
    "valid_string P (OriginalVideoPath job)" "valid_string P (Status job)"
    "valid_string P (ErrorMessage job)" "valid_string P (ProcessingLog job)"
    and vt: "valid_time P (CreatedAt job)"
    and vc: "case CompletedAt job of None \<Rightarrow> True | Some t \<Rightarrow> valid_time P t"
    and vs: "list_all (valid_Chunk P) (case Chunks job of None \<Rightarrow> [] | Some xs \<Rightarrow> xs)"
    by (simp_all add: valid_Job_def chunk_seq_def)
  from vt obtain s where s: "time_MarshalJSON P (CreatedAt job) = Inr s"
    "time_UnmarshalJSON P s = Inr (CreatedAt job)"
    by (auto simp: valid_time_def split: sum.splits)
  let ?head = "[(''id'', marshal_string P (ID job)),
                (''originalFileName'', marshal_string P (OriginalFileName job)),
                (''originalVideoPath'', marshal_string P (OriginalVideoPath job)),
                (''createdAt'', JStr s)]"
  let ?j1 = "zero_Job\<lparr>ID := ID job, OriginalFileName := OriginalFileName job,
               OriginalVideoPath := OriginalVideoPath job, CreatedAt := CreatedAt job\<rparr>"
  have z: "CompletedAt zero_Job = None" "ErrorMessage zero_Job = []" "Chunks zero_Job = None"
    "ProcessingLog zero_Job = []"
    by (simp_all add: zero_Job_def)
  have h1: "fold_err ?F ?head zero_Job = Inr ?j1"
    by (simp add: Job_dispatch unmarshal_marshal_string [OF v(1)]
          unmarshal_marshal_string [OF v(2)] unmarshal_marshal_string [OF v(3)] s(2))
  have "CompletedAt ?j1 = None" by (simp add: z)
  from Job_completed [OF vc this] obtain ms where
    ms: "(case CompletedAt job of None \<Rightarrow> Inr []
          | Some x \<Rightarrow> and_then (marshal_time P x) (\<lambda>v. Inr [(''completedAt'', v)])) = Inr ms"
    and h2: "fold_err ?F ms ?j1 = Inr (?j1\<lparr>CompletedAt := CompletedAt job\<rparr>)"
    by blast
  let ?j2 = "?j1\<lparr>CompletedAt := CompletedAt job\<rparr>"
  let ?mid = "[(''chunkDurationSeconds'', marshal_int (ChunkDurationSeconds job)),
               (''transcriptionRequested'', JBool (TranscriptionRequested job)),
               (''status'', marshal_string P (Status job))]"
  let ?j3 = "?j2\<lparr>ChunkDurationSeconds := ChunkDurationSeconds job,
               TranscriptionRequested := TranscriptionRequested job, Status := Status job\<rparr>"
  have h3: "fold_err ?F ?mid ?j2 = Inr ?j3"
    by (simp add: Job_dispatch unmarshal_marshal_int unmarshal_marshal_string [OF v(4)])
  let ?j4 = "?j3\<lparr>ErrorMessage := ErrorMessage job\<rparr>"
  have h4: "fold_err ?F (omitempty P ''errorMessage'' (ErrorMessage job)) ?j3 = Inr ?j4"
    by (rule Job_omitted(1) [OF v(5)]) (simp add: z)
  from unmarshal_marshal_Chunks [OF vs] obtain cv where
    cv: "marshal_Chunks P (Chunks job) = Inr cv" "unmarshal_Chunks P cv None = Inr (Chunks job)"
    by blast
  let ?j5 = "?j4\<lparr>Chunks := Chunks job\<rparr>"
  have h5: "fold_err ?F [(''chunks'', cv)] ?j4 = Inr ?j5"
    by (simp add: Job_dispatch z cv(2))
  let ?j6 = "?j5\<lparr>ProcessingLog := ProcessingLog job\<rparr>"
  have h6: "fold_err ?F (omitempty P ''processingLog'' (ProcessingLog job)) ?j5 = Inr ?j6"
    by (rule Job_omitted(2) [OF v(6)]) (simp add: z)
  let ?ms = "?head @ ms @ ?mid @ omitempty P ''errorMessage'' (ErrorMessage job)
               @ [(''chunks'', cv)] @ omitempty P ''processingLog'' (ProcessingLog job)"
  have m: "marshal_Job P job = Inr (JObj ?ms)"
    unfolding marshal_Job_def by (simp add: marshal_time_def s(1) ms cv(1))
  have "fold_err ?F ?ms zero_Job = Inr ?j6"
    unfolding fold_err_append h1 and_then_Inr h2 h3 h4 h5 h6 ..
  moreover have "?j6 = job"
    by (simp add: zero_Job_def)
  ultimately show ?thesis using m by simp
qed

subsection \<open>Saving, then loading\<close>

text \<open>
  Claim C5. For a valid \<open>Job\<close> (strings in valid UTF-8, floats that are finite
  binary64 values, times that RFC 3339 can write), where the job directory can be made
  and the file written and renamed, and where the text layer reads back the document it
  wrote, \<open>SaveJob\<close> succeeds and \<open>LoadJob\<close> from the same directory, in the world
  \<open>SaveJob\<close> leaves, gives the same job: every field, and so the whole record, is
  equal. A float is written as its shortest decimal (\<open>0.1\<close>, not the binary value) and
  read by rounding the decimal: that this gives the float back is proved, not assumed.
\<close>

theorem SaveJob_LoadJob_round_trip:
  assumes "valid_Job P job" and "can_save P jobDir job"
  shows "fst (SaveJob P w jobDir job) = None \<and>
         LoadJob P (snd (SaveJob P w jobDir job)) jobDir = Inr job"
proof -
  from unmarshal_marshal_Job [OF assms(1)] obtain doc where
    doc: "marshal_Job P job = Inr doc" "unmarshal_Job P doc zero_Job = Inr job" by blast
  let ?tmp = "filepath_Join P [jobDir, jobFileName @ ''.tmp'']"
  let ?final = "filepath_Join P [jobDir, jobFileName]"
  from assms(2) doc(1) have ok: "mkdirAll P jobDir = None" "create_fault P ?tmp = None"
    "write_fault P ?tmp (json_text P doc) = None" "rename_fault P ?tmp ?final = None"
    "json_parse P (json_text P doc) = Inr doc"
    by (simp_all add: can_save_def)
  let ?w2 = "w\<lparr>files := (files w)(?tmp := Inr (json_text P doc), ?tmp := Inl (no_such_file ?tmp),
                 ?final := Inr (json_text P doc))\<rparr>"
  have save: "SaveJob P w jobDir job = (None, ?w2)"
    by (simp add: SaveJob_def doc(1) ok os_WriteFile_def os_Rename_def Let_def)
  have "LoadJob P ?w2 jobDir = Inr job"
    by (simp add: LoadJob_def ok(5) doc(2))
  with save show ?thesis by simp
qed

text \<open>The floats of the sample job, as they are written and read.\<close>

lemma f64_round_0: "f64_round 0 = Fin 0"
  by (simp add: f64_round_def)

lemma floor_rat_numeral: "\<lfloor>numeral a / numeral b :: rat\<rfloor> = numeral a div numeral b"
  using floor_divide_of_int_eq [of "numeral a" "numeral b", where ?'a = rat] by simp

lemma ceiling_rat_numeral: "\<lceil>numeral a / numeral b :: rat\<rceil> = - (- numeral a div numeral b)"
  using floor_divide_of_int_eq [of "- numeral a" "numeral b", where ?'a = rat]
  by (simp add: ceiling_def)

lemma shortest_decimal_first:
  assumes "x \<noteq> 0" and "shortest_at x 1 = Some c"
  shows "shortest_decimal x = c"
  using assms by (simp add: shortest_decimal_def upt_conv_Cons)

lemma tenth_read: "f64_round (1 / 10) = Fin (3602879701896397 / 36028797018963968)"
  by code_simp

lemma tenth_kept:
  "f64_round (3602879701896397 / 36028797018963968) = Fin (3602879701896397 / 36028797018963968)"
  by code_simp

lemma tenth_written: "shortest_decimal (3602879701896397 / 36028797018963968) = 1 / 10"
  by (rule shortest_decimal_first)
     (simp_all add: shortest_at_def decade_def decimal_digits.simps Let_def tenth_read f64_round_0
        floor_rat_numeral ceiling_rat_numeral)

lemma one_written: "shortest_decimal 1 = 1"
  using f64_round_of_int [of 1]
  by (intro shortest_decimal_first)
     (simp_all add: shortest_at_def decade_def decimal_digits.simps Let_def)

lemma three_hundred_written: "shortest_decimal 300 = 300"
  using f64_round_of_int [of 300]
  by (intro shortest_decimal_first)
     (simp_all add: shortest_at_def decade_def decimal_digits.simps Let_def)

lemma demo_done_valid: "valid_Job demo_store demo_done_job"
  using f64_round_of_int [of 0] f64_round_of_int [of 1] f64_round_of_int [of 300] tenth_kept
  by (simp add: valid_Job_def valid_Chunk_def valid_string_def valid_float_def valid_time_def
        chunk_seq_def demo_store_def demo_platform_def demo_done_job_def demo_chunk0_def
        demo_chunk1_def demo_short_chunk_def demo_parse_time_def digit_def)

lemma demo_done_marshal: "marshal_Job demo_store demo_done_job = Inr demo_done_doc"
  by (simp add: marshal_Job_def marshal_Chunks_def marshal_Chunk_def marshal_time_def
        marshal_string_def marshal_int_def marshal_float_def omitempty_def
        demo_store_def demo_platform_def demo_done_job_def demo_chunk0_def
        demo_chunk1_def demo_short_chunk_def demo_done_doc_def demo_chunk_doc_def digit_def
        JobStatusCompleted_def shortest_decimal_def [of 0] one_written three_hundred_written
        tenth_written)

lemma demo_done_can_save: "can_save demo_store ''jobs/5-0007'' demo_done_job"
  unfolding can_save_def demo_done_marshal
  by (simp add: demo_store_def demo_platform_def demo_text_def demo_parse_def)

theorem SaveJob_LoadJob_round_trip_witness:
  "valid_Job demo_store demo_done_job \<and> can_save demo_store ''jobs/5-0007'' demo_done_job \<and>
   fst (SaveJob demo_store demo_world ''jobs/5-0007'' demo_done_job) = None \<and>
   LoadJob demo_store (snd (SaveJob demo_store demo_world ''jobs/5-0007'' demo_done_job))
     ''jobs/5-0007'' = Inr demo_done_job"
  using SaveJob_LoadJob_round_trip [OF demo_done_valid demo_done_can_save, of demo_world]
    demo_done_valid demo_done_can_save
  by simp

subsection \<open>Listing\<close>

lemma load_entries_loadable: "load_entries P w jobsRoot entries = loadable P w jobsRoot entries"
  by (induction entries) (auto simp: loadable_def split: sum.splits)

lemma sort_newest_first_mset: "mset (sort_newest_first jobs) = mset jobs"
  by (simp add: sort_newest_first_def)

lemma sort_newest_first_sorted: "newest_first (sort_newest_first jobs)"
proof -
  have "sorted (map (\<lambda>j. - CreatedAt j) (sort_key (\<lambda>j. - CreatedAt j) jobs))"
    by (rule sorted_sort_key)
  then show ?thesis
    by (simp add: sorted_map newest_first_def sort_newest_first_def)
qed

text \<open>
  Claim C6. When the jobs root does not exist, \<open>ListJobs\<close> returns the empty list and
  no error. When the root can be read, \<open>ListJobs\<close> returns a list and no error, whatever
  the entries hold: the jobs are exactly those of the entries that are directories and
  load (an entry that is a file, or a directory whose job does not load, is passed
  over), each as often as it is listed, ordered by creation time, newest first.
\<close>

theorem ListJobs_listing:
  "(readDir P jobsRoot (files w) = Inl (ErrNotExist m) \<longrightarrow> ListJobs P w jobsRoot = Inr []) \<and>
   (readDir P jobsRoot (files w) = Inr entries \<longrightarrow>
      (\<exists>jobs. ListJobs P w jobsRoot = Inr jobs \<and>
              mset jobs = mset (loadable P w jobsRoot entries) \<and> newest_first jobs))"
  by (simp add: ListJobs_def load_entries_loadable sort_newest_first_mset
        sort_newest_first_sorted)

lemma demo_shelf_entries:
  "readDir demo_shelf ''jobs'' (files demo_shelf_world) =
     Inr [(''j1'', True), (''j2'', True), (''junk'', True), (''notes.txt'', False)]"
  by (simp add: demo_shelf_def demo_platform_def demo_readDir_def)

lemma demo_shelf_missing:
  "readDir demo_shelf ''nowhere'' (files demo_shelf_world) =
     Inl (ErrNotExist ''open nowhere: no such file or directory'')"
  by (simp add: demo_shelf_def demo_platform_def demo_readDir_def no_such_file_def)

lemma demo_shelf_loadable:
  "loadable demo_shelf demo_shelf_world ''jobs''
     [(''j1'', True), (''j2'', True), (''junk'', True), (''notes.txt'', False)] =
   [demo_listed ''j1'' 3, demo_listed ''j2'' 9]"
  by (simp add: loadable_def LoadJob_def demo_shelf_def demo_platform_def demo_shelf_world_def
        demo_join_def jobFileName_def demo_parse_def demo_listed_def Job_dispatch
        demo_parse_time_def)

lemma demo_shelf_listed:
  "ListJobs demo_shelf demo_shelf_world ''jobs'' = Inr [demo_listed ''j2'' 9, demo_listed ''j1'' 3]"
  by (simp add: ListJobs_def demo_shelf_entries load_entries_loadable demo_shelf_loadable
        sort_newest_first_def demo_listed_def)

theorem ListJobs_listing_witness:
  "readDir demo_shelf ''nowhere'' (files demo_shelf_world) =
     Inl (ErrNotExist ''open nowhere: no such file or directory'') \<and>
   ListJobs demo_shelf demo_shelf_world ''nowhere'' = Inr [] \<and>
   readDir demo_shelf ''jobs'' (files demo_shelf_world) =
     Inr [(''j1'', True), (''j2'', True), (''junk'', True), (''notes.txt'', False)] \<and>
   ListJobs demo_shelf demo_shelf_world ''jobs'' =
     Inr [demo_listed ''j2'' 9, demo_listed ''j1'' 3] \<and>
   mset [demo_listed ''j2'' 9, demo_listed ''j1'' 3] =
     mset (loadable demo_shelf demo_shelf_world ''jobs''
             [(''j1'', True), (''j2'', True), (''junk'', True), (''notes.txt'', False)]) \<and>
   newest_first [demo_listed ''j2'' 9, demo_listed ''j1'' 3]"
proof -
  note a = ListJobs_listing [of demo_shelf "''nowhere''" demo_shelf_world
      "''open nowhere: no such file or directory''" "[]", THEN conjunct1, rule_format,
      OF demo_shelf_missing]
  note b = ListJobs_listing [of demo_shelf "''jobs''" demo_shelf_world "[]"
      "[(''j1'', True), (''j2'', True), (''junk'', True), (''notes.txt'', False)]",
      THEN conjunct2, rule_format, OF demo_shelf_entries]
  from b obtain jobs where
    j: "ListJobs demo_shelf demo_shelf_world ''jobs'' = Inr jobs"
       "mset jobs = mset (loadable demo_shelf demo_shelf_world ''jobs''
             [(''j1'', True), (''j2'', True), (''junk'', True), (''notes.txt'', False)])"
       "newest_first jobs"
    by blast
  from j(1) have "jobs = [demo_listed ''j2'' 9, demo_listed ''j1'' 3]"
    by (simp add: demo_shelf_listed)
  with j a demo_shelf_missing demo_shelf_entries show ?thesis by (simp only: simp_thms)
qed

end

